theory Spec2Isabelle
  imports Main "HOL-Library.Option_ord" "HOL-Library.Sublist"
begin

section \<open>Conversation history synchronisation (backend/controllers/whatsapp.js)\<close>

text \<open>
  The two handlers \<^verbatim>\<open>syncConversationHistory\<close> and \<^verbatim>\<open>syncAllConversationsHistory\<close>
  read chats and messages from the messaging session, read and write the persistence
  store, and answer with a JSON object. The embedding makes each of these effects
  explicit: the store is a record of two tables that is passed through and returned,
  every awaited call has an outcome (it rejects or it resolves to a value), and the calls
  made are recorded, in order, in a list of events that the handler returns next to its
  response.
\<close>

subsection \<open>Data\<close>

text \<open>
  A session message, with the four fields the handlers read: \<^verbatim>\<open>msg.id._serialized\<close>,
  \<^verbatim>\<open>msg.body\<close>, \<^verbatim>\<open>msg.fromMe\<close>, \<^verbatim>\<open>msg.timestamp\<close> (whole seconds since the epoch).
\<close>

record wa_message =
  id_serialized :: string
  body :: string
  fromMe :: bool
  timestamp :: int

text \<open>An awaited call either rejects (the \<^verbatim>\<open>await\<close> throws) or resolves to a value.\<close>

datatype 'a outcome = Throws | Returns 'a

text \<open>
  A chat of the session: \<^verbatim>\<open>chat.id._serialized\<close> and the method
  \<^verbatim>\<open>chat.fetchMessages({ limit })\<close>, a function of the limit.
\<close>

record chat =
  chat_id :: string
  fetchMessages :: "nat \<Rightarrow> wa_message list outcome"

text \<open>
  The client handle returned by \<^verbatim>\<open>getWhatsAppClient()\<close>: the handle may be missing
  (\<open>None\<close>); when present it has the \<^verbatim>\<open>info\<close> field (truthy once connected) and the
  method \<^verbatim>\<open>getChats()\<close>.
\<close>

record client =
  info :: bool
  getChats :: "chat list outcome"

text \<open>
  \<^verbatim>\<open>new Date(ms).toISOString()\<close>: the store's datetime form of an instant. The text of
  the ISO string is not modelled; the value is the instant it denotes, in milliseconds.
  A time value further than 8.64e15 milliseconds from the epoch makes an invalid date,
  and \<^verbatim>\<open>toISOString\<close> throws a \<^verbatim>\<open>RangeError\<close> for it.
\<close>

datatype iso_datetime = ISO (millis: int)

definition valid_time_value :: "int \<Rightarrow> bool" where
  "valid_time_value ms = (- 8640000000000000 \<le> ms \<and> ms \<le> 8640000000000000)"

definition toISOString :: "int \<Rightarrow> iso_datetime outcome" where
  "toISOString ms = (if valid_time_value ms then Returns (ISO ms) else Throws)"

text \<open>A row of the \<^verbatim>\<open>conversations\<close> table, with the columns the handlers use.\<close>

record conversation =
  conv_id :: string
  phone_number :: string
  user_id :: "string option"
  last_message_at :: "iso_datetime option"

text \<open>
  A row of the \<^verbatim>\<open>messages\<close> table. The six arguments of a \<^verbatim>\<open>saveMessage\<close> call
  (conversation id, body, direction flag, external message id, timestamp, user id) are
  the same six columns, so a call's arguments are written as a row too.
\<close>

record message_row =
  conversation_id :: string
  message_id :: string
  row_body :: string
  is_from_me :: bool
  row_timestamp :: iso_datetime
  row_user_id :: "string option"

record store =
  conversations :: "conversation list"
  messages :: "message_row list"

text \<open>The store client answers a query with \<^verbatim>\<open>{ data, error }\<close>.\<close>

record 'a query_result =
  data :: "'a option"
  error :: bool

text \<open>
  How a store query goes wrong is not decided by the handlers, so it is an input: for
  each query, \<open>NoFault\<close> (the query is answered from the tables), \<open>ErrorResult\<close> (it
  resolves to \<^verbatim>\<open>{ data: null, error }\<close>, the form the handlers test with
  \<^verbatim>\<open>convError\<close>) or \<open>Rejects\<close> (the awaited call throws).
\<close>

datatype fault = NoFault | ErrorResult | Rejects

record faults =
  select_conversation_fault :: "string \<Rightarrow> fault"
  select_page_fault :: fault
  select_message_ids_fault :: "string \<Rightarrow> fault"
  update_conversation_fault :: "string \<Rightarrow> fault"

text \<open>
  \<^verbatim>\<open>saveMessage\<close> lives in \<^verbatim>\<open>models/message\<close>, which is not among the sources read
  here. The handlers take it as a parameter: a function of the store and the call's
  arguments that returns the saved row (\<open>Some\<close>, truthy), nothing (\<open>None\<close>, falsy) or
  throws, together with the store it leaves behind.
\<close>

type_synonym save_fn = "store \<Rightarrow> message_row \<Rightarrow> message_row option outcome \<times> store"

text \<open>
  The events recorded: the reads of the store and of the session, the \<^verbatim>\<open>saveMessage\<close>
  calls with their arguments, the update of \<^verbatim>\<open>last_message_at\<close>, and the three
  logger calls that close an iteration of the bulk loop (\<^verbatim>\<open>logger.warn\<close> for a missing
  chat, \<^verbatim>\<open>logger.error\<close> in the per-conversation \<^verbatim>\<open>catch\<close>, \<^verbatim>\<open>logger.info\<close> with the
  number of new messages).
\<close>

datatype event =
    SelectConversation string
  | SelectConversationsPage
  | GetChats
  | FetchMessages string nat
  | SelectMessageIds string
  | SaveMessage message_row
  | UpdateLastMessageAt string iso_datetime
  | LogChatNotFound string
  | LogSyncError string
  | LogSynced string nat

record sync_result =
  result_conversationId :: string
  totalMessages :: nat
  newMessagesSaved :: nat
  skippedMessages :: nat

record conv_sync =
  entry_conversationId :: string
  phoneNumber :: string
  newMessages :: nat

record bulk_result =
  totalNewMessages :: nat
  conversationsSynced :: nat
  totalConversationsChecked :: nat
  syncResults :: "conv_sync list"

text \<open>
  The responses of the two handlers: 503 (client not connected), 404 (conversation not
  found), 404 (chat not found), 500 from the bulk handler's \<^verbatim>\<open>convError\<close> test, 500 from
  the outer \<^verbatim>\<open>catch\<close>, and the two success bodies.
\<close>

datatype response =
    ServiceUnavailable
  | ConversationNotFound
  | ChatNotFound
  | FetchConversationsError
  | ServerError
  | SyncOk sync_result
  | BulkOk bulk_result

subsection \<open>The store client\<close>

text \<open>
  \<^verbatim>\<open>from('conversations').select('*').eq('id', conversationId).single()\<close>: the row when
  exactly one row has the identifier, an error result otherwise.
\<close>

definition select_conversation ::
  "faults \<Rightarrow> store \<Rightarrow> string \<Rightarrow> conversation query_result outcome" where
  "select_conversation f st conversationId =
     (case select_conversation_fault f conversationId of
        Rejects \<Rightarrow> Throws
      | ErrorResult \<Rightarrow> Returns \<lparr>data = None, error = True\<rparr>
      | NoFault \<Rightarrow>
          (case filter (\<lambda>c. conv_id c = conversationId) (conversations st) of
             [c] \<Rightarrow> Returns \<lparr>data = Some c, error = False\<rparr>
           | _ \<Rightarrow> Returns \<lparr>data = None, error = True\<rparr>))"

text \<open>
  \<^verbatim>\<open>from('conversations').select('*').order('last_message_at', { ascending: false }).limit(200)\<close>:
  the rows by descending \<^verbatim>\<open>last_message_at\<close> (rows without one first), at most 200.
\<close>

definition recency_key :: "conversation \<Rightarrow> int option" where
  "recency_key c = (case last_message_at c of None \<Rightarrow> None | Some t \<Rightarrow> Some (- millis t))"

definition select_conversations_page ::
  "faults \<Rightarrow> store \<Rightarrow> conversation list query_result outcome" where
  "select_conversations_page f st =
     (case select_page_fault f of
        Rejects \<Rightarrow> Throws
      | ErrorResult \<Rightarrow> Returns \<lparr>data = None, error = True\<rparr>
      | NoFault \<Rightarrow>
          Returns \<lparr>data = Some (take 200 (sort_key recency_key (conversations st))),
                   error = False\<rparr>)"

text \<open>
  \<^verbatim>\<open>from('messages').select('message_id').eq('conversation_id', conversationId)\<close>: the
  external identifiers of the rows stored under the conversation.
\<close>

definition stored_message_ids :: "store \<Rightarrow> string \<Rightarrow> string list" where
  "stored_message_ids st conversationId =
     map message_id (filter (\<lambda>r. conversation_id r = conversationId) (messages st))"

definition select_message_ids ::
  "faults \<Rightarrow> store \<Rightarrow> string \<Rightarrow> string list query_result outcome" where
  "select_message_ids f st conversationId =
     (case select_message_ids_fault f conversationId of
        Rejects \<Rightarrow> Throws
      | ErrorResult \<Rightarrow> Returns \<lparr>data = None, error = True\<rparr>
      | NoFault \<Rightarrow>
          Returns \<lparr>data = Some (stored_message_ids st conversationId), error = False\<rparr>)"

text \<open>
  \<^verbatim>\<open>from('conversations').update({ last_message_at }).eq('id', conversationId)\<close>: every
  row with the identifier gets the new value. The handlers ignore what the call resolves
  to, so only whether it throws and the store it leaves are returned.
\<close>

definition set_last_message_at :: "string \<Rightarrow> iso_datetime \<Rightarrow> conversation \<Rightarrow> conversation" where
  "set_last_message_at conversationId t c =
     (if conv_id c = conversationId then c\<lparr>last_message_at := Some t\<rparr> else c)"

definition update_last_message_at ::
  "faults \<Rightarrow> store \<Rightarrow> string \<Rightarrow> iso_datetime \<Rightarrow> unit outcome \<times> store" where
  "update_last_message_at f st conversationId t =
     (case update_conversation_fault f conversationId of
        Rejects \<Rightarrow> (Throws, st)
      | ErrorResult \<Rightarrow> (Returns (), st)
      | NoFault \<Rightarrow>
          (Returns (),
           st\<lparr>conversations := map (set_last_message_at conversationId t) (conversations st)\<rparr>))"

subsection \<open>Matching a conversation to a live chat\<close>

text \<open>
  \<^verbatim>\<open>s.replace(pat, rep)\<close> with a string pattern replaces the first occurrence of the
  pattern, wherever it is.
\<close>

fun js_replace :: "string \<Rightarrow> string \<Rightarrow> string \<Rightarrow> string" where
  "js_replace pat rep [] = (if pat = [] then rep else [])"
| "js_replace pat rep (c # cs) =
     (if take (length pat) (c # cs) = pat then rep @ drop (length pat) (c # cs)
      else c # js_replace pat rep cs)"

definition chat_matches :: "conversation \<Rightarrow> chat \<Rightarrow> bool" where
  "chat_matches conversation chat =
     (let chatNumber = js_replace ''@c.us'' '''' (chat_id chat);
          conversationNumber = js_replace ''@c.us'' '''' (phone_number conversation)
      in chatNumber = conversationNumber)"

text \<open>\<^verbatim>\<open>chats.find(...)\<close>: the first chat that matches, if any.\<close>

definition find_target_chat :: "chat list \<Rightarrow> conversation \<Rightarrow> chat option" where
  "find_target_chat chats conversation = find (chat_matches conversation) chats"

subsection \<open>Saving the messages that are not stored yet\<close>

text \<open>
  \<^verbatim>\<open>new Set(existingMessages?.map(m => m.message_id) || [])\<close>: the identifiers of the
  answer, or no identifier when the answer has no data.
\<close>

definition existing_message_ids :: "string list query_result \<Rightarrow> string set" where
  "existing_message_ids q = set (case data q of None \<Rightarrow> [] | Some ids \<Rightarrow> ids)"

text \<open>
  The arguments of a \<^verbatim>\<open>saveMessage\<close> call (lines 536 to 541, 658 to 663). They are
  evaluated before the call, inside the \<^verbatim>\<open>try\<close> of the message; the fifth one,
  \<^verbatim>\<open>new Date(msg.timestamp * 1000).toISOString()\<close>, can throw.
\<close>

definition save_args :: "string \<Rightarrow> string option \<Rightarrow> wa_message \<Rightarrow> message_row outcome" where
  "save_args cid uid msg =
     (case toISOString (timestamp msg * 1000) of
        Throws \<Rightarrow> Throws
      | Returns t \<Rightarrow>
          Returns \<lparr>conversation_id = cid, message_id = id_serialized msg, row_body = body msg,
                   is_from_me = fromMe msg, row_timestamp = t, row_user_id = uid\<rparr>)"

text \<open>
  The loop of the single-conversation handler (lines 526 to 550): a stored identifier
  counts as skipped; for any other message the arguments are built and passed to
  \<^verbatim>\<open>saveMessage\<close>, a truthy answer counts as saved, a falsy answer or an exception (of
  the arguments, and then no call is made, or of the call) is passed over.
\<close>

fun save_new_messages ::
  "save_fn \<Rightarrow> string \<Rightarrow> string option \<Rightarrow> string set \<Rightarrow> wa_message list \<Rightarrow> store \<Rightarrow> nat \<Rightarrow> nat
     \<Rightarrow> store \<times> event list \<times> nat \<times> nat" where
  "save_new_messages saveMessage cid uid existingMessageIds [] st new skipped =
     (st, [], new, skipped)"
| "save_new_messages saveMessage cid uid existingMessageIds (msg # msgs) st new skipped =
     (if id_serialized msg \<in> existingMessageIds
      then save_new_messages saveMessage cid uid existingMessageIds msgs st new (skipped + 1)
      else
        (case save_args cid uid msg of
           Throws \<Rightarrow> save_new_messages saveMessage cid uid existingMessageIds msgs st new skipped
         | Returns args \<Rightarrow>
             (case saveMessage st args of
                (savedMessage, st') \<Rightarrow>
                  (case save_new_messages saveMessage cid uid existingMessageIds msgs st'
                          (case savedMessage of Returns (Some _) \<Rightarrow> new + 1 | _ \<Rightarrow> new)
                          skipped of
                     (st'', tr, new', skipped') \<Rightarrow>
                       (st'', SaveMessage args # tr, new', skipped')))))"

text \<open>
  \<^verbatim>\<open>messages.reduce((latest, msg) => msg.timestamp > latest.timestamp ? msg : latest)\<close>
  with no initial value: the first message starts as the latest.
\<close>

definition latest_message :: "wa_message \<Rightarrow> wa_message list \<Rightarrow> wa_message" where
  "latest_message first rest =
     foldl (\<lambda>latest msg. if timestamp msg > timestamp latest then msg else latest) first rest"

subsection \<open>Single-conversation sync\<close>

text \<open>
  Lines 514 to 573: the lookup of the stored identifiers, the loop, the update of
  \<^verbatim>\<open>last_message_at\<close> when the batch is not empty, and the success body. An exception
  of the lookup, of the conversion of the latest timestamp (line 560, before the update
  is sent) or of the update reaches the outer \<^verbatim>\<open>catch\<close>.
\<close>

definition persist_fetched ::
  "save_fn \<Rightarrow> faults \<Rightarrow> store \<Rightarrow> string \<Rightarrow> conversation \<Rightarrow> wa_message list
     \<Rightarrow> response \<times> store \<times> event list" where
  "persist_fetched saveMessage f st conversationId conversation msgs =
     (case select_message_ids f st conversationId of
        Throws \<Rightarrow> (ServerError, st, [SelectMessageIds conversationId])
      | Returns existingMessages \<Rightarrow>
          (case save_new_messages saveMessage conversationId (user_id conversation)
                  (existing_message_ids existingMessages) msgs st 0 0 of
             (st1, tr, new, skipped) \<Rightarrow>
               (let ok = SyncOk \<lparr>result_conversationId = conversationId, totalMessages = length msgs,
                                 newMessagesSaved = new, skippedMessages = skipped\<rparr>
                in case msgs of
                     [] \<Rightarrow> (ok, st1, SelectMessageIds conversationId # tr)
                   | first # rest \<Rightarrow>
                       (case toISOString (timestamp (latest_message first rest) * 1000) of
                          Throws \<Rightarrow> (ServerError, st1, SelectMessageIds conversationId # tr)
                        | Returns t \<Rightarrow>
                            (case update_last_message_at f st1 conversationId t of
                               (Throws, st2) \<Rightarrow>
                                 (ServerError, st2,
                                  SelectMessageIds conversationId # tr
                                    @ [UpdateLastMessageAt conversationId t])
                             | (Returns _, st2) \<Rightarrow>
                                 (ok, st2,
                                  SelectMessageIds conversationId # tr
                                    @ [UpdateLastMessageAt conversationId t]))))))"

text \<open>
  Lines 470 to 512: the connection guard, the load of the conversation row, the search
  for the live chat and the fetch of its messages. The result is either the response
  that ends the handler there, or the conversation row and the fetched batch.
\<close>

definition fetch_for_conversation ::
  "faults \<Rightarrow> client option \<Rightarrow> store \<Rightarrow> string
     \<Rightarrow> (response \<times> event list) + (conversation \<times> wa_message list \<times> event list)" where
  "fetch_for_conversation f whatsappClient st conversationId =
     (case whatsappClient of
        None \<Rightarrow> Inl (ServiceUnavailable, [])
      | Some cl \<Rightarrow>
          if \<not> info cl then Inl (ServiceUnavailable, [])
          else
            (case select_conversation f st conversationId of
               Throws \<Rightarrow> Inl (ServerError, [SelectConversation conversationId])
             | Returns r \<Rightarrow>
                 (case (if error r then None else data r) of
                    None \<Rightarrow> Inl (ConversationNotFound, [SelectConversation conversationId])
                  | Some conversation \<Rightarrow>
                      (case getChats cl of
                         Throws \<Rightarrow> Inl (ServerError, [SelectConversation conversationId, GetChats])
                       | Returns chats \<Rightarrow>
                           (case find_target_chat chats conversation of
                              None \<Rightarrow>
                                Inl (ChatNotFound, [SelectConversation conversationId, GetChats])
                            | Some targetChat \<Rightarrow>
                                (case fetchMessages targetChat 999999 of
                                   Throws \<Rightarrow>
                                     Inl (ServerError,
                                          [SelectConversation conversationId, GetChats,
                                           FetchMessages (chat_id targetChat) 999999])
                                 | Returns msgs \<Rightarrow>
                                     Inr (conversation, msgs,
                                          [SelectConversation conversationId, GetChats,
                                           FetchMessages (chat_id targetChat) 999999])))))))"

definition syncConversationHistory ::
  "save_fn \<Rightarrow> faults \<Rightarrow> client option \<Rightarrow> store \<Rightarrow> string \<Rightarrow> response \<times> store \<times> event list" where
  "syncConversationHistory saveMessage f whatsappClient st conversationId =
     (case fetch_for_conversation f whatsappClient st conversationId of
        Inl (resp, tr) \<Rightarrow> (resp, st, tr)
      | Inr (conversation, msgs, tr) \<Rightarrow>
          (case persist_fetched saveMessage f st conversationId conversation msgs of
             (resp, st', tr') \<Rightarrow> (resp, st', tr @ tr')))"

subsection \<open>Bulk sync\<close>

text \<open>
  The inner loop of the bulk handler (lines 649 to 673). It has no counter of skipped
  messages; a truthy answer of \<^verbatim>\<open>saveMessage\<close> increments both the counter of the
  conversation and \<^verbatim>\<open>totalNewMessages\<close>.
\<close>

fun save_new_messages_bulk ::
  "save_fn \<Rightarrow> string \<Rightarrow> string option \<Rightarrow> string set \<Rightarrow> wa_message list \<Rightarrow> store \<Rightarrow> nat \<Rightarrow> nat
     \<Rightarrow> store \<times> event list \<times> nat \<times> nat" where
  "save_new_messages_bulk saveMessage cid uid existingMessageIds [] st newForThisConv totalNew =
     (st, [], newForThisConv, totalNew)"
| "save_new_messages_bulk saveMessage cid uid existingMessageIds (msg # msgs) st newForThisConv totalNew =
     (if id_serialized msg \<in> existingMessageIds
      then save_new_messages_bulk saveMessage cid uid existingMessageIds msgs st newForThisConv totalNew
      else
        (case save_args cid uid msg of
           Throws \<Rightarrow>
             save_new_messages_bulk saveMessage cid uid existingMessageIds msgs st
               newForThisConv totalNew
         | Returns args \<Rightarrow>
             (case saveMessage st args of
                (savedMessage, st') \<Rightarrow>
                  (case (case savedMessage of
                           Returns (Some _) \<Rightarrow>
                             save_new_messages_bulk saveMessage cid uid existingMessageIds msgs st'
                               (newForThisConv + 1) (totalNew + 1)
                         | _ \<Rightarrow>
                             save_new_messages_bulk saveMessage cid uid existingMessageIds msgs st'
                               newForThisConv totalNew) of
                     (st'', tr, new', totalNew') \<Rightarrow>
                       (st'', SaveMessage args # tr, new', totalNew')))))"

text \<open>
  How one iteration of the outer loop ends: at the \<^verbatim>\<open>continue\<close> of a missing chat, in
  the \<^verbatim>\<open>catch\<close>, or at the end of the \<^verbatim>\<open>try\<close> block with the number of new messages of
  the conversation.
\<close>

datatype iteration = Continued | Caught | Completed nat

text \<open>
  The \<^verbatim>\<open>try\<close> block of one conversation (lines 622 to 700), up to the test of
  \<^verbatim>\<open>newMessagesForThisConv\<close>. It returns how the iteration ended, the store, the events
  and \<^verbatim>\<open>totalNewMessages\<close>.
\<close>

definition sync_one_of_page ::
  "save_fn \<Rightarrow> faults \<Rightarrow> chat list \<Rightarrow> conversation \<Rightarrow> store \<Rightarrow> nat
     \<Rightarrow> iteration \<times> store \<times> event list \<times> nat" where
  "sync_one_of_page saveMessage f chats conversation st totalNew =
     (case find_target_chat chats conversation of
        None \<Rightarrow> (Continued, st, [LogChatNotFound (conv_id conversation)], totalNew)
      | Some targetChat \<Rightarrow>
          (case fetchMessages targetChat 100 of
             Throws \<Rightarrow>
               (Caught, st,
                [FetchMessages (chat_id targetChat) 100, LogSyncError (conv_id conversation)],
                totalNew)
           | Returns msgs \<Rightarrow>
               (case select_message_ids f st (conv_id conversation) of
                  Throws \<Rightarrow>
                    (Caught, st,
                     [FetchMessages (chat_id targetChat) 100,
                      SelectMessageIds (conv_id conversation),
                      LogSyncError (conv_id conversation)],
                     totalNew)
                | Returns existingMessages \<Rightarrow>
                    (case save_new_messages_bulk saveMessage (conv_id conversation)
                            (user_id conversation) (existing_message_ids existingMessages)
                            msgs st 0 totalNew of
                       (st1, tr, newForThisConv, totalNew1) \<Rightarrow>
                         (let pre = FetchMessages (chat_id targetChat) 100
                                      # SelectMessageIds (conv_id conversation) # tr
                          in case msgs of
                               [] \<Rightarrow>
                                 (Completed newForThisConv, st1,
                                  pre @ [LogSynced (conv_id conversation) newForThisConv],
                                  totalNew1)
                             | first # rest \<Rightarrow>
                                 (case toISOString
                                         (timestamp (latest_message first rest) * 1000) of
                                    Throws \<Rightarrow>
                                      (Caught, st1,
                                       pre @ [LogSyncError (conv_id conversation)], totalNew1)
                                  | Returns t \<Rightarrow>
                                      (case update_last_message_at f st1 (conv_id conversation) t of
                                         (Throws, st2) \<Rightarrow>
                                           (Caught, st2,
                                            pre @ [UpdateLastMessageAt (conv_id conversation) t,
                                                   LogSyncError (conv_id conversation)],
                                            totalNew1)
                                       | (Returns _, st2) \<Rightarrow>
                                           (Completed newForThisConv, st2,
                                            pre @ [UpdateLastMessageAt (conv_id conversation) t,
                                                   LogSynced (conv_id conversation)
                                                     newForThisConv],
                                            totalNew1))))))))"

text \<open>
  The outer loop (line 621): after an iteration that completed with at least one new
  message, \<^verbatim>\<open>conversationsSynced\<close> is incremented and an entry is pushed to
  \<^verbatim>\<open>syncResults\<close> (lines 687 to 694).
\<close>

fun sync_page ::
  "save_fn \<Rightarrow> faults \<Rightarrow> chat list \<Rightarrow> conversation list \<Rightarrow> store \<Rightarrow> nat \<Rightarrow> nat \<Rightarrow> conv_sync list
     \<Rightarrow> store \<times> event list \<times> nat \<times> nat \<times> conv_sync list" where
  "sync_page saveMessage f chats [] st totalNew synced results = (st, [], totalNew, synced, results)"
| "sync_page saveMessage f chats (conversation # rest) st totalNew synced results =
     (case sync_one_of_page saveMessage f chats conversation st totalNew of
        (it, st', tr, totalNew') \<Rightarrow>
          (case (case it of
                   Completed n \<Rightarrow>
                     if n > 0
                     then sync_page saveMessage f chats rest st' totalNew' (synced + 1)
                            (results @ [\<lparr>entry_conversationId = conv_id conversation,
                                         phoneNumber = phone_number conversation,
                                         newMessages = n\<rparr>])
                     else sync_page saveMessage f chats rest st' totalNew' synced results
                 | _ \<Rightarrow> sync_page saveMessage f chats rest st' totalNew' synced results) of
             (st'', tr', totalNew'', synced', results') \<Rightarrow>
               (st'', tr @ tr', totalNew'', synced', results')))"

text \<open>
  The bulk handler: the connection guard, the page of conversations, the chat list, the
  loop, and the success body. A page answer without data and without error makes
  \<^verbatim>\<open>conversations.length\<close> throw, which reaches the outer \<^verbatim>\<open>catch\<close>.
\<close>

definition syncAllConversationsHistory ::
  "save_fn \<Rightarrow> faults \<Rightarrow> client option \<Rightarrow> store \<Rightarrow> response \<times> store \<times> event list" where
  "syncAllConversationsHistory saveMessage f whatsappClient st =
     (case whatsappClient of
        None \<Rightarrow> (ServiceUnavailable, st, [])
      | Some cl \<Rightarrow>
          if \<not> info cl then (ServiceUnavailable, st, [])
          else
            (case select_conversations_page f st of
               Throws \<Rightarrow> (ServerError, st, [SelectConversationsPage])
             | Returns r \<Rightarrow>
                 if error r then (FetchConversationsError, st, [SelectConversationsPage])
                 else
                   (case data r of
                      None \<Rightarrow> (ServerError, st, [SelectConversationsPage])
                    | Some convs \<Rightarrow>
                        (case getChats cl of
                           Throws \<Rightarrow> (ServerError, st, [SelectConversationsPage, GetChats])
                         | Returns chats \<Rightarrow>
                             (case sync_page saveMessage f chats convs st 0 0 [] of
                                (st', tr, totalNew, synced, results) \<Rightarrow>
                                  (BulkOk \<lparr>totalNewMessages = totalNew,
                                           conversationsSynced = synced,
                                           totalConversationsChecked = length convs,
                                           syncResults = results\<rparr>,
                                   st', SelectConversationsPage # GetChats # tr))))))"

subsection \<open>Reading a list of events\<close>

text \<open>The arguments of the \<^verbatim>\<open>saveMessage\<close> calls of a run, in the order of the calls.\<close>

fun save_calls :: "event list \<Rightarrow> message_row list" where
  "save_calls [] = []"
| "save_calls (SaveMessage r # tr) = r # save_calls tr"
| "save_calls (e # tr) = save_calls tr"

text \<open>The updates of \<^verbatim>\<open>last_message_at\<close> of a run: conversation and new value.\<close>

fun timestamp_updates :: "event list \<Rightarrow> (string \<times> iso_datetime) list" where
  "timestamp_updates [] = []"
| "timestamp_updates (UpdateLastMessageAt c t # tr) = (c, t) # timestamp_updates tr"
| "timestamp_updates (e # tr) = timestamp_updates tr"

text \<open>The conversations whose iteration of the bulk loop reached its end, with their counts.\<close>

fun synced_log :: "event list \<Rightarrow> (string \<times> nat) list" where
  "synced_log [] = []"
| "synced_log (LogSynced c n # tr) = (c, n) # synced_log tr"
| "synced_log (e # tr) = synced_log tr"

text \<open>The conversations whose iteration of the bulk loop ended in the \<^verbatim>\<open>catch\<close>.\<close>

fun failed_log :: "event list \<Rightarrow> string list" where
  "failed_log [] = []"
| "failed_log (LogSyncError c # tr) = c # failed_log tr"
| "failed_log (e # tr) = failed_log tr"

text \<open>The conversations skipped by the bulk loop for want of a live chat.\<close>

fun missing_log :: "event list \<Rightarrow> string list" where
  "missing_log [] = []"
| "missing_log (LogChatNotFound c # tr) = c # missing_log tr"
| "missing_log (e # tr) = missing_log tr"

text \<open>An entry of \<^verbatim>\<open>syncResults\<close> as the pair of its conversation and its count.\<close>

definition entry_pair :: "conv_sync \<Rightarrow> string \<times> nat" where
  "entry_pair e = (entry_conversationId e, newMessages e)"

text \<open>Reads of the messaging session, and writes to the store.\<close>

fun session_read :: "event \<Rightarrow> bool" where
  "session_read GetChats = True"
| "session_read (FetchMessages _ _) = True"
| "session_read _ = False"

fun store_write :: "event \<Rightarrow> bool" where
  "store_write (SaveMessage _) = True"
| "store_write (UpdateLastMessageAt _ _) = True"
| "store_write _ = False"

subsection \<open>Messages whose timestamp is a date\<close>

text \<open>
  The arguments of \<^verbatim>\<open>saveMessage\<close> can be built for a message when its timestamp, in
  milliseconds, is a valid time value; they are then the row below.
\<close>

definition valid_date :: "wa_message \<Rightarrow> bool" where
  "valid_date msg = valid_time_value (timestamp msg * 1000)"

definition row_of :: "string \<Rightarrow> string option \<Rightarrow> wa_message \<Rightarrow> message_row" where
  "row_of cid uid msg =
     \<lparr>conversation_id = cid, message_id = id_serialized msg, row_body = body msg,
      is_from_me = fromMe msg, row_timestamp = ISO (timestamp msg * 1000), row_user_id = uid\<rparr>"

text \<open>
  The number of truthy answers when \<^verbatim>\<open>saveMessage\<close> is called with the given arguments
  one call after the other, each on the store the call before it left.
\<close>

fun saved_count :: "save_fn \<Rightarrow> store \<Rightarrow> message_row list \<Rightarrow> nat" where
  "saved_count saveMessage st [] = 0"
| "saved_count saveMessage st (r # rs) =
     (case saveMessage st r of
        (savedMessage, st') \<Rightarrow>
          (case savedMessage of Returns (Some _) \<Rightarrow> 1 | _ \<Rightarrow> 0)
            + saved_count saveMessage st' rs)"

subsection \<open>Rows of the message table\<close>

text \<open>The pair \<^verbatim>\<open>(conversation_id, message_id)\<close> of a row, and a table with no pair twice.\<close>

definition row_key :: "message_row \<Rightarrow> string \<times> string" where
  "row_key r = (conversation_id r, message_id r)"

definition unique_rows :: "store \<Rightarrow> bool" where
  "unique_rows st = distinct (map row_key (messages st))"

text \<open>
  What is asked of \<^verbatim>\<open>saveMessage\<close> where a statement is about the rows it leaves: a call
  adds at most one row, under the pair of its arguments; it removes no pair; a truthy
  answer means the pair of its arguments is stored; it leaves the conversations alone.
\<close>

definition adds_at_most_one :: "save_fn \<Rightarrow> bool" where
  "adds_at_most_one saveMessage =
     (\<forall>st r k. count_list (map row_key (messages (snd (saveMessage st r)))) k
                 \<le> count_list (map row_key (messages st)) k + (if k = row_key r then 1 else 0))"

definition keeps_rows :: "save_fn \<Rightarrow> bool" where
  "keeps_rows saveMessage =
     (\<forall>st r. set (map row_key (messages st))
                \<subseteq> set (map row_key (messages (snd (saveMessage st r)))))"

definition stores_on_success :: "save_fn \<Rightarrow> bool" where
  "stores_on_success saveMessage =
     (\<forall>st r saved. fst (saveMessage st r) = Returns (Some saved)
        \<longrightarrow> row_key r \<in> set (map row_key (messages (snd (saveMessage st r)))))"

definition keeps_conversations :: "save_fn \<Rightarrow> bool" where
  "keeps_conversations saveMessage =
     (\<forall>st r. conversations (snd (saveMessage st r)) = conversations st)"

subsection \<open>Phone numbers\<close>

text \<open>
  The matching in the words of the specification: strip the session suffix \<^verbatim>\<open>@c.us\<close>
  and compare what is left. An identifier is regular when the suffix text does not occur
  in what is left.
\<close>

definition strip_session_suffix :: "string \<Rightarrow> string" where
  "strip_session_suffix s =
     (if 5 \<le> length s \<and> drop (length s - 5) s = ''@c.us'' then take (length s - 5) s else s)"

fun has_infix :: "string \<Rightarrow> string \<Rightarrow> bool" where
  "has_infix pat [] = (pat = [])"
| "has_infix pat (c # cs) = (take (length pat) (c # cs) = pat \<or> has_infix pat cs)"

definition regular_number :: "string \<Rightarrow> bool" where
  "regular_number s = (\<not> has_infix ''@c.us'' (strip_session_suffix s))"

subsection \<open>A store and a session to run the handlers on\<close>

text \<open>
  Modelled from the spec: \<^verbatim>\<open>saveMessage\<close> of \<^verbatim>\<open>models/message\<close> is not among the sources.
  The specification gives the store the capability to upsert a message and keeps the
  external identifier unique per conversation; a save that fails is passed over by the
  handlers. Here a save throws, answers nothing, or writes the row under its pair
  \<^verbatim>\<open>(conversation_id, message_id)\<close> (in place of the rows with that pair, or at the end)
  and answers it, as the first argument says for the message identifier.
\<close>

definition upsert_message :: "message_row \<Rightarrow> message_row list \<Rightarrow> message_row list" where
  "upsert_message r rows =
     (if row_key r \<in> set (map row_key rows)
      then map (\<lambda>r'. if row_key r' = row_key r then r else r') rows
      else rows @ [r])"

definition store_saveMessage :: "(string \<Rightarrow> fault) \<Rightarrow> save_fn" where
  "store_saveMessage save_fault st r =
     (case save_fault (message_id r) of
        Rejects \<Rightarrow> (Throws, st)
      | ErrorResult \<Rightarrow> (Returns None, st)
      | NoFault \<Rightarrow> (Returns (Some r), st\<lparr>messages := upsert_message r (messages st)\<rparr>))"

definition no_faults :: faults where
  "no_faults =
     \<lparr>select_conversation_fault = (\<lambda>_. NoFault), select_page_fault = NoFault,
      select_message_ids_fault = (\<lambda>_. NoFault), update_conversation_fault = (\<lambda>_. NoFault)\<rparr>"

definition a_message :: "string \<Rightarrow> int \<Rightarrow> wa_message" where
  "a_message i t = \<lparr>id_serialized = i, body = ''hello'', fromMe = False, timestamp = t\<rparr>"

definition a_chat :: "string \<Rightarrow> wa_message list \<Rightarrow> chat" where
  "a_chat i msgs = \<lparr>chat_id = i, fetchMessages = (\<lambda>limit. Returns (drop (length msgs - limit) msgs))\<rparr>"

definition a_client :: "chat list \<Rightarrow> client" where
  "a_client chats = \<lparr>info = True, getChats = Returns chats\<rparr>"

definition a_conversation :: "string \<Rightarrow> string \<Rightarrow> conversation" where
  "a_conversation i p = \<lparr>conv_id = i, phone_number = p, user_id = None, last_message_at = None\<rparr>"

definition a_row :: "string \<Rightarrow> string \<Rightarrow> int \<Rightarrow> message_row" where
  "a_row c i t = row_of c None (a_message i t)"

definition example_chats :: "chat list" where
  "example_chats =
     [a_chat ''32999@c.us'' [],
      a_chat ''32470@c.us'' [a_message ''a'' 100, a_message ''b'' 200, a_message ''c'' 150]]"

definition example_client :: client where
  "example_client = a_client example_chats"

definition example_store :: store where
  "example_store =
     \<lparr>conversations = [a_conversation ''c1'' ''32470'', a_conversation ''c2'' ''32999'',
                        a_conversation ''c3'' ''32111''],
      messages = [a_row ''c1'' ''a'' 100]\<rparr>"

definition example_saveMessage :: save_fn where
  "example_saveMessage = store_saveMessage (\<lambda>_. NoFault)"

text \<open>
  Faults for the examples: the lookup of the stored identifiers of conversation \<^verbatim>\<open>c1\<close>
  resolves to an error result; the same lookup throws; the update of conversation
  \<^verbatim>\<open>c1\<close> throws.
\<close>

definition lookup_error_faults :: faults where
  "lookup_error_faults =
     no_faults\<lparr>select_message_ids_fault := (\<lambda>cid. if cid = ''c1'' then ErrorResult else NoFault)\<rparr>"

definition lookup_rejects_faults :: faults where
  "lookup_rejects_faults =
     no_faults\<lparr>select_message_ids_fault := (\<lambda>cid. if cid = ''c1'' then Rejects else NoFault)\<rparr>"

definition update_rejects_faults :: faults where
  "update_rejects_faults =
     no_faults\<lparr>update_conversation_fault := (\<lambda>cid. if cid = ''c1'' then Rejects else NoFault)\<rparr>"

text \<open>
  A session whose chat for conversation \<^verbatim>\<open>c1\<close> holds a message with a timestamp of
  8640000000001 seconds, one second past the last instant a JavaScript date can hold.
\<close>

definition late_chats :: "chat list" where
  "late_chats =
     [a_chat ''32470@c.us'' [a_message ''a'' 100, a_message ''b'' 200,
                              a_message ''z'' 8640000000001]]"

definition late_client :: client where
  "late_client = a_client late_chats"

text \<open>
  Two more stores: one where conversation \<^verbatim>\<open>c1\<close> has all three messages of its chat
  stored, and one with a conversation that has no live chat and a conversation whose
  chat is empty.
\<close>

definition synced_store :: store where
  "synced_store =
     \<lparr>conversations = [a_conversation ''c1'' ''32470''],
      messages = [a_row ''c1'' ''a'' 100, a_row ''c1'' ''b'' 200, a_row ''c1'' ''c'' 150]\<rparr>"

definition small_store :: store where
  "small_store =
     \<lparr>conversations = [a_conversation ''c3'' ''32111'', a_conversation ''c2'' ''32999''],
      messages = []\<rparr>"

section \<open>Properties\<close>

subsection \<open>The loop of the single-conversation handler\<close>

lemma save_args_valid:
  "valid_date msg \<Longrightarrow> save_args cid uid msg = Returns (row_of cid uid msg)"
  by (simp add: save_args_def toISOString_def valid_date_def row_of_def)

lemma save_args_invalid: "\<not> valid_date msg \<Longrightarrow> save_args cid uid msg = Throws"
  by (simp add: save_args_def toISOString_def valid_date_def)

lemma save_new_messages_skip:
  "id_serialized msg \<in> ex \<Longrightarrow>
   save_new_messages sv cid uid ex (msg # msgs) st n s
     = save_new_messages sv cid uid ex msgs st n (s + 1)"
  by simp

lemma save_new_messages_invalid:
  "id_serialized msg \<notin> ex \<Longrightarrow> \<not> valid_date msg \<Longrightarrow>
   save_new_messages sv cid uid ex (msg # msgs) st n s
     = save_new_messages sv cid uid ex msgs st n s"
  by (simp add: save_args_invalid)

lemma save_new_messages_save:
  assumes "id_serialized msg \<notin> ex" and "valid_date msg"
    and "sv st (row_of cid uid msg) = (res, st1)"
    and "save_new_messages sv cid uid ex msgs st1
           (case res of Returns (Some _) \<Rightarrow> n + 1 | _ \<Rightarrow> n) s = (st', tr, n', s')"
  shows "save_new_messages sv cid uid ex (msg # msgs) st n s
     = (st', SaveMessage (row_of cid uid msg) # tr, n', s')"
  using assms by (simp add: save_args_valid)

text \<open>
  A proof rule for the loop: a property of the loop's result holds when it holds for
  the empty batch, is kept by a skipped message, by a message whose arguments cannot
  be built, and by a message passed to \<^verbatim>\<open>saveMessage\<close>.
\<close>

lemma save_new_messages_cases [case_names Nil Skip Invalid Save]:
  assumes "\<And>st n s. P [] st n s (st, [], n, s)"
    and "\<And>msg msgs st n s.
           id_serialized msg \<in> ex \<Longrightarrow>
           P msgs st n (s + 1) (save_new_messages sv cid uid ex msgs st n (s + 1)) \<Longrightarrow>
           P (msg # msgs) st n s (save_new_messages sv cid uid ex msgs st n (s + 1))"
    and "\<And>msg msgs st n s.
           id_serialized msg \<notin> ex \<Longrightarrow> \<not> valid_date msg \<Longrightarrow>
           P msgs st n s (save_new_messages sv cid uid ex msgs st n s) \<Longrightarrow>
           P (msg # msgs) st n s (save_new_messages sv cid uid ex msgs st n s)"
    and "\<And>msg msgs st n s res st1 st' tr n' s'.
           id_serialized msg \<notin> ex \<Longrightarrow> valid_date msg \<Longrightarrow>
           sv st (row_of cid uid msg) = (res, st1) \<Longrightarrow>
           save_new_messages sv cid uid ex msgs st1
             (case res of Returns (Some _) \<Rightarrow> n + 1 | _ \<Rightarrow> n) s = (st', tr, n', s') \<Longrightarrow>
           P msgs st1 (case res of Returns (Some _) \<Rightarrow> n + 1 | _ \<Rightarrow> n) s (st', tr, n', s') \<Longrightarrow>
           P (msg # msgs) st n s (st', SaveMessage (row_of cid uid msg) # tr, n', s')"
  shows "P msgs st n s (save_new_messages sv cid uid ex msgs st n s)"
proof (induction msgs arbitrary: st n s)
  case Nil
  show ?case using assms(1) by simp
next
  case (Cons msg msgs)
  show ?case
  proof (cases "id_serialized msg \<in> ex")
    case True
    then show ?thesis using assms(2) [OF True Cons.IH] by simp
  next
    case False
    show ?thesis
    proof (cases "valid_date msg")
      case inv: False
      show ?thesis
        unfolding save_new_messages_invalid [OF False inv]
        by (rule assms(3) [OF False inv Cons.IH])
    next
      case v: True
      obtain res st1 where sv: "sv st (row_of cid uid msg) = (res, st1)"
        by (cases "sv st (row_of cid uid msg)")
      obtain st' tr n' s' where rec:
        "save_new_messages sv cid uid ex msgs st1
           (case res of Returns (Some _) \<Rightarrow> n + 1 | _ \<Rightarrow> n) s = (st', tr, n', s')"
        by (metis prod_cases4)
      have "P msgs st1 (case res of Returns (Some _) \<Rightarrow> n + 1 | _ \<Rightarrow> n) s (st', tr, n', s')"
        using Cons.IH [of st1 "case res of Returns (Some _) \<Rightarrow> n + 1 | _ \<Rightarrow> n" s] rec by simp
      from assms(4) [OF False v sv rec this] show ?thesis
        unfolding save_new_messages_save [OF False v sv rec] .
    qed
  qed
qed

lemma save_new_messages_trace:
  "fst (snd (save_new_messages sv cid uid ex msgs st n s)) =
     map (\<lambda>m. SaveMessage (row_of cid uid m))
       (filter (\<lambda>m. id_serialized m \<notin> ex \<and> valid_date m) msgs)"
  by (rule save_new_messages_cases [where P = "\<lambda>msgs st n s r. fst (snd r) =
     map (\<lambda>m. SaveMessage (row_of cid uid m))
       (filter (\<lambda>m. id_serialized m \<notin> ex \<and> valid_date m) msgs)"]) simp_all

lemma save_new_messages_skipped:
  "snd (snd (snd (save_new_messages sv cid uid ex msgs st n s))) =
     s + length (filter (\<lambda>m. id_serialized m \<in> ex) msgs)"
  by (rule save_new_messages_cases [where P = "\<lambda>msgs st n s r. snd (snd (snd r)) =
     s + length (filter (\<lambda>m. id_serialized m \<in> ex) msgs)"]) simp_all

lemma save_new_messages_new_bounds:
  "n \<le> fst (snd (snd (save_new_messages sv cid uid ex msgs st n s))) \<and>
   fst (snd (snd (save_new_messages sv cid uid ex msgs st n s)))
     \<le> n + length (filter (\<lambda>m. id_serialized m \<notin> ex \<and> valid_date m) msgs)"
  by (rule save_new_messages_cases [where P = "\<lambda>msgs st n s r. n \<le> fst (snd (snd r)) \<and>
     fst (snd (snd r))
       \<le> n + length (filter (\<lambda>m. id_serialized m \<notin> ex \<and> valid_date m) msgs)"])
     (auto split: outcome.splits option.splits)

lemma save_new_messages_saved_count:
  "fst (snd (snd (save_new_messages sv cid uid ex msgs st n s)))
     = n + saved_count sv st (save_calls (fst (snd (save_new_messages sv cid uid ex msgs st n s))))"
  by (rule save_new_messages_cases [where P = "\<lambda>msgs st n s r.
       fst (snd (snd r)) = n + saved_count sv st (save_calls (fst (snd r)))"])
     (auto split: outcome.splits option.splits)

lemma latest_message_fold_max:
  "timestamp (foldl (\<lambda>latest msg. if timestamp msg > timestamp latest then msg else latest) first rest)
     = Max (set (map timestamp (first # rest)))"
proof (induction rest arbitrary: first)
  case Nil
  then show ?case by simp
next
  case (Cons a rest)
  have fin: "finite (set (map timestamp rest))" by simp
  show ?case
  proof (cases "timestamp a > timestamp first")
    case True
    have "Max (insert (timestamp first) (insert (timestamp a) (set (map timestamp rest))))
            = max (timestamp first) (Max (insert (timestamp a) (set (map timestamp rest))))"
      using fin by simp
    moreover have "timestamp a \<le> Max (insert (timestamp a) (set (map timestamp rest)))"
      using fin by simp
    ultimately have "Max (insert (timestamp first) (insert (timestamp a) (set (map timestamp rest))))
            = Max (insert (timestamp a) (set (map timestamp rest)))"
      using True by linarith
    then show ?thesis using Cons.IH [of a] True by simp
  next
    case False
    have "Max (insert (timestamp first) (insert (timestamp a) (set (map timestamp rest))))
            = Max (insert (timestamp a) (insert (timestamp first) (set (map timestamp rest))))"
      by (simp add: insert_commute)
    also have "\<dots> = max (timestamp a) (Max (insert (timestamp first) (set (map timestamp rest))))"
      using fin by simp
    also have "\<dots> = Max (insert (timestamp first) (set (map timestamp rest)))"
    proof -
      have "timestamp first \<le> Max (insert (timestamp first) (set (map timestamp rest)))"
        using fin by simp
      with False show ?thesis by linarith
    qed
    finally show ?thesis using Cons.IH [of first] False by simp
  qed
qed

subsection \<open>Events of a concatenation\<close>

lemma save_calls_append: "save_calls (xs @ ys) = save_calls xs @ save_calls ys"
  by (induction xs rule: save_calls.induct) simp_all

lemma save_calls_map: "save_calls (map (\<lambda>m. SaveMessage (g m)) xs) = map g xs"
  by (induction xs) simp_all



subsection \<open>Before the fetch: guard, conversation row, live chat\<close>

lemma fetch_for_conversation_Inr_ex:
  assumes "fetch_for_conversation f whatsappClient st conversationId = Inr (conversation, msgs, tr0)"
  shows "\<exists>cl chats targetChat.
           whatsappClient = Some cl \<and> info cl
           \<and> select_conversation f st conversationId
               = Returns \<lparr>data = Some conversation, error = False\<rparr>
           \<and> getChats cl = Returns chats
           \<and> find_target_chat chats conversation = Some targetChat
           \<and> fetchMessages targetChat 999999 = Returns msgs
           \<and> tr0 = [SelectConversation conversationId, GetChats,
                     FetchMessages (chat_id targetChat) 999999]"
proof -
  obtain cl where cl: "whatsappClient = Some cl" "info cl"
    using assms by (auto simp: fetch_for_conversation_def split: option.splits if_splits)
  obtain r where r: "select_conversation f st conversationId = Returns r"
    using assms cl by (auto simp: fetch_for_conversation_def split: outcome.splits)
  have r': "r = \<lparr>data = Some conversation, error = False\<rparr>"
    using assms cl r
    by (cases r) (auto simp: fetch_for_conversation_def split: outcome.splits option.splits if_splits)
  show ?thesis
    using assms cl r r'
    by (auto simp: fetch_for_conversation_def split: outcome.splits option.splits)
qed

lemma fetch_for_conversation_Inr:
  assumes "fetch_for_conversation f whatsappClient st conversationId = Inr (conversation, msgs, tr0)"
  obtains cl chats targetChat where
    "whatsappClient = Some cl" and "info cl"
    and "select_conversation f st conversationId
           = Returns \<lparr>data = Some conversation, error = False\<rparr>"
    and "getChats cl = Returns chats"
    and "find_target_chat chats conversation = Some targetChat"
    and "fetchMessages targetChat 999999 = Returns msgs"
    and "tr0 = [SelectConversation conversationId, GetChats,
                FetchMessages (chat_id targetChat) 999999]"
proof -
  from fetch_for_conversation_Inr_ex [OF assms] obtain cl where
    "\<exists>chats targetChat.
           whatsappClient = Some cl \<and> info cl
           \<and> select_conversation f st conversationId
               = Returns \<lparr>data = Some conversation, error = False\<rparr>
           \<and> getChats cl = Returns chats
           \<and> find_target_chat chats conversation = Some targetChat
           \<and> fetchMessages targetChat 999999 = Returns msgs
           \<and> tr0 = [SelectConversation conversationId, GetChats,
                     FetchMessages (chat_id targetChat) 999999]" ..
  then obtain chats where
    "\<exists>targetChat.
           whatsappClient = Some cl \<and> info cl
           \<and> select_conversation f st conversationId
               = Returns \<lparr>data = Some conversation, error = False\<rparr>
           \<and> getChats cl = Returns chats
           \<and> find_target_chat chats conversation = Some targetChat
           \<and> fetchMessages targetChat 999999 = Returns msgs
           \<and> tr0 = [SelectConversation conversationId, GetChats,
                     FetchMessages (chat_id targetChat) 999999]" ..
  then obtain targetChat where c:
    "whatsappClient = Some cl \<and> info cl
           \<and> select_conversation f st conversationId
               = Returns \<lparr>data = Some conversation, error = False\<rparr>
           \<and> getChats cl = Returns chats
           \<and> find_target_chat chats conversation = Some targetChat
           \<and> fetchMessages targetChat 999999 = Returns msgs
           \<and> tr0 = [SelectConversation conversationId, GetChats,
                     FetchMessages (chat_id targetChat) 999999]" ..
  show thesis
    using c by (intro that [of cl chats targetChat]) simp_all
qed

subsection \<open>After the fetch: lookup, loop, update\<close>

lemma persist_fetched_throws:
  assumes "select_message_ids f st cid = Throws"
  shows "persist_fetched sv f st cid conv msgs = (ServerError, st, [SelectMessageIds cid])"
  using assms by (simp add: persist_fetched_def)

lemma persist_fetched_events:
  assumes "select_message_ids f st cid = Returns q"
    and "persist_fetched sv f st cid conv msgs = (resp, st', tr)"
  shows "tr = SelectMessageIds cid
              # map (\<lambda>m. SaveMessage (row_of cid (user_id conv) m))
                  (filter (\<lambda>m. id_serialized m \<notin> existing_message_ids q \<and> valid_date m) msgs)
              @ (case msgs of
                   [] \<Rightarrow> []
                 | first # rest \<Rightarrow>
                     if valid_time_value (timestamp (latest_message first rest) * 1000)
                     then [UpdateLastMessageAt cid
                             (ISO (timestamp (latest_message first rest) * 1000))]
                     else [])"
proof -
  obtain st1 tr1 new skipped where loop:
    "save_new_messages sv cid (user_id conv) (existing_message_ids q) msgs st 0 0
       = (st1, tr1, new, skipped)"
    by (metis prod_cases4)
  have tr1: "tr1 = map (\<lambda>m. SaveMessage (row_of cid (user_id conv) m))
                  (filter (\<lambda>m. id_serialized m \<notin> existing_message_ids q \<and> valid_date m) msgs)"
    using save_new_messages_trace [of sv cid "user_id conv" "existing_message_ids q" msgs st 0 0] loop
    by simp
  show ?thesis
    using assms loop tr1
    by (auto simp: persist_fetched_def Let_def toISOString_def
          split: list.splits prod.splits outcome.splits)
qed

lemma persist_fetched_no_session_read:
  assumes "persist_fetched sv f st cid conv msgs = (resp, st', tr)"
  shows "filter session_read tr = []"
proof (cases "select_message_ids f st cid")
  case Throws
  with assms persist_fetched_throws [OF Throws, of sv conv msgs] show ?thesis by auto
next
  case (Returns q)
  from persist_fetched_events [OF Returns assms] show ?thesis
    by (simp add: filter_empty_conv split: list.splits)
qed

lemma latest_message_max:
  "timestamp (latest_message first rest) = Max (set (map timestamp (first # rest)))"
  unfolding latest_message_def by (rule latest_message_fold_max)

lemma persist_fetched_empty:
  assumes "select_message_ids f st cid = Returns q"
  shows "persist_fetched sv f st cid conv [] =
     (SyncOk \<lparr>result_conversationId = cid, totalMessages = 0, newMessagesSaved = 0,
              skippedMessages = 0\<rparr>, st, [SelectMessageIds cid])"
  using assms by (simp add: persist_fetched_def)

lemma persist_fetched_nonempty:
  assumes "select_message_ids f st cid = Returns q"
    and "save_new_messages sv cid (user_id conv) (existing_message_ids q) (first # rest) st 0 0
           = (st1, tr1, new, skipped)"
    and "valid_time_value (timestamp (latest_message first rest) * 1000)"
  shows "persist_fetched sv f st cid conv (first # rest) =
     (case update_last_message_at f st1 cid
             (ISO (timestamp (latest_message first rest) * 1000)) of
        (Throws, st2) \<Rightarrow>
          (ServerError, st2,
           SelectMessageIds cid # tr1
             @ [UpdateLastMessageAt cid
                  (ISO (timestamp (latest_message first rest) * 1000))])
      | (Returns _, st2) \<Rightarrow>
          (SyncOk \<lparr>result_conversationId = cid, totalMessages = length (first # rest),
                   newMessagesSaved = new, skippedMessages = skipped\<rparr>, st2,
           SelectMessageIds cid # tr1
             @ [UpdateLastMessageAt cid
                  (ISO (timestamp (latest_message first rest) * 1000))]))"
  using assms
  by (simp add: persist_fetched_def Let_def toISOString_def split: prod.splits outcome.splits
        del: save_new_messages.simps)

lemma persist_fetched_invalid:
  assumes "select_message_ids f st cid = Returns q"
    and "save_new_messages sv cid (user_id conv) (existing_message_ids q) (first # rest) st 0 0
           = (st1, tr1, new, skipped)"
    and "\<not> valid_time_value (timestamp (latest_message first rest) * 1000)"
  shows "persist_fetched sv f st cid conv (first # rest)
     = (ServerError, st1, SelectMessageIds cid # tr1)"
  using assms
  by (simp add: persist_fetched_def Let_def toISOString_def del: save_new_messages.simps)




subsection \<open>Unknown conversation\<close>

lemma select_absent_conversation:
  assumes "\<forall>c\<in>set (conversations st). conv_id c \<noteq> conversationId"
    and "select_conversation f st conversationId = Returns r"
  shows "(if error r then None else data r) = None"
proof -
  have "filter (\<lambda>c. conv_id c = conversationId) (conversations st) = []"
    using assms(1) by (simp add: filter_empty_conv)
  with assms(2) show ?thesis
    by (auto simp: select_conversation_def split: fault.splits)
qed

text \<open>
  C8. When no row of the conversations table has the identifier, single-conversation
  sync leaves the store as it is, reads nothing from the messaging session and writes
  nothing to the store; with a connected client and a query that resolves, the response
  is the 404 for a conversation that is not found, after the one read of the
  conversations table.
\<close>

theorem sync_absent_conversation:
  assumes "\<forall>c\<in>set (conversations st). conv_id c \<noteq> conversationId"
  shows "case syncConversationHistory saveMessage f whatsappClient st conversationId of
           (resp, st', tr) \<Rightarrow>
             st' = st \<and> (\<forall>e\<in>set tr. \<not> session_read e \<and> \<not> store_write e) \<and>
             ((\<exists>cl. whatsappClient = Some cl \<and> info cl)
                \<and> select_conversation_fault f conversationId \<noteq> Rejects
              \<longrightarrow> resp = ConversationNotFound \<and> tr = [SelectConversation conversationId])"
proof -
  have fetch: "fetch_for_conversation f whatsappClient st conversationId =
      (case whatsappClient of
         None \<Rightarrow> Inl (ServiceUnavailable, [])
       | Some cl \<Rightarrow>
           if \<not> info cl then Inl (ServiceUnavailable, [])
           else (case select_conversation f st conversationId of
                   Throws \<Rightarrow> Inl (ServerError, [SelectConversation conversationId])
                 | Returns r \<Rightarrow> Inl (ConversationNotFound, [SelectConversation conversationId])))"
    using select_absent_conversation [OF assms]
    by (simp add: fetch_for_conversation_def split: option.splits outcome.splits)
  have rejects: "select_conversation f st conversationId = Throws
      \<longleftrightarrow> select_conversation_fault f conversationId = Rejects"
    by (simp add: select_conversation_def split: fault.splits list.splits)
  show ?thesis
    using rejects
    by (auto simp: syncConversationHistory_def fetch split: option.splits outcome.splits)
qed

theorem sync_absent_conversation_witness:
  "syncConversationHistory (store_saveMessage (\<lambda>_. NoFault)) no_faults
     (Some (a_client [a_chat ''32470@c.us'' [a_message ''a'' 100]]))
     \<lparr>conversations = [a_conversation ''c1'' ''32470''], messages = []\<rparr> ''c2''
   = (ConversationNotFound,
      \<lparr>conversations = [a_conversation ''c1'' ''32470''], messages = []\<rparr>,
      [SelectConversation ''c2''])"
proof -
  let ?st = "\<lparr>conversations = [a_conversation ''c1'' ''32470''], messages = []\<rparr>"
  let ?cl = "a_client [a_chat ''32470@c.us'' [a_message ''a'' 100]]"
  have absent: "\<forall>c\<in>set (conversations ?st). conv_id c \<noteq> ''c2''"
    by (simp add: a_conversation_def)
  have ok: "(\<exists>cl. Some ?cl = Some cl \<and> info cl)
      \<and> select_conversation_fault no_faults ''c2'' \<noteq> Rejects"
    by (simp add: a_client_def no_faults_def)
  from sync_absent_conversation [OF absent, where saveMessage = "store_saveMessage (\<lambda>_. NoFault)"
      and f = no_faults and whatsappClient = "Some ?cl"] ok
  show ?thesis by (auto split: prod.splits)
qed

subsection \<open>Matching by phone number\<close>

lemma js_replace_no_infix:
  "\<not> has_infix pat s \<Longrightarrow> js_replace pat rep s = s"
  by (induction s) auto

lemma js_replace_suffix:
  "\<not> has_infix ''@c.us'' p \<Longrightarrow> js_replace ''@c.us'' '''' (p @ ''@c.us'') = p"
proof (induction p)
  case Nil
  then show ?case by simp
next
  case (Cons c cs)
  have ne: "take 5 (c # cs @ ''@c.us'') \<noteq> ''@c.us''"
  proof
    assume eq: "take 5 (c # cs @ ''@c.us'') = ''@c.us''"
    show False
    proof (cases "4 \<le> length cs")
      case True
      then have "take 5 (c # cs) = take 5 (c # cs @ ''@c.us'')" by simp
      with eq have t5: "take 5 (c # cs) = ''@c.us''" by simp
      have len: "length ''@c.us'' = 5" by simp
      have "has_infix ''@c.us'' (c # cs)"
        unfolding has_infix.simps len using t5 by blast
      with Cons.prems show False by blast
    next
      case False
      then consider "cs = []" | a where "cs = [a]" | a b where "cs = [a, b]"
        | a b d where "cs = [a, b, d]"
        by (cases cs rule: list.exhaust; simp)
           (metis (no_types, opaque_lifting) Suc_le_mono le0 length_0_conv length_Suc_conv list.exhaust list.size(4) not_less_eq_eq numeral_2_eq_2 numeral_3_eq_3 )
      then show False using eq by cases simp_all
    qed
  qed
  have len: "length ''@c.us'' = 5" by simp
  have "js_replace ''@c.us'' '''' ((c # cs) @ ''@c.us'')
          = c # js_replace ''@c.us'' '''' (cs @ ''@c.us'')"
    unfolding append_Cons js_replace.simps len by (simp only: ne if_False)
  moreover have "\<not> has_infix ''@c.us'' cs"
    using Cons.prems unfolding has_infix.simps by blast
  ultimately show ?case using Cons.IH by simp
qed

lemma js_replace_strip:
  assumes "regular_number s"
  shows "js_replace ''@c.us'' '''' s = strip_session_suffix s"
proof (cases "5 \<le> length s \<and> drop (length s - 5) s = ''@c.us''")
  case True
  then have s: "s = take (length s - 5) s @ ''@c.us''"
    by (metis append_take_drop_id)
  have "\<not> has_infix ''@c.us'' (take (length s - 5) s)"
    using assms True by (simp add: regular_number_def strip_session_suffix_def)
  from js_replace_suffix [OF this] s True show ?thesis
    by (simp add: strip_session_suffix_def)
next
  case False
  then have same: "strip_session_suffix s = s"
    by (auto simp: strip_session_suffix_def)
  with assms have "\<not> has_infix ''@c.us'' s"
    by (simp add: regular_number_def)
  from js_replace_no_infix [OF this] same show ?thesis by simp
qed

lemma chat_matches_strip:
  assumes "regular_number (phone_number conversation)" and "regular_number (chat_id chat)"
  shows "chat_matches conversation chat
     \<longleftrightarrow> strip_session_suffix (chat_id chat) = strip_session_suffix (phone_number conversation)"
  using assms by (simp add: chat_matches_def js_replace_strip)

lemma find_target_chat_strip:
  assumes "regular_number (phone_number conversation)"
    and "\<forall>chat\<in>set chats. regular_number (chat_id chat)"
  shows "find_target_chat chats conversation =
     find (\<lambda>chat. strip_session_suffix (chat_id chat)
                     = strip_session_suffix (phone_number conversation)) chats"
  unfolding find_target_chat_def
  using assms chat_matches_strip by (intro find_cong) auto

text \<open>
  C9. With a connected client, the conversation row loaded and the chat list obtained,
  single-conversation sync looks for the first chat whose identifier, with the session
  suffix stripped, equals the conversation's phone number with the suffix stripped (both
  regular: the suffix text occurs nowhere else). When there is none, the response is the
  404 for a chat that is not found, the store is unchanged and only the conversation row
  and the chat list were read; when there is one, its messages are the ones fetched, with
  the limit 999999.
\<close>

theorem sync_selects_matching_chat:
  assumes "whatsappClient = Some cl" and "info cl"
    and "select_conversation f st conversationId = Returns \<lparr>data = Some conversation, error = False\<rparr>"
    and "getChats cl = Returns chats"
    and "regular_number (phone_number conversation)"
    and "\<forall>chat\<in>set chats. regular_number (chat_id chat)"
  shows "case syncConversationHistory saveMessage f whatsappClient st conversationId of
           (resp, st', tr) \<Rightarrow>
             (case find (\<lambda>chat. strip_session_suffix (chat_id chat)
                              = strip_session_suffix (phone_number conversation)) chats of
                None \<Rightarrow>
                  resp = ChatNotFound \<and> st' = st
                  \<and> tr = [SelectConversation conversationId, GetChats]
              | Some targetChat \<Rightarrow>
                  resp \<noteq> ChatNotFound
                  \<and> filter session_read tr
                      = [GetChats, FetchMessages (chat_id targetChat) 999999])"
proof (cases "find_target_chat chats conversation")
  case None
  then have "fetch_for_conversation f whatsappClient st conversationId
      = Inl (ChatNotFound, [SelectConversation conversationId, GetChats])"
    using assms(1-4) by (simp add: fetch_for_conversation_def)
  then show ?thesis
    using None find_target_chat_strip [OF assms(5,6)]
    by (simp add: syncConversationHistory_def)
next
  case (Some targetChat)
  note strip = find_target_chat_strip [OF assms(5,6)]
  show ?thesis
  proof (cases "fetchMessages targetChat 999999")
    case Throws
    then have "fetch_for_conversation f whatsappClient st conversationId
        = Inl (ServerError, [SelectConversation conversationId, GetChats,
                             FetchMessages (chat_id targetChat) 999999])"
      using assms(1-4) Some by (simp add: fetch_for_conversation_def)
    then show ?thesis
      using Some strip by (simp add: syncConversationHistory_def)
  next
    case (Returns msgs)
    then have fetch: "fetch_for_conversation f whatsappClient st conversationId
        = Inr (conversation, msgs, [SelectConversation conversationId, GetChats,
                             FetchMessages (chat_id targetChat) 999999])"
      using assms(1-4) Some by (simp add: fetch_for_conversation_def)
    obtain resp st' tr where p:
      "persist_fetched saveMessage f st conversationId conversation msgs = (resp, st', tr)"
      by (metis prod_cases3)
    have "resp \<noteq> ChatNotFound"
      using p by (auto simp: persist_fetched_def Let_def split: outcome.splits prod.splits list.splits)
    then show ?thesis
      using Some strip fetch p persist_fetched_no_session_read [OF p]
      by (simp add: syncConversationHistory_def)
  qed
qed

theorem sync_selects_matching_chat_witness:
  "filter session_read
     (snd (snd (syncConversationHistory (store_saveMessage (\<lambda>_. NoFault)) no_faults
                  (Some example_client) example_store ''c1'')))
     = [GetChats, FetchMessages ''32470@c.us'' 999999]
   \<and> fst (syncConversationHistory (store_saveMessage (\<lambda>_. NoFault)) no_faults
            (Some example_client) example_store ''c3'') = ChatNotFound"
proof -
  let ?chats = "[a_chat ''32999@c.us'' [],
               a_chat ''32470@c.us'' [a_message ''a'' 100, a_message ''b'' 200, a_message ''c'' 150]]"
  have cl: "Some example_client = Some example_client" "info example_client"
    "getChats example_client = Returns ?chats"
    by (simp_all add: example_client_def example_chats_def a_client_def)
  have reg: "\<forall>chat\<in>set ?chats. regular_number (chat_id chat)"
    by (simp add: a_chat_def regular_number_def strip_session_suffix_def)
  have c1: "select_conversation no_faults example_store ''c1''
      = Returns \<lparr>data = Some (a_conversation ''c1'' ''32470''), error = False\<rparr>"
    by (simp add: select_conversation_def no_faults_def example_store_def a_conversation_def)
  have c3: "select_conversation no_faults example_store ''c3''
      = Returns \<lparr>data = Some (a_conversation ''c3'' ''32111''), error = False\<rparr>"
    by (simp add: select_conversation_def no_faults_def example_store_def a_conversation_def)
  have r1: "regular_number (phone_number (a_conversation ''c1'' ''32470''))"
    by (simp add: a_conversation_def regular_number_def strip_session_suffix_def)
  have r3: "regular_number (phone_number (a_conversation ''c3'' ''32111''))"
    by (simp add: a_conversation_def regular_number_def strip_session_suffix_def)
  have f1: "find (\<lambda>chat. strip_session_suffix (chat_id chat)
                  = strip_session_suffix (phone_number (a_conversation ''c1'' ''32470''))) ?chats
      = Some (a_chat ''32470@c.us'' [a_message ''a'' 100, a_message ''b'' 200, a_message ''c'' 150])"
    by (simp add: a_chat_def a_conversation_def strip_session_suffix_def)
  have f3: "find (\<lambda>chat. strip_session_suffix (chat_id chat)
                  = strip_session_suffix (phone_number (a_conversation ''c3'' ''32111''))) ?chats
      = None"
    by (simp add: a_chat_def a_conversation_def strip_session_suffix_def)
  from sync_selects_matching_chat [OF cl(1,2) c1 cl(3) r1 reg,
      where saveMessage = "store_saveMessage (\<lambda>_. NoFault)"]
    sync_selects_matching_chat [OF cl(1,2) c3 cl(3) r3 reg,
      where saveMessage = "store_saveMessage (\<lambda>_. NoFault)"]
  show ?thesis
    unfolding f1 f3 by (auto simp: a_chat_def split: prod.splits)
qed

subsection \<open>The example store and session\<close>

lemma example_fetch_c1:
  "fetch_for_conversation no_faults (Some example_client) example_store ''c1''
     = Inr (a_conversation ''c1'' ''32470'',
            [a_message ''a'' 100, a_message ''b'' 200, a_message ''c'' 150],
            [SelectConversation ''c1'', GetChats, FetchMessages ''32470@c.us'' 999999])"
  by (simp add: fetch_for_conversation_def example_client_def example_chats_def a_client_def example_store_def
        select_conversation_def no_faults_def a_conversation_def find_target_chat_def
        chat_matches_def a_chat_def)

lemma example_ids_c1:
  "select_message_ids no_faults example_store ''c1'' = Returns \<lparr>data = Some [''a''], error = False\<rparr>"
  by (simp add: select_message_ids_def no_faults_def example_store_def stored_message_ids_def
        a_row_def row_of_def a_message_def)

lemma example_chat_c2:
  "find_target_chat example_chats (a_conversation ''c2'' ''32999'') = Some (a_chat ''32999@c.us'' [])"
  by (simp add: example_chats_def find_target_chat_def chat_matches_def a_chat_def
        a_conversation_def)

subsection \<open>Order of the writes\<close>



subsection \<open>The loops of the bulk handler\<close>

text \<open>
  The inner loop of the bulk handler does what the loop of the single-conversation
  handler does; \<^verbatim>\<open>totalNewMessages\<close> grows by the number of messages saved.
\<close>

lemma save_new_messages_bulk_skip:
  "id_serialized msg \<in> ex \<Longrightarrow>
   save_new_messages_bulk sv cid uid ex (msg # msgs) st n t
     = save_new_messages_bulk sv cid uid ex msgs st n t"
  by simp

lemma save_new_messages_bulk_invalid:
  "id_serialized msg \<notin> ex \<Longrightarrow> \<not> valid_date msg \<Longrightarrow>
   save_new_messages_bulk sv cid uid ex (msg # msgs) st n t
     = save_new_messages_bulk sv cid uid ex msgs st n t"
  by (simp add: save_args_invalid)

lemma save_new_messages_bulk_saved:
  assumes "id_serialized msg \<notin> ex" and "valid_date msg"
    and "sv st (row_of cid uid msg) = (Returns (Some saved), st1)"
    and "save_new_messages_bulk sv cid uid ex msgs st1 (n + 1) (t + 1) = (st', tr, n', t')"
  shows "save_new_messages_bulk sv cid uid ex (msg # msgs) st n t
     = (st', SaveMessage (row_of cid uid msg) # tr, n', t')"
  using assms by (simp add: save_args_valid)

lemma save_new_messages_bulk_not_saved:
  assumes "id_serialized msg \<notin> ex" and "valid_date msg"
    and "sv st (row_of cid uid msg) = (res, st1)"
    and "\<forall>saved. res \<noteq> Returns (Some saved)"
    and "save_new_messages_bulk sv cid uid ex msgs st1 n t = (st', tr, n', t')"
  shows "save_new_messages_bulk sv cid uid ex (msg # msgs) st n t
     = (st', SaveMessage (row_of cid uid msg) # tr, n', t')"
proof (cases res)
  case Throws
  with assms show ?thesis by (simp add: save_args_valid)
next
  case (Returns r)
  with assms(4) have "r = None" by (cases r) auto
  with Returns assms show ?thesis by (simp add: save_args_valid)
qed

lemma save_new_messages_bulk_eq:
  "save_new_messages_bulk sv cid uid ex msgs st n t =
     (case save_new_messages sv cid uid ex msgs st n s of
        (st', tr, n', s') \<Rightarrow> (st', tr, n', t + (n' - n)))"
proof (induction msgs arbitrary: st n t s)
  case Nil
  show ?case by simp
next
  case (Cons msg msgs)
  show ?case
  proof (cases "id_serialized msg \<in> ex")
    case True
    show ?thesis
      unfolding save_new_messages_skip [OF True] save_new_messages_bulk_skip [OF True]
      by (rule Cons.IH)
  next
    case False
    show ?thesis
    proof (cases "valid_date msg")
      case inv: False
      show ?thesis
        unfolding save_new_messages_invalid [OF False inv]
          save_new_messages_bulk_invalid [OF False inv]
        by (rule Cons.IH)
    next
      case v: True
      obtain res st1 where sv: "sv st (row_of cid uid msg) = (res, st1)"
        by (cases "sv st (row_of cid uid msg)")
      show ?thesis
      proof (cases "\<exists>saved. res = Returns (Some saved)")
        case True
        then obtain saved where res: "res = Returns (Some saved)" by blast
        obtain st' tr n' s' where rec:
          "save_new_messages sv cid uid ex msgs st1 (n + 1) s = (st', tr, n', s')"
          by (metis prod_cases4)
        have le: "n + 1 \<le> n'"
          using save_new_messages_new_bounds [of "n + 1" sv cid uid ex msgs st1 s]
          by (simp only: rec fst_conv snd_conv)
        have rec': "save_new_messages sv cid uid ex msgs st1
             (case res of Returns (Some _) \<Rightarrow> n + 1 | _ \<Rightarrow> n) s = (st', tr, n', s')"
          using rec by (simp only: res outcome.case option.case)
        have "save_new_messages_bulk sv cid uid ex msgs st1 (n + 1) (t + 1)
            = (st', tr, n', t + 1 + (n' - (n + 1)))"
          using Cons.IH [of st1 "n + 1" "t + 1" s] by (simp only: rec prod.case)
        then have "save_new_messages_bulk sv cid uid ex msgs st1 (n + 1) (t + 1)
            = (st', tr, n', t + (n' - n))"
          using le by simp
        from save_new_messages_bulk_saved [OF False v sv [unfolded res] this]
          save_new_messages_save [OF False v sv rec']
        show ?thesis by (simp only: prod.case)
      next
        case no: False
        obtain st' tr n' s' where rec:
          "save_new_messages sv cid uid ex msgs st1 n s = (st', tr, n', s')"
          by (metis prod_cases4)
        have res: "(case res of Returns (Some _) \<Rightarrow> n + 1 | _ \<Rightarrow> n) = n"
          using no by (auto split: outcome.splits option.splits)
        have rec': "save_new_messages sv cid uid ex msgs st1
             (case res of Returns (Some _) \<Rightarrow> n + 1 | _ \<Rightarrow> n) s = (st', tr, n', s')"
          using rec by (simp only: res)
        have "save_new_messages_bulk sv cid uid ex msgs st1 n t = (st', tr, n', t + (n' - n))"
          using Cons.IH [of st1 n t s] by (simp only: rec prod.case)
        from save_new_messages_bulk_not_saved [OF False v sv _ this]
          save_new_messages_save [OF False v sv rec'] no
        show ?thesis by (simp only: prod.case) auto
      qed
    qed
  qed
qed

text \<open>One iteration of the outer loop, case by case.\<close>

lemma sync_one_of_page_no_chat:
  assumes "find_target_chat chats conversation = None"
  shows "sync_one_of_page sv f chats conversation st totalNew
     = (Continued, st, [LogChatNotFound (conv_id conversation)], totalNew)"
  using assms by (simp add: sync_one_of_page_def)

lemma sync_one_of_page_fetch_throws:
  assumes "find_target_chat chats conversation = Some targetChat"
    and "fetchMessages targetChat 100 = Throws"
  shows "sync_one_of_page sv f chats conversation st totalNew
     = (Caught, st,
        [FetchMessages (chat_id targetChat) 100, LogSyncError (conv_id conversation)], totalNew)"
  using assms by (simp add: sync_one_of_page_def)

lemma sync_one_of_page_lookup_throws:
  assumes "find_target_chat chats conversation = Some targetChat"
    and "fetchMessages targetChat 100 = Returns msgs"
    and "select_message_ids f st (conv_id conversation) = Throws"
  shows "sync_one_of_page sv f chats conversation st totalNew
     = (Caught, st,
        [FetchMessages (chat_id targetChat) 100, SelectMessageIds (conv_id conversation),
         LogSyncError (conv_id conversation)], totalNew)"
  using assms by (simp add: sync_one_of_page_def)

lemma sync_one_of_page_found:
  assumes "find_target_chat chats conversation = Some targetChat"
    and "fetchMessages targetChat 100 = Returns msgs"
    and "select_message_ids f st (conv_id conversation) = Returns q"
    and "save_new_messages sv (conv_id conversation) (user_id conversation)
           (existing_message_ids q) msgs st 0 0 = (st1, tr1, new, skipped)"
  shows "sync_one_of_page sv f chats conversation st totalNew =
     (case msgs of
        [] \<Rightarrow>
          (Completed new, st1,
           FetchMessages (chat_id targetChat) 100 # SelectMessageIds (conv_id conversation)
             # tr1 @ [LogSynced (conv_id conversation) new],
           totalNew + new)
      | first # rest \<Rightarrow>
          if valid_time_value (timestamp (latest_message first rest) * 1000)
          then
            (case update_last_message_at f st1 (conv_id conversation)
                    (ISO (timestamp (latest_message first rest) * 1000)) of
               (Throws, st2) \<Rightarrow>
                 (Caught, st2,
                  FetchMessages (chat_id targetChat) 100 # SelectMessageIds (conv_id conversation)
                    # tr1 @ [UpdateLastMessageAt (conv_id conversation)
                               (ISO (timestamp (latest_message first rest) * 1000)),
                            LogSyncError (conv_id conversation)],
                  totalNew + new)
             | (Returns _, st2) \<Rightarrow>
                 (Completed new, st2,
                  FetchMessages (chat_id targetChat) 100 # SelectMessageIds (conv_id conversation)
                    # tr1 @ [UpdateLastMessageAt (conv_id conversation)
                               (ISO (timestamp (latest_message first rest) * 1000)),
                            LogSynced (conv_id conversation) new],
                  totalNew + new))
          else
            (Caught, st1,
             FetchMessages (chat_id targetChat) 100 # SelectMessageIds (conv_id conversation)
               # tr1 @ [LogSyncError (conv_id conversation)],
             totalNew + new))"
proof -
  have bulk: "save_new_messages_bulk sv (conv_id conversation) (user_id conversation)
           (existing_message_ids q) msgs st 0 totalNew = (st1, tr1, new, totalNew + new)"
    using save_new_messages_bulk_eq [of sv "conv_id conversation" "user_id conversation"
        "existing_message_ids q" msgs st 0 totalNew 0]
    by (simp only: assms(4) prod.case) simp
  show ?thesis
    unfolding sync_one_of_page_def
    by (simp only: assms(1,2,3) bulk option.case outcome.case prod.case Let_def)
       (simp add: toISOString_def split: list.splits prod.splits outcome.splits)
qed

text \<open>The outer loop, one conversation at a time, and over a concatenation.\<close>

lemma sync_page_Cons:
  assumes "sync_one_of_page sv f chats c st t = (it, st1, tr1, t1)"
  shows "sync_page sv f chats (c # rest) st t sy rs =
     (case sync_page sv f chats rest st1 t1
             (case it of Completed n \<Rightarrow> if n > 0 then sy + 1 else sy | _ \<Rightarrow> sy)
             (case it of
                Completed n \<Rightarrow>
                  if n > 0
                  then rs @ [\<lparr>entry_conversationId = conv_id c, phoneNumber = phone_number c,
                              newMessages = n\<rparr>]
                  else rs
              | _ \<Rightarrow> rs) of
        (st2, tr2, t2, sy2, rs2) \<Rightarrow> (st2, tr1 @ tr2, t2, sy2, rs2))"
  using assms by (cases it) (simp_all split: prod.splits)

lemma sync_page_append:
  "sync_page sv f chats (xs @ ys) st t sy rs =
     (case sync_page sv f chats xs st t sy rs of
        (st1, tr1, t1, sy1, rs1) \<Rightarrow>
          (case sync_page sv f chats ys st1 t1 sy1 rs1 of
             (st2, tr2, t2, sy2, rs2) \<Rightarrow> (st2, tr1 @ tr2, t2, sy2, rs2)))"
proof (induction xs arbitrary: st t sy rs)
  case Nil
  show ?case by (simp split: prod.splits)
next
  case (Cons c xs)
  obtain it st1 tr1 t1 where body: "sync_one_of_page sv f chats c st t = (it, st1, tr1, t1)"
    by (metis prod_cases4)
  show ?case
    unfolding append_Cons sync_page_Cons [OF body] Cons.IH
    by (simp split: prod.splits)
qed

subsection \<open>The timestamp of the conversation\<close>





text \<open>
  A pass ended by the conversion of the largest timestamp: the chat of conversation
  \<^verbatim>\<open>c1\<close> holds a message whose timestamp is past the range of a date. Message \<^verbatim>\<open>b\<close> is
  saved, the conversion throws, and single-conversation sync answers with the server
  error (in bulk sync the iteration ends in the \<^verbatim>\<open>catch\<close>) before any update of
  \<^verbatim>\<open>last_message_at\<close>.
\<close>

lemma late_timestamp_ends_pass:
  "syncConversationHistory example_saveMessage no_faults (Some late_client) example_store ''c1''
   = (ServerError,
      example_store\<lparr>messages := [a_row ''c1'' ''a'' 100, a_row ''c1'' ''b'' 200]\<rparr>,
      [SelectConversation ''c1'', GetChats, FetchMessages ''32470@c.us'' 999999,
       SelectMessageIds ''c1'', SaveMessage (a_row ''c1'' ''b'' 200)])
   \<and> timestamp_updates (snd (snd (syncAllConversationsHistory example_saveMessage no_faults
                                      (Some late_client) example_store))) = []
   \<and> failed_log (snd (snd (syncAllConversationsHistory example_saveMessage no_faults
                               (Some late_client) example_store))) = [''c1'']"
  by (simp add: syncConversationHistory_def fetch_for_conversation_def persist_fetched_def
        select_conversation_def late_client_def late_chats_def example_store_def no_faults_def
        a_client_def a_chat_def a_conversation_def a_message_def a_row_def row_of_def
        save_args_def toISOString_def valid_time_value_def example_saveMessage_def
        store_saveMessage_def upsert_message_def row_key_def select_message_ids_def
        stored_message_ids_def existing_message_ids_def find_target_chat_def chat_matches_def
        latest_message_def syncAllConversationsHistory_def select_conversations_page_def
        recency_key_def sync_one_of_page_def Let_def)

subsection \<open>Rows of the message table after a pass\<close>

lemma count_list_le_1_distinct: "(\<forall>k. count_list xs k \<le> 1) \<Longrightarrow> distinct xs"
proof (induction xs)
  case Nil
  show ?case by simp
next
  case (Cons x xs)
  have "count_list (x # xs) x \<le> 1" using Cons.prems by blast
  then have "count_list xs x = 0" by simp
  then have notin: "x \<notin> set xs" by (simp add: count_list_0_iff)
  have "\<forall>k. count_list xs k \<le> 1"
  proof
    fix k
    have "count_list xs k \<le> count_list (x # xs) k" by simp
    also have "\<dots> \<le> 1" using Cons.prems by blast
    finally show "count_list xs k \<le> 1" .
  qed
  with Cons.IH notin show ?case by simp
qed

lemma distinct_count_list_le_1: "distinct xs \<Longrightarrow> count_list xs k \<le> 1"
  by (induction xs) (auto simp: count_list_0_iff)

lemma row_key_row_of: "row_key (row_of cid uid m) = (cid, id_serialized m)"
  by (simp add: row_key_def row_of_def)

lemma save_new_messages_counts:
  assumes "adds_at_most_one sv"
  shows "count_list (map row_key (messages (fst (save_new_messages sv cid uid ex msgs st n s)))) k
     \<le> count_list (map row_key (messages st)) k
       + count_list (map (\<lambda>m. (cid, id_serialized m))
                      (filter (\<lambda>m. id_serialized m \<notin> ex) msgs)) k"
proof (induction msgs arbitrary: st n s)
  case Nil
  show ?case by simp
next
  case (Cons msg msgs)
  show ?case
  proof (cases "id_serialized msg \<in> ex")
    case True
    show ?thesis
      unfolding save_new_messages_skip [OF True] using Cons.IH [of st n "s + 1"] True by simp
  next
    case False
    show ?thesis
    proof (cases "valid_date msg")
      case inv: False
      show ?thesis
        unfolding save_new_messages_invalid [OF False inv] using Cons.IH [of st n s] False
        by simp
    next
      case v: True
      obtain res st1 where sv: "sv st (row_of cid uid msg) = (res, st1)"
        by (cases "sv st (row_of cid uid msg)")
      obtain st' tr n' s' where rec:
        "save_new_messages sv cid uid ex msgs st1
           (case res of Returns (Some _) \<Rightarrow> n + 1 | _ \<Rightarrow> n) s = (st', tr, n', s')"
        by (metis prod_cases4)
      have "count_list (map row_key (messages (snd (sv st (row_of cid uid msg))))) k
          \<le> count_list (map row_key (messages st)) k
            + (if k = row_key (row_of cid uid msg) then 1 else 0)"
        using assms unfolding adds_at_most_one_def by blast
      then have step: "count_list (map row_key (messages st1)) k
          \<le> count_list (map row_key (messages st)) k
            + (if k = (cid, id_serialized msg) then 1 else 0)"
        by (simp only: sv snd_conv row_key_row_of)
      have ih: "count_list (map row_key (messages st')) k
         \<le> count_list (map row_key (messages st1)) k
           + count_list (map (\<lambda>m. (cid, id_serialized m))
                          (filter (\<lambda>m. id_serialized m \<notin> ex) msgs)) k"
        using Cons.IH [of st1 "case res of Returns (Some _) \<Rightarrow> n + 1 | _ \<Rightarrow> n" s]
        by (simp only: rec fst_conv)
      show ?thesis
        unfolding save_new_messages_save [OF False v sv rec] fst_conv
        using ih step False by (simp split: if_splits)
    qed
  qed
qed

lemma stored_key_iff:
  "(cid, i) \<in> set (map row_key (messages st)) \<longleftrightarrow> i \<in> set (stored_message_ids st cid)"
  by (auto simp: row_key_def stored_message_ids_def)

lemma save_new_messages_unique:
  assumes "adds_at_most_one sv" and "unique_rows st"
    and "set (stored_message_ids st cid) \<subseteq> ex"
    and "distinct (map id_serialized msgs)"
  shows "unique_rows (fst (save_new_messages sv cid uid ex msgs st n s))"
  unfolding unique_rows_def
proof (rule count_list_le_1_distinct, rule allI)
  fix k
  define new where
    "new = map (\<lambda>m. (cid, id_serialized m)) (filter (\<lambda>m. id_serialized m \<notin> ex) msgs)"
  have "distinct (map id_serialized (filter (\<lambda>m. id_serialized m \<notin> ex) msgs))"
    using assms(4) by (rule distinct_map_filter)
  then have "distinct (map (Pair cid) (map id_serialized (filter (\<lambda>m. id_serialized m \<notin> ex) msgs)))"
    by (simp add: distinct_map inj_on_def)
  then have d: "distinct new" by (simp add: new_def comp_def)
  have old: "count_list (map row_key (messages st)) k \<le> 1"
    using assms(2) unfolding unique_rows_def by (rule distinct_count_list_le_1)
  have le: "count_list (map row_key (messages (fst (save_new_messages sv cid uid ex msgs st n s)))) k
      \<le> count_list (map row_key (messages st)) k + count_list new k"
    unfolding new_def by (rule save_new_messages_counts [OF assms(1)])
  show "count_list (map row_key (messages (fst (save_new_messages sv cid uid ex msgs st n s)))) k \<le> 1"
  proof (cases "k \<in> set new")
    case True
    then obtain m :: wa_message where k: "k = (cid, id_serialized m)" and m: "id_serialized m \<notin> ex"
      by (auto simp: new_def)
    from m assms(3) have "id_serialized m \<notin> set (stored_message_ids st cid)" by blast
    then have "k \<notin> set (map row_key (messages st))"
      unfolding k by (simp only: stored_key_iff not_False_eq_True)
    then have "count_list (map row_key (messages st)) k = 0"
      by (simp only: count_list_0_iff not_False_eq_True)
    moreover have "count_list new k \<le> 1" using d by (rule distinct_count_list_le_1)
    ultimately show ?thesis using le by linarith
  next
    case False
    then have "count_list new k = 0" by (simp only: count_list_0_iff not_False_eq_True)
    with old le show ?thesis by linarith
  qed
qed

lemma update_last_message_at_messages:
  "messages (snd (update_last_message_at f st cid t)) = messages st"
  by (simp add: update_last_message_at_def split: fault.splits)

lemma select_message_ids_stored:
  assumes "select_message_ids f st cid = Returns q"
    and "select_message_ids_fault f cid \<noteq> ErrorResult"
  shows "existing_message_ids q = set (stored_message_ids st cid)"
  using assms
  by (cases "select_message_ids_fault f cid")
     (auto simp: select_message_ids_def existing_message_ids_def)

lemma persist_fetched_messages:
  "messages (fst (snd (persist_fetched sv f st cid conv msgs))) =
     (case select_message_ids f st cid of
        Throws \<Rightarrow> messages st
      | Returns q \<Rightarrow>
          messages (fst (save_new_messages sv cid (user_id conv) (existing_message_ids q)
                           msgs st 0 0)))"
proof (cases "select_message_ids f st cid")
  case Throws
  then show ?thesis by (simp add: persist_fetched_throws)
next
  case (Returns q)
  obtain st1 tr1 new skipped where loop:
    "save_new_messages sv cid (user_id conv) (existing_message_ids q) msgs st 0 0
       = (st1, tr1, new, skipped)"
    by (metis prod_cases4)
  show ?thesis
  proof (cases msgs)
    case Nil
    then show ?thesis using Returns by (simp add: persist_fetched_empty)
  next
    case (Cons first rest)
    show ?thesis
    proof (cases "valid_time_value (timestamp (latest_message first rest) * 1000)")
      case v: True
      obtain res st2 where upd: "update_last_message_at f st1 cid
          (ISO (timestamp (latest_message first rest) * 1000)) = (res, st2)"
        by (metis prod.exhaust)
      have "messages st2 = messages st1"
        using update_last_message_at_messages [of f st1 cid
            "ISO (timestamp (latest_message first rest) * 1000)"]
        by (simp only: upd snd_conv)
      moreover have "fst (snd (persist_fetched sv f st cid conv msgs)) = st2"
        unfolding Cons persist_fetched_nonempty [OF Returns loop [unfolded Cons] v] upd
        by (cases res) simp_all
      ultimately show ?thesis
        by (simp only: Returns outcome.case loop fst_conv)
    next
      case inv: False
      have "fst (snd (persist_fetched sv f st cid conv msgs)) = st1"
        unfolding Cons persist_fetched_invalid [OF Returns loop [unfolded Cons] inv] by simp
      then show ?thesis
        by (simp only: Returns outcome.case loop fst_conv)
    qed
  qed
qed

lemma unique_rows_messages: "messages a = messages b \<Longrightarrow> unique_rows a = unique_rows b"
  by (simp add: unique_rows_def)

lemma single_pass_unique:
  assumes "adds_at_most_one saveMessage" and "unique_rows st"
    and "select_message_ids_fault f conversationId \<noteq> ErrorResult"
    and "\<forall>conversation msgs tr0.
           fetch_for_conversation f whatsappClient st conversationId = Inr (conversation, msgs, tr0)
           \<longrightarrow> distinct (map id_serialized msgs)"
  shows "unique_rows (fst (snd (syncConversationHistory saveMessage f whatsappClient st conversationId)))"
proof (cases "fetch_for_conversation f whatsappClient st conversationId")
  case (Inl a)
  obtain resp tr where a: "a = (resp, tr)" by (cases a)
  have "syncConversationHistory saveMessage f whatsappClient st conversationId = (resp, st, tr)"
    using Inl a by (simp add: syncConversationHistory_def)
  with assms(2) show ?thesis by simp
next
  case (Inr b)
  obtain conversation msgs tr0 where b: "b = (conversation, msgs, tr0)" by (cases b)
  have d: "distinct (map id_serialized msgs)"
    using assms(4) Inr b by blast
  have st: "fst (snd (syncConversationHistory saveMessage f whatsappClient st conversationId))
      = fst (snd (persist_fetched saveMessage f st conversationId conversation msgs))"
    using Inr b by (simp add: syncConversationHistory_def split: prod.splits)
  show ?thesis
  proof (cases "select_message_ids f st conversationId")
    case Throws
    have "messages (fst (snd (persist_fetched saveMessage f st conversationId conversation msgs)))
        = messages st"
      unfolding persist_fetched_messages by (simp add: Throws)
    from unique_rows_messages [OF this] assms(2) show ?thesis
      unfolding st by simp
  next
    case (Returns q)
    have ex: "existing_message_ids q = set (stored_message_ids st conversationId)"
      using Returns assms(3) by (rule select_message_ids_stored)
    have "messages (fst (snd (persist_fetched saveMessage f st conversationId conversation msgs)))
        = messages (fst (save_new_messages saveMessage conversationId (user_id conversation)
                           (existing_message_ids q) msgs st 0 0))"
      unfolding persist_fetched_messages by (simp add: Returns)
    from unique_rows_messages [OF this]
      save_new_messages_unique [OF assms(1,2) _ d, of conversationId "existing_message_ids q"
        "user_id conversation" 0 0]
    show ?thesis
      unfolding st by (simp add: ex)
  qed
qed

lemma sync_one_of_page_messages:
  "messages (fst (snd (sync_one_of_page saveMessage f chats conversation st totalNew))) =
     (case find_target_chat chats conversation of
        None \<Rightarrow> messages st
      | Some targetChat \<Rightarrow>
          (case fetchMessages targetChat 100 of
             Throws \<Rightarrow> messages st
           | Returns msgs \<Rightarrow>
               (case select_message_ids f st (conv_id conversation) of
                  Throws \<Rightarrow> messages st
                | Returns q \<Rightarrow>
                    messages (fst (save_new_messages saveMessage (conv_id conversation)
                                     (user_id conversation) (existing_message_ids q)
                                     msgs st 0 0)))))"
proof (cases "find_target_chat chats conversation")
  case None
  then show ?thesis by (simp add: sync_one_of_page_no_chat)
next
  case (Some targetChat)
  show ?thesis
  proof (cases "fetchMessages targetChat 100")
    case Throws
    with Some show ?thesis by (simp add: sync_one_of_page_fetch_throws)
  next
    case (Returns msgs)
    show ?thesis
    proof (cases "select_message_ids f st (conv_id conversation)")
      case Throws
      with Some Returns show ?thesis by (simp add: sync_one_of_page_lookup_throws)
    next
      case q: (Returns q)
      obtain st1 tr1 new skipped where loop:
        "save_new_messages saveMessage (conv_id conversation) (user_id conversation)
           (existing_message_ids q) msgs st 0 0 = (st1, tr1, new, skipped)"
        by (metis prod_cases4)
      have "messages (fst (snd (sync_one_of_page saveMessage f chats conversation st totalNew)))
          = messages st1"
      proof (cases msgs)
        case Nil
        show ?thesis
          unfolding sync_one_of_page_found [OF Some Returns q loop] by (simp add: Nil)
      next
        case (Cons first rest)
        show ?thesis
        proof (cases "valid_time_value (timestamp (latest_message first rest) * 1000)")
          case v: True
          obtain res st2 where upd: "update_last_message_at f st1 (conv_id conversation)
              (ISO (timestamp (latest_message first rest) * 1000)) = (res, st2)"
            by (metis prod.exhaust)
          have "messages st2 = messages st1"
            using update_last_message_at_messages [of f st1 "conv_id conversation"
                "ISO (timestamp (latest_message first rest) * 1000)"]
            by (simp only: upd snd_conv)
          moreover have "fst (snd (sync_one_of_page saveMessage f chats conversation st totalNew)) = st2"
            unfolding sync_one_of_page_found [OF Some Returns q loop] Cons list.case
              if_P [OF v] upd
            by (cases res) simp_all
          ultimately show ?thesis by simp
        next
          case inv: False
          show ?thesis
            unfolding sync_one_of_page_found [OF Some Returns q loop] Cons list.case
              if_not_P [OF inv]
            by simp
        qed
      qed
      then show ?thesis
        by (simp only: Some Returns q option.case outcome.case loop fst_conv)
    qed
  qed
qed

lemma bulk_pass_unique:
  assumes "adds_at_most_one saveMessage" and "unique_rows st"
    and "select_message_ids_fault f (conv_id conversation) \<noteq> ErrorResult"
    and "\<forall>chat\<in>set chats. \<forall>msgs. fetchMessages chat 100 = Returns msgs
           \<longrightarrow> distinct (map id_serialized msgs)"
  shows "unique_rows (fst (snd (sync_one_of_page saveMessage f chats conversation st totalNew)))"
proof -
  let ?st' = "fst (snd (sync_one_of_page saveMessage f chats conversation st totalNew))"
  have same: "messages ?st' = messages st \<Longrightarrow> ?thesis"
    using unique_rows_messages [of ?st' st] assms(2) by simp
  show ?thesis
  proof (cases "find_target_chat chats conversation")
    case None
    show ?thesis
      by (rule same) (simp add: sync_one_of_page_messages None)
  next
    case (Some targetChat)
    have "targetChat \<in> set chats"
      using Some unfolding find_target_chat_def by (auto simp: find_Some_iff)
    show ?thesis
    proof (cases "fetchMessages targetChat 100")
      case Throws
      show ?thesis
        by (rule same) (simp add: sync_one_of_page_messages Some Throws)
    next
      case (Returns msgs)
      with assms(4) \<open>targetChat \<in> set chats\<close> have d: "distinct (map id_serialized msgs)"
        by blast
      show ?thesis
      proof (cases "select_message_ids f st (conv_id conversation)")
        case Throws
        show ?thesis
          by (rule same) (simp add: sync_one_of_page_messages Some Returns Throws)
      next
        case q: (Returns q)
        have ex: "existing_message_ids q = set (stored_message_ids st (conv_id conversation))"
          using q assms(3) by (rule select_message_ids_stored)
        have "messages ?st' = messages (fst (save_new_messages saveMessage (conv_id conversation)
                                     (user_id conversation) (existing_message_ids q) msgs st 0 0))"
          by (simp add: sync_one_of_page_messages Some Returns q)
        from unique_rows_messages [OF this]
          save_new_messages_unique [OF assms(1,2) _ d, of "conv_id conversation"
            "existing_message_ids q" "user_id conversation" 0 0]
        show ?thesis by (simp add: ex)
      qed
    qed
  qed
qed

lemma sync_page_unique:
  assumes "adds_at_most_one sv"
    and "\<forall>cid. select_message_ids_fault f cid \<noteq> ErrorResult"
    and "\<forall>chat\<in>set chats. \<forall>msgs. fetchMessages chat 100 = Returns msgs
           \<longrightarrow> distinct (map id_serialized msgs)"
    and "unique_rows st"
  shows "unique_rows (fst (sync_page sv f chats convs st t sy rs))"
  using assms(4)
proof (induction convs arbitrary: st t sy rs)
  case Nil
  then show ?case by simp
next
  case (Cons c convs)
  obtain it st1 tr1 t1 where body: "sync_one_of_page sv f chats c st t = (it, st1, tr1, t1)"
    by (metis prod_cases4)
  have "unique_rows (fst (snd (sync_one_of_page sv f chats c st t)))"
    using assms(1) Cons.prems assms(2) [rule_format, of "conv_id c"] assms(3)
    by (rule bulk_pass_unique)
  then have "unique_rows st1" by (simp add: body)
  define sy' where "sy' = (case it of Completed n \<Rightarrow> if n > 0 then sy + 1 else sy | _ \<Rightarrow> sy)"
  define rs' where "rs' = (case it of
                Completed n \<Rightarrow>
                  if n > 0
                  then rs @ [\<lparr>entry_conversationId = conv_id c, phoneNumber = phone_number c,
                              newMessages = n\<rparr>]
                  else rs
              | _ \<Rightarrow> rs)"
  obtain st2 tr2 t2 sy2 rs2 where rec:
    "sync_page sv f chats convs st1 t1 sy' rs' = (st2, tr2, t2, sy2, rs2)"
    by (metis prod_cases5)
  have "sync_page sv f chats (c # convs) st t sy rs = (st2, tr1 @ tr2, t2, sy2, rs2)"
    unfolding sync_page_Cons [OF body] sy'_def [symmetric] rs'_def [symmetric] rec by simp
  moreover have "unique_rows st2"
    using Cons.IH [OF \<open>unique_rows st1\<close>, of t1 sy' rs'] by (simp add: rec)
  ultimately show ?case by simp
qed

lemma bulk_sync_unique:
  assumes "adds_at_most_one sv"
    and "\<forall>cid. select_message_ids_fault f cid \<noteq> ErrorResult"
    and "\<forall>cl chats. whatsappClient = Some cl \<and> getChats cl = Returns chats \<longrightarrow>
           (\<forall>chat\<in>set chats. \<forall>msgs. fetchMessages chat 100 = Returns msgs
              \<longrightarrow> distinct (map id_serialized msgs))"
    and "unique_rows st"
  shows "unique_rows (fst (snd (syncAllConversationsHistory sv f whatsappClient st)))"
proof -
  let ?st' = "fst (snd (syncAllConversationsHistory sv f whatsappClient st))"
  have same: "?st' = st \<Longrightarrow> ?thesis" using assms(4) by simp
  show ?thesis
  proof (cases whatsappClient)
    case None
    show ?thesis by (rule same) (simp add: syncAllConversationsHistory_def None)
  next
    case (Some cl)
    show ?thesis
    proof (cases "getChats cl")
      case Throws
      show ?thesis
        by (rule same)
           (simp add: syncAllConversationsHistory_def Some Throws
              split: outcome.splits option.splits)
    next
      case (Returns chats)
      from assms(3) Some Returns
      have d: "\<forall>chat\<in>set chats. \<forall>msgs. fetchMessages chat 100 = Returns msgs
              \<longrightarrow> distinct (map id_serialized msgs)"
        by blast
      have "?st' = st \<or> (\<exists>convs. ?st' = fst (sync_page sv f chats convs st 0 0 []))"
        by (simp add: syncAllConversationsHistory_def Some Returns
              split: outcome.splits option.splits prod.splits)
           (metis fst_conv)
      then show ?thesis
      proof
        assume "?st' = st"
        then show ?thesis by (rule same)
      next
        assume "\<exists>convs. ?st' = fst (sync_page sv f chats convs st 0 0 [])"
        then obtain convs where st: "?st' = fst (sync_page sv f chats convs st 0 0 [])" ..
        from sync_page_unique [OF assms(1,2) d assms(4)] show ?thesis
          unfolding st .
      qed
    qed
  qed
qed

subsection \<open>Only unseen identifiers are saved\<close>

lemma fetch_for_conversation_Inl:
  assumes "fetch_for_conversation f whatsappClient st conversationId = Inl (resp, tr)"
  shows "save_calls tr = []" and "timestamp_updates tr = []"
proof -
  have "tr = [] \<or> tr = [SelectConversation conversationId]
      \<or> tr = [SelectConversation conversationId, GetChats]
      \<or> (\<exists>c. tr = [SelectConversation conversationId, GetChats, FetchMessages c 999999])"
    using assms [symmetric]
    by (simp add: fetch_for_conversation_def
          split: option.splits if_splits outcome.splits)
  then show "save_calls tr = []" and "timestamp_updates tr = []" by auto
qed

lemma single_pass_save_calls:
  assumes "fetch_for_conversation f whatsappClient st conversationId = Inr (conversation, msgs, tr0)"
    and "select_message_ids f st conversationId = Returns q"
  shows "save_calls (snd (snd (syncConversationHistory saveMessage f whatsappClient st conversationId)))
     = map (row_of conversationId (user_id conversation))
         (filter (\<lambda>m. id_serialized m \<notin> existing_message_ids q \<and> valid_date m) msgs)"
proof -
  obtain resp st' tr' where p:
    "persist_fetched saveMessage f st conversationId conversation msgs = (resp, st', tr')"
    by (metis prod_cases3)
  from assms(1) obtain cl chats targetChat where
    "whatsappClient = Some cl" and "info cl"
    and "select_conversation f st conversationId
           = Returns \<lparr>data = Some conversation, error = False\<rparr>"
    and "getChats cl = Returns chats"
    and "find_target_chat chats conversation = Some targetChat"
    and "fetchMessages targetChat 999999 = Returns msgs"
    and tr0: "tr0 = [SelectConversation conversationId, GetChats,
                FetchMessages (chat_id targetChat) 999999]"
    by (rule fetch_for_conversation_Inr)
  have sync: "syncConversationHistory saveMessage f whatsappClient st conversationId
      = (resp, st', tr0 @ tr')"
    using assms(1) p by (simp add: syncConversationHistory_def)
  have "save_calls tr' = map (row_of conversationId (user_id conversation))
         (filter (\<lambda>m. id_serialized m \<notin> existing_message_ids q \<and> valid_date m) msgs)"
    unfolding persist_fetched_events [OF assms(2) p]
    by (simp add: save_calls_append save_calls_map split: list.splits)
  then show ?thesis
    unfolding sync by (simp add: tr0)
qed

lemma single_pass_saves_unseen:
  assumes "select_message_ids f st conversationId = Returns q"
    and "r \<in> set (save_calls (snd (snd
           (syncConversationHistory saveMessage f whatsappClient st conversationId))))"
  shows "message_id r \<notin> existing_message_ids q \<and> conversation_id r = conversationId"
proof (cases "fetch_for_conversation f whatsappClient st conversationId")
  case (Inl a)
  obtain resp tr where a: "a = (resp, tr)" by (cases a)
  have "syncConversationHistory saveMessage f whatsappClient st conversationId = (resp, st, tr)"
    using Inl a by (simp add: syncConversationHistory_def)
  with assms(2) fetch_for_conversation_Inl(1) [OF Inl [unfolded a]] show ?thesis by simp
next
  case (Inr b)
  obtain conversation msgs tr0 where b: "b = (conversation, msgs, tr0)" by (cases b)
  from assms(2) show ?thesis
    unfolding single_pass_save_calls [OF Inr [unfolded b] assms(1)]
    by (auto simp: row_of_def)
qed

lemma bulk_pass_saves_unseen:
  assumes "select_message_ids f st (conv_id conversation) = Returns q"
    and "r \<in> set (save_calls (fst (snd (snd
           (sync_one_of_page saveMessage f chats conversation st totalNew)))))"
  shows "message_id r \<notin> existing_message_ids q \<and> conversation_id r = conv_id conversation"
proof (cases "find_target_chat chats conversation")
  case None
  with assms(2) show ?thesis by (simp add: sync_one_of_page_no_chat)
next
  case (Some targetChat)
  show ?thesis
  proof (cases "fetchMessages targetChat 100")
    case Throws
    with assms(2) Some show ?thesis by (simp add: sync_one_of_page_fetch_throws)
  next
    case (Returns msgs)
    obtain st1 tr1 new skipped where loop:
      "save_new_messages saveMessage (conv_id conversation) (user_id conversation)
         (existing_message_ids q) msgs st 0 0 = (st1, tr1, new, skipped)"
      by (metis prod_cases4)
    have tr1: "tr1 = map (\<lambda>m. SaveMessage (row_of (conv_id conversation) (user_id conversation) m))
          (filter (\<lambda>m. id_serialized m \<notin> existing_message_ids q \<and> valid_date m) msgs)"
      using save_new_messages_trace [of saveMessage "conv_id conversation" "user_id conversation"
          "existing_message_ids q" msgs st 0 0]
      by (simp add: loop)
    have calls: "save_calls tr1 = map (row_of (conv_id conversation) (user_id conversation))
          (filter (\<lambda>m. id_serialized m \<notin> existing_message_ids q \<and> valid_date m) msgs)"
      unfolding tr1 by (rule save_calls_map)
    have "save_calls (fst (snd (snd
           (sync_one_of_page saveMessage f chats conversation st totalNew)))) = save_calls tr1"
      unfolding sync_one_of_page_found [OF Some Returns assms(1) loop]
      by (simp add: save_calls_append split: list.splits prod.splits outcome.splits)
    with assms(2) show ?thesis
      unfolding calls by (auto simp: row_of_def)
  qed
qed

lemma bulk_pass_save_calls:
  assumes "find_target_chat chats conversation = Some targetChat"
    and "fetchMessages targetChat 100 = Returns msgs"
    and "select_message_ids f st (conv_id conversation) = Returns q"
  shows "save_calls (fst (snd (snd (sync_one_of_page saveMessage f chats conversation st totalNew))))
     = map (row_of (conv_id conversation) (user_id conversation))
         (filter (\<lambda>m. id_serialized m \<notin> existing_message_ids q \<and> valid_date m) msgs)"
proof -
  obtain st1 tr1 new skipped where loop:
    "save_new_messages saveMessage (conv_id conversation) (user_id conversation)
       (existing_message_ids q) msgs st 0 0 = (st1, tr1, new, skipped)"
    by (metis prod_cases4)
  have tr1: "tr1 = map (\<lambda>m. SaveMessage (row_of (conv_id conversation) (user_id conversation) m))
        (filter (\<lambda>m. id_serialized m \<notin> existing_message_ids q \<and> valid_date m) msgs)"
    using save_new_messages_trace [of saveMessage "conv_id conversation" "user_id conversation"
        "existing_message_ids q" msgs st 0 0]
    by (simp add: loop)
  have calls: "save_calls tr1 = map (row_of (conv_id conversation) (user_id conversation))
        (filter (\<lambda>m. id_serialized m \<notin> existing_message_ids q \<and> valid_date m) msgs)"
    unfolding tr1 by (rule save_calls_map)
  have "save_calls (fst (snd (snd
         (sync_one_of_page saveMessage f chats conversation st totalNew)))) = save_calls tr1"
    unfolding sync_one_of_page_found [OF assms loop]
    by (simp add: save_calls_append split: list.splits prod.splits outcome.splits)
  then show ?thesis by (simp only: calls)
qed

lemma single_pass_lookup_throws:
  assumes "select_message_ids f st conversationId = Throws"
  shows "save_calls (snd (snd
           (syncConversationHistory saveMessage f whatsappClient st conversationId))) = []"
proof (cases "fetch_for_conversation f whatsappClient st conversationId")
  case (Inl a)
  obtain resp tr where a: "a = (resp, tr)" by (cases a)
  have "syncConversationHistory saveMessage f whatsappClient st conversationId = (resp, st, tr)"
    using Inl a by (simp add: syncConversationHistory_def)
  with fetch_for_conversation_Inl(1) [OF Inl [unfolded a]] show ?thesis by simp
next
  case (Inr b)
  obtain conversation msgs tr0 where b: "b = (conversation, msgs, tr0)" by (cases b)
  from Inr [unfolded b] obtain cl chats targetChat where
    "whatsappClient = Some cl" and "info cl"
    and "select_conversation f st conversationId
           = Returns \<lparr>data = Some conversation, error = False\<rparr>"
    and "getChats cl = Returns chats"
    and "find_target_chat chats conversation = Some targetChat"
    and "fetchMessages targetChat 999999 = Returns msgs"
    and tr0: "tr0 = [SelectConversation conversationId, GetChats,
                FetchMessages (chat_id targetChat) 999999]"
    by (rule fetch_for_conversation_Inr)
  have "syncConversationHistory saveMessage f whatsappClient st conversationId
      = (ServerError, st, tr0 @ [SelectMessageIds conversationId])"
    using Inr b persist_fetched_throws [OF assms, of saveMessage conversation msgs]
    by (simp add: syncConversationHistory_def)
  then show ?thesis by (simp add: tr0)
qed

lemma bulk_pass_lookup_throws:
  assumes "select_message_ids f st (conv_id conversation) = Throws"
  shows "save_calls (fst (snd (snd
           (sync_one_of_page saveMessage f chats conversation st totalNew)))) = []"
proof (cases "find_target_chat chats conversation")
  case None
  then show ?thesis by (simp add: sync_one_of_page_no_chat)
next
  case (Some targetChat)
  show ?thesis
  proof (cases "fetchMessages targetChat 100")
    case Throws
    with Some show ?thesis by (simp add: sync_one_of_page_fetch_throws)
  next
    case (Returns msgs)
    with Some assms show ?thesis by (simp add: sync_one_of_page_lookup_throws)
  qed
qed

lemma select_message_ids_cases:
  obtains (Rejected) "select_message_ids_fault f cid = Rejects"
      and "select_message_ids f st cid = Throws"
  | (Failed) "select_message_ids_fault f cid = ErrorResult"
      and "select_message_ids f st cid = Returns \<lparr>data = None, error = True\<rparr>"
  | (Answered) "select_message_ids_fault f cid = NoFault"
      and "select_message_ids f st cid
             = Returns \<lparr>data = Some (stored_message_ids st cid), error = False\<rparr>"
  by (cases "select_message_ids_fault f cid") (simp_all add: select_message_ids_def)

lemma single_pass_saves_not_stored:
  assumes "select_message_ids_fault f conversationId \<noteq> ErrorResult"
    and "r \<in> set (save_calls (snd (snd
           (syncConversationHistory saveMessage f whatsappClient st conversationId))))"
  shows "message_id r \<notin> set (stored_message_ids st conversationId)
       \<and> conversation_id r = conversationId"
proof (cases rule: select_message_ids_cases [of f conversationId st])
  case Rejected
  from assms(2) single_pass_lookup_throws [OF Rejected(2), of saveMessage whatsappClient]
  show ?thesis by simp
next
  case Failed
  with assms(1) show ?thesis by simp
next
  case Answered
  from single_pass_saves_unseen [OF Answered(2) assms(2)]
  show ?thesis by (simp add: existing_message_ids_def)
qed

lemma bulk_pass_saves_not_stored:
  assumes "select_message_ids_fault f (conv_id conversation) \<noteq> ErrorResult"
    and "r \<in> set (save_calls (fst (snd (snd
           (sync_one_of_page saveMessage f chats conversation st totalNew)))))"
  shows "message_id r \<notin> set (stored_message_ids st (conv_id conversation))
       \<and> conversation_id r = conv_id conversation"
proof (cases rule: select_message_ids_cases [of f "conv_id conversation" st])
  case Rejected
  from assms(2) bulk_pass_lookup_throws [OF Rejected(2), of saveMessage chats totalNew]
  show ?thesis by simp
next
  case Failed
  with assms(1) show ?thesis by simp
next
  case Answered
  from bulk_pass_saves_unseen [OF Answered(2) assms(2)]
  show ?thesis by (simp add: existing_message_ids_def)
qed

lemma single_pass_lookup_error:
  assumes "select_message_ids_fault f conversationId = ErrorResult"
    and "fetch_for_conversation f whatsappClient st conversationId = Inr (conversation, msgs, tr0)"
  shows "save_calls (snd (snd
           (syncConversationHistory saveMessage f whatsappClient st conversationId)))
     = map (row_of conversationId (user_id conversation)) (filter valid_date msgs)"
proof (cases rule: select_message_ids_cases [of f conversationId st])
  case Rejected
  with assms(1) show ?thesis by simp
next
  case Failed
  show ?thesis
    unfolding single_pass_save_calls [OF assms(2) Failed(2)]
    by (simp add: existing_message_ids_def)
next
  case Answered
  with assms(1) show ?thesis by simp
qed

lemma bulk_pass_lookup_error:
  assumes "select_message_ids_fault f (conv_id conversation) = ErrorResult"
    and "find_target_chat chats conversation = Some targetChat"
    and "fetchMessages targetChat 100 = Returns msgs"
  shows "save_calls (fst (snd (snd
           (sync_one_of_page saveMessage f chats conversation st totalNew))))
     = map (row_of (conv_id conversation) (user_id conversation)) (filter valid_date msgs)"
proof (cases rule: select_message_ids_cases [of f "conv_id conversation" st])
  case Rejected
  with assms(1) show ?thesis by simp
next
  case Failed
  show ?thesis
    unfolding bulk_pass_save_calls [OF assms(2,3) Failed(2)]
    by (simp add: existing_message_ids_def)
next
  case Answered
  with assms(1) show ?thesis by simp
qed

subsection \<open>The example store and session, continued\<close>

lemma upsert_message_keys:
  "row_key r \<in> set (map row_key rows) \<Longrightarrow>
   map row_key (upsert_message r rows) = map row_key rows"
  by (simp add: upsert_message_def)

lemma upsert_message_new:
  "row_key r \<notin> set (map row_key rows) \<Longrightarrow> upsert_message r rows = rows @ [r]"
  by (simp add: upsert_message_def)

lemma store_saveMessage_messages:
  "map row_key (messages (snd (store_saveMessage flt st r))) =
     (if flt (message_id r) = NoFault \<and> row_key r \<notin> set (map row_key (messages st))
      then map row_key (messages st) @ [row_key r]
      else map row_key (messages st))"
proof (cases "flt (message_id r)")
  case NoFault
  show ?thesis
  proof (cases "row_key r \<in> set (map row_key (messages st))")
    case True
    with NoFault upsert_message_keys [OF True] show ?thesis
      by (simp add: store_saveMessage_def)
  next
    case False
    with NoFault upsert_message_new [OF False] show ?thesis
      by (simp add: store_saveMessage_def)
  qed
next
  case ErrorResult
  then show ?thesis by (simp add: store_saveMessage_def)
next
  case Rejects
  then show ?thesis by (simp add: store_saveMessage_def)
qed

lemma store_saveMessage_adds_at_most_one: "adds_at_most_one (store_saveMessage flt)"
  unfolding adds_at_most_one_def store_saveMessage_messages by auto

lemma store_saveMessage_keeps_rows: "keeps_rows (store_saveMessage flt)"
  unfolding keeps_rows_def store_saveMessage_messages by auto

lemma store_saveMessage_stores_on_success: "stores_on_success (store_saveMessage flt)"
  unfolding stores_on_success_def
proof (intro allI impI)
  fix st r saved
  assume ok: "fst (store_saveMessage flt st r) = Returns (Some saved)"
  have "flt (message_id r) = NoFault"
    using ok by (cases "flt (message_id r)") (simp_all add: store_saveMessage_def)
  then show "row_key r \<in> set (map row_key (messages (snd (store_saveMessage flt st r))))"
    unfolding store_saveMessage_messages by simp
qed

lemma store_saveMessage_keeps_conversations: "keeps_conversations (store_saveMessage flt)"
  unfolding keeps_conversations_def
  by (simp add: store_saveMessage_def split: fault.splits)

lemma example_store_unique: "unique_rows example_store"
  by (simp add: unique_rows_def example_store_def)

lemma example_chats_distinct:
  "\<forall>chat\<in>set example_chats. \<forall>msgs. fetchMessages chat limit = Returns msgs
     \<longrightarrow> distinct (map id_serialized msgs)"
proof -
  have "distinct (map id_serialized [a_message ''a'' 100, a_message ''b'' 200, a_message ''c'' 150])"
    by (simp add: a_message_def)
  then have "distinct (map id_serialized
      (drop n [a_message ''a'' 100, a_message ''b'' 200, a_message ''c'' 150]))" for n
    by (metis distinct_drop drop_map)
  then show ?thesis
    by (simp add: example_chats_def a_chat_def)
qed

lemma example_page_c1:
  "save_calls (fst (snd (snd (sync_one_of_page (store_saveMessage (\<lambda>_. NoFault)) no_faults
      example_chats (a_conversation ''c1'' ''32470'') example_store 0))))
   = [a_row ''c1'' ''b'' 200, a_row ''c1'' ''c'' 150]"
proof -
  have chat: "find_target_chat example_chats (a_conversation ''c1'' ''32470'')
      = Some (a_chat ''32470@c.us'' [a_message ''a'' 100, a_message ''b'' 200, a_message ''c'' 150])"
    by (simp add: example_chats_def find_target_chat_def chat_matches_def a_chat_def
          a_conversation_def)
  have fetch: "fetchMessages
       (a_chat ''32470@c.us'' [a_message ''a'' 100, a_message ''b'' 200, a_message ''c'' 150]) 100
      = Returns [a_message ''a'' 100, a_message ''b'' 200, a_message ''c'' 150]"
    by (simp add: a_chat_def)
  have ids: "select_message_ids no_faults example_store (conv_id (a_conversation ''c1'' ''32470''))
      = Returns \<lparr>data = Some [''a''], error = False\<rparr>"
    using example_ids_c1 by (simp add: a_conversation_def)
  obtain st1 tr1 new skipped where loop:
    "save_new_messages (store_saveMessage (\<lambda>_. NoFault)) (conv_id (a_conversation ''c1'' ''32470''))
       (user_id (a_conversation ''c1'' ''32470''))
       (existing_message_ids \<lparr>data = Some [''a''], error = False\<rparr>)
       [a_message ''a'' 100, a_message ''b'' 200, a_message ''c'' 150] example_store 0 0
     = (st1, tr1, new, skipped)"
    by (metis prod_cases4)
  have tr1: "tr1 = [SaveMessage (a_row ''c1'' ''b'' 200), SaveMessage (a_row ''c1'' ''c'' 150)]"
    using save_new_messages_trace [of "store_saveMessage (\<lambda>_. NoFault)"
        "conv_id (a_conversation ''c1'' ''32470'')" "user_id (a_conversation ''c1'' ''32470'')"
        "existing_message_ids \<lparr>data = Some [''a''], error = False\<rparr>"
        "[a_message ''a'' 100, a_message ''b'' 200, a_message ''c'' 150]" example_store 0 0]
    unfolding loop
    by (simp add: existing_message_ids_def a_message_def a_row_def a_conversation_def
          valid_date_def valid_time_value_def)
  show ?thesis
    unfolding sync_one_of_page_found [OF chat fetch ids loop] tr1
    by (simp add: latest_message_def a_message_def valid_time_value_def
          split: prod.splits outcome.splits)
qed

lemma example_sync_c1:
  "fst (syncConversationHistory (store_saveMessage (\<lambda>_. NoFault)) no_faults
          (Some example_client) example_store ''c1'')
     = SyncOk \<lparr>result_conversationId = ''c1'', totalMessages = 3, newMessagesSaved = 2,
               skippedMessages = 1\<rparr>"
proof -
  have uf: "update_conversation_fault no_faults ''c1'' = NoFault"
    by (simp add: no_faults_def)
  show ?thesis
    by (simp add: syncConversationHistory_def example_fetch_c1 persist_fetched_def
          example_ids_c1 existing_message_ids_def a_message_def a_conversation_def
          store_saveMessage_def row_of_def latest_message_def save_args_def toISOString_def valid_time_value_def update_last_message_at_def uf Let_def)
qed

lemma example_fetch_c1_faults:
  assumes "select_conversation_fault f ''c1'' = NoFault"
  shows "fetch_for_conversation f (Some example_client) example_store ''c1''
     = Inr (a_conversation ''c1'' ''32470'',
            [a_message ''a'' 100, a_message ''b'' 200, a_message ''c'' 150],
            [SelectConversation ''c1'', GetChats, FetchMessages ''32470@c.us'' 999999])"
  using assms
  by (simp add: fetch_for_conversation_def example_client_def example_chats_def a_client_def
        example_store_def select_conversation_def a_conversation_def find_target_chat_def
        chat_matches_def a_chat_def)

lemma example_page_c2:
  assumes "select_message_ids_fault f ''c2'' = NoFault"
  shows "sync_page example_saveMessage f example_chats [a_conversation ''c2'' ''32999'']
       example_store totalNew synced results
     = (example_store,
        [FetchMessages ''32999@c.us'' 100, SelectMessageIds ''c2'', LogSynced ''c2'' 0],
        totalNew, synced, results)"
proof -
  have ids: "select_message_ids f example_store (conv_id (a_conversation ''c2'' ''32999''))
      = Returns \<lparr>data = Some [], error = False\<rparr>"
    using assms
    by (simp add: select_message_ids_def a_conversation_def stored_message_ids_def
          example_store_def a_row_def row_of_def)
  have fetch: "fetchMessages (a_chat ''32999@c.us'' []) 100 = Returns []"
    by (simp add: a_chat_def)
  have loop: "save_new_messages example_saveMessage (conv_id (a_conversation ''c2'' ''32999''))
       (user_id (a_conversation ''c2'' ''32999''))
       (existing_message_ids \<lparr>data = Some [], error = False\<rparr>) [] example_store 0 0
     = (example_store, [], 0, 0)"
    by simp
  have body: "sync_one_of_page example_saveMessage f example_chats
       (a_conversation ''c2'' ''32999'') example_store totalNew
     = (Completed 0, example_store,
        [FetchMessages ''32999@c.us'' 100, SelectMessageIds ''c2'', LogSynced ''c2'' 0],
        totalNew)"
    unfolding sync_one_of_page_found [OF example_chat_c2 fetch ids loop]
    by (simp add: a_chat_def a_conversation_def)
  show ?thesis
    unfolding sync_page_Cons [OF body] by simp
qed

subsection \<open>At most one row per external identifier\<close>

text \<open>
  C1, as the code has it. Let the lookup of the stored identifiers not resolve to an error
  result. In a single-conversation pass and in the pass of one conversation of the bulk
  loop, every \<^verbatim>\<open>saveMessage\<close> call is made for the conversation of the pass with an
  identifier that no row of the conversation has in the store at the start of the pass.
  Hence, when \<^verbatim>\<open>saveMessage\<close> adds at most one row per call (under the pair of its
  arguments) and the identifiers of a fetched batch are pairwise distinct, a message table
  with at most one row per pair \<^verbatim>\<open>(conversation_id, message_id)\<close> still has at most one
  row per pair after a single-conversation sync and after a bulk sync. When the lookup
  resolves to an error result, every fetched message whose timestamp is a valid date is
  passed to \<^verbatim>\<open>saveMessage\<close>, stored or not.
\<close>

theorem stored_identifiers_not_saved_again:
  "(select_message_ids_fault f conversationId \<noteq> ErrorResult
      \<and> r \<in> set (save_calls (snd (snd
             (syncConversationHistory saveMessage f whatsappClient st conversationId))))
    \<longrightarrow> message_id r \<notin> set (stored_message_ids st conversationId)
        \<and> conversation_id r = conversationId)
   \<and>
   (select_message_ids_fault f (conv_id pageConversation) \<noteq> ErrorResult
      \<and> r' \<in> set (save_calls (fst (snd (snd
             (sync_one_of_page saveMessage f chats pageConversation st totalNew)))))
    \<longrightarrow> message_id r' \<notin> set (stored_message_ids st (conv_id pageConversation))
        \<and> conversation_id r' = conv_id pageConversation)
   \<and>
   (adds_at_most_one saveMessage \<and> unique_rows st
      \<and> select_message_ids_fault f conversationId \<noteq> ErrorResult
      \<and> (\<forall>conversation msgs tr0.
             fetch_for_conversation f whatsappClient st conversationId
               = Inr (conversation, msgs, tr0)
             \<longrightarrow> distinct (map id_serialized msgs))
    \<longrightarrow> unique_rows (fst (snd
          (syncConversationHistory saveMessage f whatsappClient st conversationId))))
   \<and>
   (adds_at_most_one saveMessage \<and> unique_rows st
      \<and> (\<forall>cid. select_message_ids_fault f cid \<noteq> ErrorResult)
      \<and> (\<forall>cl chats. whatsappClient = Some cl \<and> getChats cl = Returns chats \<longrightarrow>
             (\<forall>chat\<in>set chats. \<forall>msgs. fetchMessages chat 100 = Returns msgs
                \<longrightarrow> distinct (map id_serialized msgs)))
    \<longrightarrow> unique_rows (fst (snd (syncAllConversationsHistory saveMessage f whatsappClient st))))
   \<and>
   (select_message_ids_fault f conversationId = ErrorResult
      \<and> fetch_for_conversation f whatsappClient st conversationId
            = Inr (conversation, msgs, tr0)
    \<longrightarrow> save_calls (snd (snd
          (syncConversationHistory saveMessage f whatsappClient st conversationId)))
        = map (row_of conversationId (user_id conversation)) (filter valid_date msgs))
   \<and>
   (select_message_ids_fault f (conv_id pageConversation) = ErrorResult
      \<and> find_target_chat chats pageConversation = Some targetChat
      \<and> fetchMessages targetChat 100 = Returns pageMsgs
    \<longrightarrow> save_calls (fst (snd (snd
          (sync_one_of_page saveMessage f chats pageConversation st totalNew))))
        = map (row_of (conv_id pageConversation) (user_id pageConversation))
            (filter valid_date pageMsgs))"
proof (intro conjI impI)
  assume h: "select_message_ids_fault f conversationId \<noteq> ErrorResult
      \<and> r \<in> set (save_calls (snd (snd
             (syncConversationHistory saveMessage f whatsappClient st conversationId))))"
  from single_pass_saves_not_stored [OF conjunct1 [OF h] conjunct2 [OF h]]
  show "message_id r \<notin> set (stored_message_ids st conversationId)"
    and "conversation_id r = conversationId"
    by simp_all
next
  assume h: "select_message_ids_fault f (conv_id pageConversation) \<noteq> ErrorResult
      \<and> r' \<in> set (save_calls (fst (snd (snd
             (sync_one_of_page saveMessage f chats pageConversation st totalNew)))))"
  from bulk_pass_saves_not_stored [OF conjunct1 [OF h] conjunct2 [OF h]]
  show "message_id r' \<notin> set (stored_message_ids st (conv_id pageConversation))"
    and "conversation_id r' = conv_id pageConversation"
    by simp_all
next
  assume h: "adds_at_most_one saveMessage \<and> unique_rows st
      \<and> select_message_ids_fault f conversationId \<noteq> ErrorResult
      \<and> (\<forall>conversation msgs tr0.
             fetch_for_conversation f whatsappClient st conversationId
               = Inr (conversation, msgs, tr0)
             \<longrightarrow> distinct (map id_serialized msgs))"
  show "unique_rows (fst (snd
          (syncConversationHistory saveMessage f whatsappClient st conversationId)))"
    by (rule single_pass_unique [OF conjunct1 [OF h] conjunct1 [OF conjunct2 [OF h]]
          conjunct1 [OF conjunct2 [OF conjunct2 [OF h]]]
          conjunct2 [OF conjunct2 [OF conjunct2 [OF h]]]])
next
  assume h: "adds_at_most_one saveMessage \<and> unique_rows st
      \<and> (\<forall>cid. select_message_ids_fault f cid \<noteq> ErrorResult)
      \<and> (\<forall>cl chats. whatsappClient = Some cl \<and> getChats cl = Returns chats \<longrightarrow>
             (\<forall>chat\<in>set chats. \<forall>msgs. fetchMessages chat 100 = Returns msgs
                \<longrightarrow> distinct (map id_serialized msgs)))"
  show "unique_rows (fst (snd (syncAllConversationsHistory saveMessage f whatsappClient st)))"
    by (rule bulk_sync_unique [OF conjunct1 [OF h]
          conjunct1 [OF conjunct2 [OF conjunct2 [OF h]]]
          conjunct2 [OF conjunct2 [OF conjunct2 [OF h]]]
          conjunct1 [OF conjunct2 [OF h]]])
next
  assume h: "select_message_ids_fault f conversationId = ErrorResult
      \<and> fetch_for_conversation f whatsappClient st conversationId
            = Inr (conversation, msgs, tr0)"
  show "save_calls (snd (snd
          (syncConversationHistory saveMessage f whatsappClient st conversationId)))
        = map (row_of conversationId (user_id conversation)) (filter valid_date msgs)"
    by (rule single_pass_lookup_error [OF conjunct1 [OF h] conjunct2 [OF h]])
next
  assume h: "select_message_ids_fault f (conv_id pageConversation) = ErrorResult
      \<and> find_target_chat chats pageConversation = Some targetChat
      \<and> fetchMessages targetChat 100 = Returns pageMsgs"
  show "save_calls (fst (snd (snd
          (sync_one_of_page saveMessage f chats pageConversation st totalNew))))
        = map (row_of (conv_id pageConversation) (user_id pageConversation))
            (filter valid_date pageMsgs)"
    by (rule bulk_pass_lookup_error [OF conjunct1 [OF h] conjunct1 [OF conjunct2 [OF h]]
          conjunct2 [OF conjunct2 [OF h]]])
qed

theorem stored_identifiers_not_saved_again_witness:
  "a_row ''c1'' ''b'' 200 \<in> set (save_calls (snd (snd
       (syncConversationHistory (store_saveMessage (\<lambda>_. NoFault)) no_faults
          (Some example_client) example_store ''c1''))))
   \<and> a_row ''c1'' ''b'' 200 \<in> set (save_calls (fst (snd (snd
       (sync_one_of_page (store_saveMessage (\<lambda>_. NoFault)) no_faults example_chats
          (a_conversation ''c1'' ''32470'') example_store 0)))))
   \<and> message_id (a_row ''c1'' ''b'' 200) \<notin> set (stored_message_ids example_store ''c1'')
   \<and> conversation_id (a_row ''c1'' ''b'' 200) = ''c1''
   \<and> unique_rows example_store
   \<and> unique_rows (fst (snd (syncConversationHistory (store_saveMessage (\<lambda>_. NoFault))
         no_faults (Some example_client) example_store ''c1'')))
   \<and> unique_rows (fst (snd (syncAllConversationsHistory (store_saveMessage (\<lambda>_. NoFault))
         no_faults (Some example_client) example_store)))
   \<and> save_calls (snd (snd (syncConversationHistory (store_saveMessage (\<lambda>_. NoFault))
         lookup_error_faults (Some example_client) example_store ''c1'')))
       = [a_row ''c1'' ''a'' 100, a_row ''c1'' ''b'' 200, a_row ''c1'' ''c'' 150]
   \<and> save_calls (fst (snd (snd (sync_one_of_page (store_saveMessage (\<lambda>_. NoFault))
         lookup_error_faults example_chats (a_conversation ''c1'' ''32470'') example_store 0))))
       = [a_row ''c1'' ''a'' 100, a_row ''c1'' ''b'' 200, a_row ''c1'' ''c'' 150]"
proof -
  let ?sv = "store_saveMessage (\<lambda>_. NoFault)"
  let ?c1 = "a_conversation ''c1'' ''32470''"
  let ?msgs = "[a_message ''a'' 100, a_message ''b'' 200, a_message ''c'' 150]"
  have in1: "a_row ''c1'' ''b'' 200 \<in> set (save_calls (snd (snd
       (syncConversationHistory ?sv no_faults (Some example_client) example_store ''c1''))))"
    unfolding single_pass_save_calls [OF example_fetch_c1 example_ids_c1]
    by (simp add: existing_message_ids_def a_message_def a_row_def a_conversation_def
          valid_date_def valid_time_value_def)
  have in2: "a_row ''c1'' ''b'' 200 \<in> set (save_calls (fst (snd (snd
       (sync_one_of_page ?sv no_faults example_chats ?c1 example_store 0)))))"
    unfolding example_page_c1 by simp
  have nf: "\<forall>cid. select_message_ids_fault no_faults cid \<noteq> ErrorResult"
    by (simp add: no_faults_def)
  have d1: "\<forall>conversation msgs tr0.
             fetch_for_conversation no_faults (Some example_client) example_store ''c1''
               = Inr (conversation, msgs, tr0)
             \<longrightarrow> distinct (map id_serialized msgs)"
    unfolding example_fetch_c1 by (simp add: a_message_def)
  have d2: "\<forall>cl chats. Some example_client = Some cl \<and> getChats cl = Returns chats \<longrightarrow>
             (\<forall>chat\<in>set chats. \<forall>msgs. fetchMessages chat 100 = Returns msgs
                \<longrightarrow> distinct (map id_serialized msgs))"
    using example_chats_distinct [of 100] by (simp add: example_client_def a_client_def)
  have cid: "conv_id ?c1 = ''c1''" and uid: "user_id ?c1 = None"
    by (simp_all add: a_conversation_def)
  note ok = stored_identifiers_not_saved_again [where f = no_faults and st = example_store
      and conversationId = "''c1''" and r = "a_row ''c1'' ''b'' 200"
      and saveMessage = ?sv and whatsappClient = "Some example_client"
      and pageConversation = ?c1
      and r' = "a_row ''c1'' ''b'' 200" and chats = example_chats and totalNew = 0]
  have stored: "message_id (a_row ''c1'' ''b'' 200) \<notin> set (stored_message_ids example_store ''c1'')"
    using conjunct1 [OF ok] nf in1 by blast
  have stored2: "conversation_id (a_row ''c1'' ''b'' 200) = conv_id ?c1"
    using conjunct1 [OF conjunct2 [OF ok]] nf in2 by blast
  have u1: "unique_rows (fst (snd (syncConversationHistory ?sv no_faults (Some example_client)
      example_store ''c1'')))"
    using conjunct1 [OF conjunct2 [OF conjunct2 [OF ok]]] nf d1 example_store_unique
      store_saveMessage_adds_at_most_one [of "\<lambda>_. NoFault"]
    by blast
  have u2: "unique_rows (fst (snd (syncAllConversationsHistory ?sv no_faults (Some example_client)
      example_store)))"
    using conjunct1 [OF conjunct2 [OF conjunct2 [OF conjunct2 [OF ok]]]] nf d2
      example_store_unique store_saveMessage_adds_at_most_one [of "\<lambda>_. NoFault"]
    by blast
  have f1: "select_conversation_fault lookup_error_faults ''c1'' = NoFault"
    and f2: "select_message_ids_fault lookup_error_faults ''c1'' = ErrorResult"
    by (simp_all add: lookup_error_faults_def no_faults_def)
  have chat: "find_target_chat example_chats ?c1 = Some (a_chat ''32470@c.us'' ?msgs)"
    by (simp add: example_chats_def find_target_chat_def chat_matches_def a_chat_def
          a_conversation_def)
  have fetch: "fetchMessages (a_chat ''32470@c.us'' ?msgs) 100 = Returns ?msgs"
    by (simp add: a_chat_def)
  have rows: "map (row_of ''c1'' None) (filter valid_date ?msgs)
      = [a_row ''c1'' ''a'' 100, a_row ''c1'' ''b'' 200, a_row ''c1'' ''c'' 150]"
    by (simp add: a_row_def a_message_def valid_date_def valid_time_value_def)
  note err = stored_identifiers_not_saved_again [where f = lookup_error_faults
      and st = example_store and conversationId = "''c1''" and saveMessage = ?sv
      and whatsappClient = "Some example_client" and conversation = ?c1 and msgs = ?msgs
      and ?tr0.0 = "[SelectConversation ''c1'', GetChats, FetchMessages ''32470@c.us'' 999999]"
      and pageConversation = ?c1 and chats = example_chats
      and targetChat = "a_chat ''32470@c.us'' ?msgs" and pageMsgs = ?msgs and totalNew = 0]
  have e1: "save_calls (snd (snd (syncConversationHistory ?sv lookup_error_faults
         (Some example_client) example_store ''c1'')))
       = map (row_of ''c1'' (user_id ?c1)) (filter valid_date ?msgs)"
    using conjunct1 [OF conjunct2 [OF conjunct2 [OF conjunct2 [OF conjunct2 [OF err]]]]]
      f2 example_fetch_c1_faults [OF f1]
    by blast
  have e2: "save_calls (fst (snd (snd (sync_one_of_page ?sv lookup_error_faults example_chats
         ?c1 example_store 0))))
       = map (row_of (conv_id ?c1) (user_id ?c1)) (filter valid_date ?msgs)"
    using conjunct2 [OF conjunct2 [OF conjunct2 [OF conjunct2 [OF conjunct2 [OF err]]]]]
      f2 chat fetch
    by (simp only: cid)
  from in1 in2 stored stored2 example_store_unique u1 u2 e1 e2 show ?thesis
    by (simp only: cid uid rows) blast
qed

text \<open>
  A lookup that resolves to an error result gives an empty set of stored identifiers.
  The identifier \<^verbatim>\<open>a\<close> is stored for conversation \<^verbatim>\<open>c1\<close>, and message \<^verbatim>\<open>a\<close> is passed to
  \<^verbatim>\<open>saveMessage\<close> again, by single-conversation sync and by bulk sync, which both answer
  with their success body.
\<close>

theorem stored_identifiers_not_saved_again_counterexample:
  "''a'' \<in> set (stored_message_ids example_store ''c1'')
   \<and> save_calls (snd (snd (syncConversationHistory example_saveMessage lookup_error_faults
                             (Some example_client) example_store ''c1'')))
       = [a_row ''c1'' ''a'' 100, a_row ''c1'' ''b'' 200, a_row ''c1'' ''c'' 150]
   \<and> save_calls (snd (snd (syncAllConversationsHistory example_saveMessage lookup_error_faults
                             (Some example_client) example_store)))
       = [a_row ''c1'' ''a'' 100, a_row ''c1'' ''b'' 200, a_row ''c1'' ''c'' 150]
   \<and> fst (syncAllConversationsHistory example_saveMessage lookup_error_faults
            (Some example_client) example_store)
       = BulkOk \<lparr>totalNewMessages = 3, conversationsSynced = 1, totalConversationsChecked = 3,
                  syncResults = [\<lparr>entry_conversationId = ''c1'', phoneNumber = ''32470'',
                                  newMessages = 3\<rparr>]\<rparr>"
  by (simp add: syncConversationHistory_def fetch_for_conversation_def persist_fetched_def
        select_conversation_def example_client_def example_chats_def example_store_def
        lookup_error_faults_def no_faults_def
        a_client_def a_chat_def a_conversation_def a_message_def a_row_def row_of_def
        save_args_def toISOString_def valid_time_value_def example_saveMessage_def
        store_saveMessage_def upsert_message_def row_key_def select_message_ids_def
        stored_message_ids_def existing_message_ids_def find_target_chat_def chat_matches_def
        latest_message_def syncAllConversationsHistory_def select_conversations_page_def
        recency_key_def sync_one_of_page_def update_last_message_at_def
        set_last_message_at_def Let_def)

subsection \<open>Running the same sync twice\<close>

lemma save_new_messages_all_seen:
  "\<forall>m\<in>set msgs. id_serialized m \<in> ex \<Longrightarrow>
   save_new_messages sv cid uid ex msgs st n s = (st, [], n, s + length msgs)"
  by (induction msgs arbitrary: s) simp_all

lemma save_new_messages_count_le:
  "fst (snd (snd (save_new_messages sv cid uid ex msgs st n s)))
     + snd (snd (snd (save_new_messages sv cid uid ex msgs st n s)))
   \<le> n + s + length msgs"
proof -
  have "length (filter (\<lambda>m. id_serialized m \<notin> ex) msgs)
      + length (filter (\<lambda>m. id_serialized m \<in> ex) msgs) = length msgs"
    using sum_length_filter_compl [of "\<lambda>m. id_serialized m \<in> ex" msgs] by simp
  moreover have "length (filter (\<lambda>m. id_serialized m \<notin> ex \<and> valid_date m) msgs)
      \<le> length (filter (\<lambda>m. id_serialized m \<notin> ex) msgs)"
    by (induction msgs) auto
  ultimately have "length (filter (\<lambda>m. id_serialized m \<notin> ex \<and> valid_date m) msgs)
      + length (filter (\<lambda>m. id_serialized m \<in> ex) msgs) \<le> length msgs"
    by linarith
  with save_new_messages_new_bounds [of n sv cid uid ex msgs st s]
    save_new_messages_skipped [of sv cid uid ex msgs st n s]
  show ?thesis by linarith
qed

lemma save_new_messages_keeps_rows:
  assumes "keeps_rows sv"
  shows "set (map row_key (messages st))
     \<subseteq> set (map row_key (messages (fst (save_new_messages sv cid uid ex msgs st n s))))"
proof (induction msgs arbitrary: st n s)
  case Nil
  show ?case by simp
next
  case (Cons msg msgs)
  show ?case
  proof (cases "id_serialized msg \<in> ex")
    case True
    show ?thesis
      unfolding save_new_messages_skip [OF True] by (rule Cons.IH)
  next
    case False
    show ?thesis
    proof (cases "valid_date msg")
      case inv: False
      show ?thesis
        unfolding save_new_messages_invalid [OF False inv] by (rule Cons.IH)
    next
      case v: True
      obtain res st1 where sv: "sv st (row_of cid uid msg) = (res, st1)"
        by (cases "sv st (row_of cid uid msg)")
      obtain st' tr n' s' where rec:
        "save_new_messages sv cid uid ex msgs st1
           (case res of Returns (Some _) \<Rightarrow> n + 1 | _ \<Rightarrow> n) s = (st', tr, n', s')"
        by (metis prod_cases4)
      have "set (map row_key (messages st))
          \<subseteq> set (map row_key (messages (snd (sv st (row_of cid uid msg)))))"
        using assms unfolding keeps_rows_def by blast
      then have step: "set (map row_key (messages st)) \<subseteq> set (map row_key (messages st1))"
        by (simp only: sv snd_conv)
      have "set (map row_key (messages st1)) \<subseteq> set (map row_key (messages st'))"
        using Cons.IH [of st1 "case res of Returns (Some _) \<Rightarrow> n + 1 | _ \<Rightarrow> n" s]
        by (simp only: rec fst_conv)
      with step show ?thesis
        unfolding save_new_messages_save [OF False v sv rec] fst_conv by (rule subset_trans)
    qed
  qed
qed

lemma save_new_messages_all_persisted:
  assumes "keeps_rows sv" and "stores_on_success sv"
    and "save_new_messages sv cid uid ex msgs st n s = (st', tr, n', s')"
    and "n' + s' = n + s + length msgs"
  shows "\<forall>m\<in>set msgs. id_serialized m \<in> ex
           \<or> (cid, id_serialized m) \<in> set (map row_key (messages st'))"
  using assms(3,4)
proof (induction msgs arbitrary: st n s tr)
  case Nil
  show ?case by simp
next
  case (Cons msg msgs)
  show ?case
  proof (cases "id_serialized msg \<in> ex")
    case True
    have rec: "save_new_messages sv cid uid ex msgs st n (s + 1) = (st', tr, n', s')"
      using Cons.prems(1) unfolding save_new_messages_skip [OF True] .
    have "n' + s' = n + (s + 1) + length msgs" using Cons.prems(2) by simp
    from Cons.IH [OF rec this] True show ?thesis by simp
  next
    case False
    have v: "valid_date msg"
    proof (rule ccontr)
      assume inv: "\<not> valid_date msg"
      have "save_new_messages sv cid uid ex msgs st n s = (st', tr, n', s')"
        using Cons.prems(1) unfolding save_new_messages_invalid [OF False inv] .
      with save_new_messages_count_le [of sv cid uid ex msgs st n s]
      have "n' + s' \<le> n + s + length msgs" by simp
      with Cons.prems(2) show False by simp
    qed
    obtain res st1 where sv: "sv st (row_of cid uid msg) = (res, st1)"
      by (cases "sv st (row_of cid uid msg)")
    define n1 where "n1 = (case res of Returns (Some _) \<Rightarrow> n + 1 | _ \<Rightarrow> n)"
    obtain st2 tr2 n2 s2 where rec:
      "save_new_messages sv cid uid ex msgs st1 n1 s = (st2, tr2, n2, s2)"
      by (metis prod_cases4)
    have whole: "save_new_messages sv cid uid ex (msg # msgs) st n s
        = (st2, SaveMessage (row_of cid uid msg) # tr2, n2, s2)"
      using save_new_messages_save [OF False v sv rec [unfolded n1_def]] .
    with Cons.prems(1) have eq: "st2 = st'" "n2 = n'" "s2 = s'" by simp_all
    have le: "n2 + s2 \<le> n1 + s + length msgs"
      using save_new_messages_count_le [of sv cid uid ex msgs st1 n1 s] by (simp add: rec)
    have n1_le: "n1 \<le> n + 1"
      unfolding n1_def by (simp split: outcome.splits option.splits)
    from le n1_le Cons.prems(2) eq have n1: "n1 = n + 1" and sum: "n2 + s2 = n1 + s + length msgs"
      by simp_all
    from n1 obtain saved where res: "res = Returns (Some saved)"
      unfolding n1_def by (auto split: outcome.splits option.splits)
    have "row_key (row_of cid uid msg)
        \<in> set (map row_key (messages (snd (sv st (row_of cid uid msg)))))"
      using assms(2) sv res unfolding stores_on_success_def
      by (metis fst_conv)
    then have "(cid, id_serialized msg) \<in> set (map row_key (messages st1))"
      by (simp only: sv snd_conv row_key_row_of)
    moreover have "set (map row_key (messages st1)) \<subseteq> set (map row_key (messages st2))"
      using save_new_messages_keeps_rows [OF assms(1), of st1 cid uid ex msgs n1 s]
      by (simp only: rec fst_conv)
    ultimately have here: "(cid, id_serialized msg) \<in> set (map row_key (messages st'))"
      using eq by blast
    from Cons.IH [OF rec [unfolded eq] sum [unfolded eq]] here show ?thesis by simp
  qed
qed

lemma save_new_messages_keeps_conversations:
  assumes "keeps_conversations sv"
  shows "conversations (fst (save_new_messages sv cid uid ex msgs st n s)) = conversations st"
proof (induction msgs arbitrary: st n s)
  case Nil
  show ?case by simp
next
  case (Cons msg msgs)
  show ?case
  proof (cases "id_serialized msg \<in> ex")
    case True
    show ?thesis
      unfolding save_new_messages_skip [OF True] by (rule Cons.IH)
  next
    case False
    show ?thesis
    proof (cases "valid_date msg")
      case inv: False
      show ?thesis
        unfolding save_new_messages_invalid [OF False inv] by (rule Cons.IH)
    next
      case v: True
      obtain res st1 where sv: "sv st (row_of cid uid msg) = (res, st1)"
        by (cases "sv st (row_of cid uid msg)")
      obtain st' tr n' s' where rec:
        "save_new_messages sv cid uid ex msgs st1
           (case res of Returns (Some _) \<Rightarrow> n + 1 | _ \<Rightarrow> n) s = (st', tr, n', s')"
        by (metis prod_cases4)
      have "conversations (snd (sv st (row_of cid uid msg))) = conversations st"
        using assms unfolding keeps_conversations_def by blast
      then have step: "conversations st1 = conversations st"
        by (simp only: sv snd_conv)
      have "conversations st' = conversations st1"
        using Cons.IH [of st1 "case res of Returns (Some _) \<Rightarrow> n + 1 | _ \<Rightarrow> n" s]
        by (simp only: rec fst_conv)
      with step show ?thesis
        unfolding save_new_messages_save [OF False v sv rec] fst_conv by simp
    qed
  qed
qed

lemma update_last_message_at_conversations:
  assumes "update_last_message_at f st cid t = (res, st')"
  shows "conversations st' = conversations st
       \<or> conversations st' = map (set_last_message_at cid t) (conversations st)"
  using assms [symmetric]
  by (cases "update_conversation_fault f cid") (simp_all add: update_last_message_at_def)

lemma update_last_message_at_throws:
  assumes "update_last_message_at f st cid t = (res, st')"
  shows "res = Throws \<longleftrightarrow> update_conversation_fault f cid = Rejects"
  using assms [symmetric]
  by (cases "update_conversation_fault f cid") (simp_all add: update_last_message_at_def)

lemma select_conversation_Some:
  assumes "select_conversation f st cid = Returns \<lparr>data = Some conversation, error = False\<rparr>"
  shows "select_conversation_fault f cid = NoFault"
    and "filter (\<lambda>c. conv_id c = cid) (conversations st) = [conversation]"
proof -
  show nf: "select_conversation_fault f cid = NoFault"
    using assms by (cases "select_conversation_fault f cid") (simp_all add: select_conversation_def)
  show "filter (\<lambda>c. conv_id c = cid) (conversations st) = [conversation]"
    using assms nf
    by (cases "filter (\<lambda>c. conv_id c = cid) (conversations st)")
       (auto simp: select_conversation_def split: list.splits)
qed

lemma chat_matches_phone:
  "phone_number c' = phone_number c \<Longrightarrow> chat_matches c' = chat_matches c"
  by (rule ext) (simp add: chat_matches_def)

lemma fetch_for_conversation_again:
  assumes "fetch_for_conversation f whatsappClient st cid = Inr (conversation, msgs, tr0)"
    and "conversations st1 = conversations st
       \<or> conversations st1 = map (set_last_message_at cid t) (conversations st)"
  shows "\<exists>conversation'. fetch_for_conversation f whatsappClient st1 cid
            = Inr (conversation', msgs, tr0)
          \<and> user_id conversation' = user_id conversation"
proof -
  from assms(1) obtain cl chats targetChat where
    cl: "whatsappClient = Some cl" "info cl"
    and sel: "select_conversation f st cid
           = Returns \<lparr>data = Some conversation, error = False\<rparr>"
    and chats: "getChats cl = Returns chats"
    and found: "find_target_chat chats conversation = Some targetChat"
    and msgs: "fetchMessages targetChat 999999 = Returns msgs"
    and tr0: "tr0 = [SelectConversation cid, GetChats,
                FetchMessages (chat_id targetChat) 999999]"
    by (rule fetch_for_conversation_Inr)
  note s = select_conversation_Some [OF sel]
  define conversation' where
    "conversation' = (if conversations st1 = conversations st then conversation
                      else set_last_message_at cid t conversation)"
  have same_id: "conv_id (set_last_message_at cid t c) = conv_id c" for c
    by (simp add: set_last_message_at_def)
  have "filter (\<lambda>c. conv_id c = cid) (map (set_last_message_at cid t) (conversations st))
      = map (set_last_message_at cid t) (filter (\<lambda>c. conv_id c = cid) (conversations st))"
    by (simp add: filter_map comp_def same_id)
  then have filt: "filter (\<lambda>c. conv_id c = cid) (conversations st1) = [conversation']"
    using assms(2) s(2) by (auto simp: conversation'_def)
  have sel': "select_conversation f st1 cid
      = Returns \<lparr>data = Some conversation', error = False\<rparr>"
    by (simp add: select_conversation_def s(1) filt)
  have phone: "phone_number conversation' = phone_number conversation"
    and uid: "user_id conversation' = user_id conversation"
    by (simp_all add: conversation'_def set_last_message_at_def)
  have found': "find_target_chat chats conversation' = Some targetChat"
    using found unfolding find_target_chat_def chat_matches_phone [OF phone] .
  have "fetch_for_conversation f whatsappClient st1 cid = Inr (conversation', msgs, tr0)"
    by (simp add: fetch_for_conversation_def cl sel' chats found' msgs tr0)
  with uid show ?thesis by blast
qed

lemma persist_fetched_all_seen:
  assumes "select_message_ids_fault f cid = NoFault"
    and "set (map id_serialized msgs) \<subseteq> set (stored_message_ids st cid)"
    and "msgs \<noteq> [] \<longrightarrow> update_conversation_fault f cid \<noteq> Rejects"
    and "msgs \<noteq> [] \<longrightarrow> valid_time_value (Max (set (map timestamp msgs)) * 1000)"
  shows "\<exists>st'. persist_fetched sv f st cid conv msgs =
     (SyncOk \<lparr>result_conversationId = cid, totalMessages = length msgs,
              newMessagesSaved = 0, skippedMessages = length msgs\<rparr>, st',
      SelectMessageIds cid
        # (case msgs of [] \<Rightarrow> []
           | first # rest \<Rightarrow>
               [UpdateLastMessageAt cid (ISO (timestamp (latest_message first rest) * 1000))]))"
proof -
  define q where "q = \<lparr>data = Some (stored_message_ids st cid), error = False\<rparr>"
  have look: "select_message_ids f st cid = Returns q"
    by (simp add: select_message_ids_def assms(1) q_def)
  have ex: "existing_message_ids q = set (stored_message_ids st cid)"
    by (simp add: existing_message_ids_def q_def)
  have "\<forall>m\<in>set msgs. id_serialized m \<in> existing_message_ids q"
    using assms(2) unfolding ex by auto
  from save_new_messages_all_seen [OF this, of sv cid "user_id conv" st 0 0]
  have loop: "save_new_messages sv cid (user_id conv) (existing_message_ids q) msgs st 0 0
      = (st, [], 0, length msgs)"
    by simp
  show ?thesis
  proof (cases msgs)
    case Nil
    then show ?thesis using persist_fetched_empty [OF look, of sv conv] by simp
  next
    case (Cons first rest)
    have "timestamp (latest_message first rest) = Max (set (map timestamp msgs))"
      unfolding Cons by (rule latest_message_max)
    with assms(4) Cons have v: "valid_time_value (timestamp (latest_message first rest) * 1000)"
      by simp
    obtain res st2 where upd: "update_last_message_at f st cid
        (ISO (timestamp (latest_message first rest) * 1000)) = (res, st2)"
      by (metis prod.exhaust)
    have "res \<noteq> Throws"
      using update_last_message_at_throws [OF upd] assms(3) Cons by simp
    then obtain u where res: "res = Returns u" by (cases res) auto
    show ?thesis
      unfolding Cons persist_fetched_nonempty [OF look loop [unfolded Cons] v] upd res
      by simp
  qed
qed

lemma fetch_for_conversation_Inl_not_ok:
  assumes "fetch_for_conversation f whatsappClient st cid = Inl (resp, tr)"
  shows "resp \<noteq> SyncOk r"
proof -
  have "resp = ServiceUnavailable \<or> resp = ServerError \<or> resp = ConversationNotFound
      \<or> resp = ChatNotFound"
    using assms [symmetric]
    by (simp add: fetch_for_conversation_def
          split: option.splits if_splits outcome.splits)
  then show ?thesis by auto
qed

lemma first_pass_ok:
  assumes "syncConversationHistory sv f whatsappClient st cid = (SyncOk r, st1, tr1)"
  obtains conversation msgs tr0 q stL trL where
    "fetch_for_conversation f whatsappClient st cid = Inr (conversation, msgs, tr0)"
    and "select_message_ids f st cid = Returns q"
    and "save_new_messages sv cid (user_id conversation) (existing_message_ids q) msgs st 0 0
           = (stL, trL, newMessagesSaved r, skippedMessages r)"
    and "totalMessages r = length msgs"
    and "messages st1 = messages stL"
    and "conversations st1 = conversations stL
       \<or> (\<exists>t. conversations st1 = map (set_last_message_at cid t) (conversations stL))"
    and "msgs \<noteq> [] \<longrightarrow> update_conversation_fault f cid \<noteq> Rejects"
    and "msgs \<noteq> [] \<longrightarrow> valid_time_value (Max (set (map timestamp msgs)) * 1000)"
proof (cases "fetch_for_conversation f whatsappClient st cid")
  case (Inl a)
  obtain resp tr where a: "a = (resp, tr)" by (cases a)
  have "syncConversationHistory sv f whatsappClient st cid = (resp, st, tr)"
    using Inl a by (simp add: syncConversationHistory_def)
  with assms have "resp = SyncOk r" by simp
  with fetch_for_conversation_Inl_not_ok [OF Inl [unfolded a], of r] show ?thesis by simp
next
  case (Inr b)
  obtain conversation msgs tr0 where b: "b = (conversation, msgs, tr0)" by (cases b)
  note fetch = Inr [unfolded b]
  obtain resp st' tr' where p: "persist_fetched sv f st cid conversation msgs = (resp, st', tr')"
    by (metis prod_cases3)
  have "syncConversationHistory sv f whatsappClient st cid = (resp, st', tr0 @ tr')"
    using fetch p by (simp add: syncConversationHistory_def)
  with assms have resp: "resp = SyncOk r" and st': "st' = st1" by simp_all
  note p = p [unfolded resp st']
  show ?thesis
  proof (cases "select_message_ids f st cid")
    case Throws
    from p persist_fetched_throws [OF Throws, of sv conversation msgs] show ?thesis by simp
  next
    case (Returns q)
    obtain stL trL new skipped where loop:
      "save_new_messages sv cid (user_id conversation) (existing_message_ids q) msgs st 0 0
         = (stL, trL, new, skipped)"
      by (metis prod_cases4)
    show ?thesis
    proof (cases msgs)
      case Nil
      from loop Nil have l: "stL = st" "new = 0" "skipped = 0" by simp_all
      from p persist_fetched_empty [OF Returns, of sv conversation] Nil
      have "r = \<lparr>result_conversationId = cid, totalMessages = 0, newMessagesSaved = 0,
              skippedMessages = 0\<rparr>" and "st1 = st"
        by simp_all
      then show ?thesis
        using that [OF fetch Returns, of stL trL] loop l Nil by simp
    next
      case (Cons first rest)
      define t where "t = ISO (timestamp (latest_message first rest) * 1000)"
      have mx: "timestamp (latest_message first rest) = Max (set (map timestamp msgs))"
        unfolding Cons by (rule latest_message_max)
      have v: "valid_time_value (timestamp (latest_message first rest) * 1000)"
      proof (rule ccontr)
        assume inv: "\<not> valid_time_value (timestamp (latest_message first rest) * 1000)"
        from p [unfolded Cons] persist_fetched_invalid [OF Returns loop [unfolded Cons] inv]
        show False by simp
      qed
      have vm: "valid_time_value (Max (set (map timestamp msgs)) * 1000)"
        using v by (simp only: mx)
      obtain res st2 where upd: "update_last_message_at f stL cid t = (res, st2)"
        by (metis prod.exhaust)
      have pn: "persist_fetched sv f st cid conversation (first # rest) =
         (case (res, st2) of
            (Throws, st2) \<Rightarrow>
              (ServerError, st2, SelectMessageIds cid # trL @ [UpdateLastMessageAt cid t])
          | (Returns _, st2) \<Rightarrow>
              (SyncOk \<lparr>result_conversationId = cid, totalMessages = length (first # rest),
                       newMessagesSaved = new, skippedMessages = skipped\<rparr>, st2,
               SelectMessageIds cid # trL @ [UpdateLastMessageAt cid t]))"
        using persist_fetched_nonempty [OF Returns loop [unfolded Cons] v]
        unfolding t_def [symmetric] upd .
      have "res \<noteq> Throws"
        using p [unfolded Cons] pn by (cases res) simp_all
      then obtain u where res: "res = Returns u" by (cases res) auto
      from p [unfolded Cons] pn res
      have r: "r = \<lparr>result_conversationId = cid, totalMessages = length (first # rest),
                       newMessagesSaved = new, skippedMessages = skipped\<rparr>"
        and st1: "st1 = st2"
        by simp_all
      have m: "messages st2 = messages stL"
        using update_last_message_at_messages [of f stL cid t] by (simp only: upd snd_conv)
      have c: "conversations st2 = conversations stL
          \<or> conversations st2 = map (set_last_message_at cid t) (conversations stL)"
        using upd by (rule update_last_message_at_conversations)
      have nr: "update_conversation_fault f cid \<noteq> Rejects"
        using update_last_message_at_throws [OF upd] res by simp
      show ?thesis
        using that [OF fetch Returns, of stL trL] loop r st1 m c nr vm Cons by auto
    qed
  qed
qed

text \<open>
  C2, as the code has it. Let the lookup of the stored identifiers answer with the
  identifiers the store holds for the conversation (it does not resolve to an error
  result and does not throw), and let \<^verbatim>\<open>saveMessage\<close> store what it reports saved, remove
  no row and leave the conversations alone. If a single-conversation sync succeeds with
  every fetched message either skipped as stored or saved (new plus skipped equals the
  size of the batch), then a second sync of the same conversation, on the store the first
  one left and with the same session, succeeds with the same batch size,
  \<^verbatim>\<open>newMessagesSaved = 0\<close> and \<^verbatim>\<open>skippedMessages\<close> equal to the batch size, and calls
  \<^verbatim>\<open>saveMessage\<close> for no message.
\<close>

theorem second_sync_saves_nothing:
  assumes "keeps_rows saveMessage" and "stores_on_success saveMessage"
    and "keeps_conversations saveMessage"
    and "select_message_ids_fault f conversationId = NoFault"
    and "syncConversationHistory saveMessage f whatsappClient st conversationId
           = (SyncOk r, st1, tr1)"
    and "newMessagesSaved r + skippedMessages r = totalMessages r"
  shows "fst (syncConversationHistory saveMessage f whatsappClient st1 conversationId)
           = SyncOk \<lparr>result_conversationId = conversationId,
                     totalMessages = totalMessages r, newMessagesSaved = 0,
                     skippedMessages = totalMessages r\<rparr>
         \<and> save_calls (snd (snd
               (syncConversationHistory saveMessage f whatsappClient st1 conversationId))) = []"
proof -
  from assms(5) obtain conversation msgs tr0 q stL trL where
    fetch: "fetch_for_conversation f whatsappClient st conversationId
              = Inr (conversation, msgs, tr0)"
    and look: "select_message_ids f st conversationId = Returns q"
    and loop: "save_new_messages saveMessage conversationId (user_id conversation)
                 (existing_message_ids q) msgs st 0 0
               = (stL, trL, newMessagesSaved r, skippedMessages r)"
    and total: "totalMessages r = length msgs"
    and msgs1: "messages st1 = messages stL"
    and convs1: "conversations st1 = conversations stL
       \<or> (\<exists>t. conversations st1 = map (set_last_message_at conversationId t) (conversations stL))"
    and upd: "msgs \<noteq> [] \<longrightarrow> update_conversation_fault f conversationId \<noteq> Rejects"
    and valid: "msgs \<noteq> [] \<longrightarrow> valid_time_value (Max (set (map timestamp msgs)) * 1000)"
    by (rule first_pass_ok)
  have ex: "existing_message_ids q = set (stored_message_ids st conversationId)"
    using look assms(4) by (simp add: select_message_ids_stored)
  have all: "newMessagesSaved r + skippedMessages r = 0 + 0 + length msgs"
    using assms(6) total by simp
  note persisted = save_new_messages_all_persisted [OF assms(1,2) loop all]
  have kept: "set (map row_key (messages st)) \<subseteq> set (map row_key (messages stL))"
    using save_new_messages_keeps_rows [OF assms(1), of st conversationId
        "user_id conversation" "existing_message_ids q" msgs 0 0]
    by (simp only: loop fst_conv)
  have stored: "set (map id_serialized msgs) \<subseteq> set (stored_message_ids st1 conversationId)"
  proof
    fix i
    assume "i \<in> set (map id_serialized msgs)"
    then obtain m where m: "m \<in> set msgs" and i: "i = id_serialized m" by auto
    from persisted m have "id_serialized m \<in> existing_message_ids q
        \<or> (conversationId, id_serialized m) \<in> set (map row_key (messages stL))"
      by blast
    then have "(conversationId, id_serialized m) \<in> set (map row_key (messages stL))"
    proof
      assume "id_serialized m \<in> existing_message_ids q"
      then have "(conversationId, id_serialized m) \<in> set (map row_key (messages st))"
        unfolding ex by (simp only: stored_key_iff)
      with kept show ?thesis by blast
    qed
    then have "(conversationId, id_serialized m) \<in> set (map row_key (messages st1))"
      by (simp only: msgs1)
    then show "i \<in> set (stored_message_ids st1 conversationId)"
      unfolding i by (simp only: stored_key_iff)
  qed
  have cL: "conversations stL = conversations st"
    using save_new_messages_keeps_conversations [OF assms(3), of conversationId
        "user_id conversation" "existing_message_ids q" msgs st 0 0]
    by (simp only: loop fst_conv)
  from convs1 obtain t where "conversations st1 = conversations st
       \<or> conversations st1 = map (set_last_message_at conversationId t) (conversations st)"
    unfolding cL by blast
  from fetch_for_conversation_again [OF fetch this] obtain conversation' where
    fetch': "fetch_for_conversation f whatsappClient st1 conversationId
               = Inr (conversation', msgs, tr0)"
    by blast
  from persist_fetched_all_seen [OF assms(4) stored upd valid, of saveMessage conversation']
  obtain st2 where p: "persist_fetched saveMessage f st1 conversationId conversation' msgs =
     (SyncOk \<lparr>result_conversationId = conversationId, totalMessages = length msgs,
              newMessagesSaved = 0, skippedMessages = length msgs\<rparr>, st2,
      SelectMessageIds conversationId
        # (case msgs of [] \<Rightarrow> []
           | first # rest \<Rightarrow>
               [UpdateLastMessageAt conversationId
                  (ISO (timestamp (latest_message first rest) * 1000))]))"
    by blast
  from fetch obtain cl chats targetChat where
    "whatsappClient = Some cl" and "info cl"
    and "select_conversation f st conversationId
           = Returns \<lparr>data = Some conversation, error = False\<rparr>"
    and "getChats cl = Returns chats"
    and "find_target_chat chats conversation = Some targetChat"
    and "fetchMessages targetChat 999999 = Returns msgs"
    and tr0: "tr0 = [SelectConversation conversationId, GetChats,
                FetchMessages (chat_id targetChat) 999999]"
    by (rule fetch_for_conversation_Inr)
  show ?thesis
    by (simp add: syncConversationHistory_def fetch' p total tr0 save_calls_append
          split: list.splits)
qed

theorem second_sync_saves_nothing_witness:
  "fst (syncConversationHistory (store_saveMessage (\<lambda>_. NoFault)) no_faults
          (Some example_client) example_store ''c1'')
     = SyncOk \<lparr>result_conversationId = ''c1'', totalMessages = 3, newMessagesSaved = 2,
               skippedMessages = 1\<rparr>
   \<and> fst (syncConversationHistory (store_saveMessage (\<lambda>_. NoFault)) no_faults
          (Some example_client)
          (fst (snd (syncConversationHistory (store_saveMessage (\<lambda>_. NoFault)) no_faults
                       (Some example_client) example_store ''c1''))) ''c1'')
     = SyncOk \<lparr>result_conversationId = ''c1'', totalMessages = 3, newMessagesSaved = 0,
               skippedMessages = 3\<rparr>"
proof -
  let ?sv = "store_saveMessage (\<lambda>_. NoFault)"
  obtain resp st1 tr1 where run:
    "syncConversationHistory ?sv no_faults (Some example_client) example_store ''c1''
       = (resp, st1, tr1)"
    by (metis prod_cases3)
  have first: "resp = SyncOk \<lparr>result_conversationId = ''c1'', totalMessages = 3,
      newMessagesSaved = 2, skippedMessages = 1\<rparr>"
    using example_sync_c1 unfolding run by simp
  have nf: "select_message_ids_fault no_faults ''c1'' = NoFault"
    by (simp add: no_faults_def)
  from second_sync_saves_nothing [OF store_saveMessage_keeps_rows
      store_saveMessage_stores_on_success store_saveMessage_keeps_conversations nf
      run [unfolded first]]
  show ?thesis
    unfolding run first by simp
qed

text \<open>
  With a lookup that resolves to an error result the second sync is not idle. On the
  example store the first sync of conversation \<^verbatim>\<open>c1\<close> saves the three fetched messages;
  the second sync, on the store the first one left and with the same batch, again reports
  three new messages and none skipped.
\<close>

theorem second_sync_saves_nothing_counterexample:
  "fst (syncConversationHistory example_saveMessage lookup_error_faults
          (Some example_client) example_store ''c1'')
     = SyncOk \<lparr>result_conversationId = ''c1'', totalMessages = 3, newMessagesSaved = 3,
               skippedMessages = 0\<rparr>
   \<and> stored_message_ids
         (fst (snd (syncConversationHistory example_saveMessage lookup_error_faults
                      (Some example_client) example_store ''c1''))) ''c1''
     = [''a'', ''b'', ''c'']
   \<and> fst (syncConversationHistory example_saveMessage lookup_error_faults
          (Some example_client)
          (fst (snd (syncConversationHistory example_saveMessage lookup_error_faults
                       (Some example_client) example_store ''c1''))) ''c1'')
     = SyncOk \<lparr>result_conversationId = ''c1'', totalMessages = 3, newMessagesSaved = 3,
               skippedMessages = 0\<rparr>"
  by (simp add: syncConversationHistory_def fetch_for_conversation_def persist_fetched_def
        select_conversation_def example_client_def example_chats_def example_store_def
        lookup_error_faults_def no_faults_def
        a_client_def a_chat_def a_conversation_def a_message_def a_row_def row_of_def
        save_args_def toISOString_def valid_time_value_def example_saveMessage_def
        store_saveMessage_def upsert_message_def row_key_def select_message_ids_def
        stored_message_ids_def existing_message_ids_def find_target_chat_def chat_matches_def
        latest_message_def update_last_message_at_def set_last_message_at_def Let_def)

subsection \<open>A lookup of the stored identifiers that fails\<close>

lemma select_message_ids_rejects:
  "select_message_ids f st cid = Throws \<longleftrightarrow> select_message_ids_fault f cid = Rejects"
  by (cases "select_message_ids_fault f cid") (simp_all add: select_message_ids_def)

text \<open>
  C5, as the code has it. When the lookup of the stored identifiers throws:
  single-conversation sync answers with the server error, leaves the store as it is,
  calls \<^verbatim>\<open>saveMessage\<close> for no message and updates no timestamp; in bulk sync the
  iteration of that conversation ends in the \<^verbatim>\<open>catch\<close> and the loop goes on with the next
  conversation, from the same store and the same counters.
\<close>

theorem lookup_exception_propagates:
  "(fetch_for_conversation f whatsappClient st conversationId = Inr (conversation, msgs, tr0)
      \<and> select_message_ids_fault f conversationId = Rejects
    \<longrightarrow> syncConversationHistory saveMessage f whatsappClient st conversationId
          = (ServerError, st, tr0 @ [SelectMessageIds conversationId]))
   \<and>
   (find_target_chat chats pageConversation = Some targetChat
      \<and> fetchMessages targetChat 100 = Returns pageMsgs
      \<and> select_message_ids_fault f (conv_id pageConversation) = Rejects
    \<longrightarrow> sync_page saveMessage f chats (pageConversation # rest) st totalNew synced results
          = (case sync_page saveMessage f chats rest st totalNew synced results of
               (st', tr, totalNew', synced', results') \<Rightarrow>
                 (st',
                  [FetchMessages (chat_id targetChat) 100,
                   SelectMessageIds (conv_id pageConversation),
                   LogSyncError (conv_id pageConversation)] @ tr,
                  totalNew', synced', results')))"
proof (intro conjI impI)
  assume h: "fetch_for_conversation f whatsappClient st conversationId
        = Inr (conversation, msgs, tr0)
      \<and> select_message_ids_fault f conversationId = Rejects"
  have "select_message_ids f st conversationId = Throws"
    using h by (simp add: select_message_ids_rejects)
  from persist_fetched_throws [OF this, of saveMessage conversation msgs] h
  show "syncConversationHistory saveMessage f whatsappClient st conversationId
          = (ServerError, st, tr0 @ [SelectMessageIds conversationId])"
    by (simp add: syncConversationHistory_def)
next
  assume h: "find_target_chat chats pageConversation = Some targetChat
      \<and> fetchMessages targetChat 100 = Returns pageMsgs
      \<and> select_message_ids_fault f (conv_id pageConversation) = Rejects"
  have "select_message_ids f st (conv_id pageConversation) = Throws"
    using h by (simp add: select_message_ids_rejects)
  with h have body: "sync_one_of_page saveMessage f chats pageConversation st totalNew
     = (Caught, st,
        [FetchMessages (chat_id targetChat) 100, SelectMessageIds (conv_id pageConversation),
         LogSyncError (conv_id pageConversation)], totalNew)"
    by (simp add: sync_one_of_page_lookup_throws)
  show "sync_page saveMessage f chats (pageConversation # rest) st totalNew synced results
          = (case sync_page saveMessage f chats rest st totalNew synced results of
               (st', tr, totalNew', synced', results') \<Rightarrow>
                 (st',
                  [FetchMessages (chat_id targetChat) 100,
                   SelectMessageIds (conv_id pageConversation),
                   LogSyncError (conv_id pageConversation)] @ tr,
                  totalNew', synced', results'))"
    unfolding sync_page_Cons [OF body] by (simp split: prod.splits)
qed

theorem lookup_exception_propagates_witness:
  "syncConversationHistory example_saveMessage lookup_rejects_faults (Some example_client)
     example_store ''c1''
   = (ServerError, example_store,
      [SelectConversation ''c1'', GetChats, FetchMessages ''32470@c.us'' 999999,
       SelectMessageIds ''c1''])
   \<and> sync_page example_saveMessage lookup_rejects_faults example_chats
       [a_conversation ''c1'' ''32470'', a_conversation ''c2'' ''32999''] example_store 0 0 []
   = (example_store,
      [FetchMessages ''32470@c.us'' 100, SelectMessageIds ''c1'', LogSyncError ''c1'',
       FetchMessages ''32999@c.us'' 100, SelectMessageIds ''c2'', LogSynced ''c2'' 0],
      0, 0, [])"
proof -
  have f1: "select_conversation_fault lookup_rejects_faults ''c1'' = NoFault"
    and f2: "select_message_ids_fault lookup_rejects_faults ''c1'' = Rejects"
    and f3: "select_message_ids_fault lookup_rejects_faults ''c2'' = NoFault"
    by (simp_all add: lookup_rejects_faults_def no_faults_def)
  have chat: "find_target_chat example_chats (a_conversation ''c1'' ''32470'')
      = Some (a_chat ''32470@c.us'' [a_message ''a'' 100, a_message ''b'' 200, a_message ''c'' 150])"
    by (simp add: example_chats_def find_target_chat_def chat_matches_def a_chat_def
          a_conversation_def)
  have fetch: "fetchMessages
       (a_chat ''32470@c.us'' [a_message ''a'' 100, a_message ''b'' 200, a_message ''c'' 150]) 100
      = Returns [a_message ''a'' 100, a_message ''b'' 200, a_message ''c'' 150]"
    by (simp add: a_chat_def)
  have f2': "select_message_ids_fault lookup_rejects_faults
      (conv_id (a_conversation ''c1'' ''32470'')) = Rejects"
    using f2 by (simp add: a_conversation_def)
  have h1: "fetch_for_conversation lookup_rejects_faults (Some example_client) example_store ''c1''
        = Inr (a_conversation ''c1'' ''32470'',
            [a_message ''a'' 100, a_message ''b'' 200, a_message ''c'' 150],
            [SelectConversation ''c1'', GetChats, FetchMessages ''32470@c.us'' 999999])
      \<and> select_message_ids_fault lookup_rejects_faults ''c1'' = Rejects"
    using example_fetch_c1_faults [OF f1] f2 by simp
  have h2: "find_target_chat example_chats (a_conversation ''c1'' ''32470'')
        = Some (a_chat ''32470@c.us''
             [a_message ''a'' 100, a_message ''b'' 200, a_message ''c'' 150])
      \<and> fetchMessages (a_chat ''32470@c.us''
             [a_message ''a'' 100, a_message ''b'' 200, a_message ''c'' 150]) 100
        = Returns [a_message ''a'' 100, a_message ''b'' 200, a_message ''c'' 150]
      \<and> select_message_ids_fault lookup_rejects_faults
            (conv_id (a_conversation ''c1'' ''32470'')) = Rejects"
    using chat fetch f2' by simp
  note inst = lookup_exception_propagates [where f = lookup_rejects_faults
      and whatsappClient = "Some example_client" and st = example_store
      and conversationId = "''c1''" and conversation = "a_conversation ''c1'' ''32470''"
      and msgs = "[a_message ''a'' 100, a_message ''b'' 200, a_message ''c'' 150]"
      and ?tr0.0 = "[SelectConversation ''c1'', GetChats, FetchMessages ''32470@c.us'' 999999]"
      and saveMessage = example_saveMessage and chats = example_chats
      and pageConversation = "a_conversation ''c1'' ''32470''"
      and targetChat = "a_chat ''32470@c.us''
             [a_message ''a'' 100, a_message ''b'' 200, a_message ''c'' 150]"
      and pageMsgs = "[a_message ''a'' 100, a_message ''b'' 200, a_message ''c'' 150]"
      and rest = "[a_conversation ''c2'' ''32999'']" and totalNew = 0 and synced = 0
      and results = "[]"]
  have single: "syncConversationHistory example_saveMessage lookup_rejects_faults
       (Some example_client) example_store ''c1''
     = (ServerError, example_store,
        [SelectConversation ''c1'', GetChats, FetchMessages ''32470@c.us'' 999999]
          @ [SelectMessageIds ''c1''])"
    using conjunct1 [OF inst] h1 by (rule mp)
  have bulk: "sync_page example_saveMessage lookup_rejects_faults example_chats
       (a_conversation ''c1'' ''32470'' # [a_conversation ''c2'' ''32999'']) example_store 0 0 []
     = (case sync_page example_saveMessage lookup_rejects_faults example_chats
               [a_conversation ''c2'' ''32999''] example_store 0 0 [] of
          (st', tr, totalNew', synced', results') \<Rightarrow>
            (st',
             [FetchMessages (chat_id (a_chat ''32470@c.us''
                  [a_message ''a'' 100, a_message ''b'' 200, a_message ''c'' 150])) 100,
              SelectMessageIds (conv_id (a_conversation ''c1'' ''32470'')),
              LogSyncError (conv_id (a_conversation ''c1'' ''32470''))] @ tr,
             totalNew', synced', results'))"
    using conjunct2 [OF inst] h2 by (rule mp)
  show ?thesis
    unfolding single bulk example_page_c2 [OF f3]
    by (simp add: a_chat_def a_conversation_def)
qed

text \<open>
  The lookup can also fail by resolving to an error result without data, the form the
  handlers test for on their other queries. It is then read as an empty set of stored
  identifiers: the sync of conversation \<^verbatim>\<open>c1\<close>, whose message \<^verbatim>\<open>a\<close> is stored, succeeds and
  reports all three fetched messages as new.
\<close>

theorem lookup_error_result_counterexample:
  "select_message_ids lookup_error_faults example_store ''c1''
     = Returns \<lparr>data = None, error = True\<rparr>
   \<and> fst (syncConversationHistory example_saveMessage lookup_error_faults
            (Some example_client) example_store ''c1'')
     = SyncOk \<lparr>result_conversationId = ''c1'', totalMessages = 3, newMessagesSaved = 3,
               skippedMessages = 0\<rparr>"
proof -
  have f1: "select_conversation_fault lookup_error_faults ''c1'' = NoFault"
    and f2: "select_message_ids_fault lookup_error_faults ''c1'' = ErrorResult"
    and f3: "update_conversation_fault lookup_error_faults ''c1'' = NoFault"
    by (simp_all add: lookup_error_faults_def no_faults_def)
  have look: "select_message_ids lookup_error_faults example_store ''c1''
     = Returns \<lparr>data = None, error = True\<rparr>"
    by (simp add: select_message_ids_def f2)
  have "fst (syncConversationHistory example_saveMessage lookup_error_faults
            (Some example_client) example_store ''c1'')
     = SyncOk \<lparr>result_conversationId = ''c1'', totalMessages = 3, newMessagesSaved = 3,
               skippedMessages = 0\<rparr>"
    by (simp add: syncConversationHistory_def example_fetch_c1_faults [OF f1]
          persist_fetched_def look existing_message_ids_def a_message_def a_conversation_def
          example_saveMessage_def store_saveMessage_def row_of_def latest_message_def save_args_def toISOString_def valid_time_value_def
          update_last_message_at_def f3 Let_def)
  with look show ?thesis by simp
qed

subsection \<open>What the bulk loop logs, counts and returns\<close>

lemma synced_log_append: "synced_log (xs @ ys) = synced_log xs @ synced_log ys"
  by (induction xs rule: synced_log.induct) simp_all

lemma failed_log_append: "failed_log (xs @ ys) = failed_log xs @ failed_log ys"
  by (induction xs rule: failed_log.induct) simp_all

lemma missing_log_append: "missing_log (xs @ ys) = missing_log xs @ missing_log ys"
  by (induction xs rule: missing_log.induct) simp_all

lemma logs_of_saves:
  "synced_log (map (\<lambda>m. SaveMessage (g m)) xs) = []"
  "failed_log (map (\<lambda>m. SaveMessage (g m)) xs) = []"
  "missing_log (map (\<lambda>m. SaveMessage (g m)) xs) = []"
  by (induction xs) simp_all

lemma sync_one_of_page_summary:
  assumes "sync_one_of_page sv f chats c st t = (it, st1, tr1, t1)"
  shows "synced_log tr1 = (case it of Completed n \<Rightarrow> [(conv_id c, n)] | _ \<Rightarrow> [])"
    and "failed_log tr1 = (case it of Caught \<Rightarrow> [conv_id c] | _ \<Rightarrow> [])"
    and "missing_log tr1 = (case it of Continued \<Rightarrow> [conv_id c] | _ \<Rightarrow> [])"
    and "t \<le> t1" and "t1 \<le> t + length (save_calls tr1)"
    and "case it of Completed n \<Rightarrow> t1 = t + n | Continued \<Rightarrow> t1 = t \<and> st1 = st
         | Caught \<Rightarrow> True"
proof -
  have "(synced_log tr1 = (case it of Completed n \<Rightarrow> [(conv_id c, n)] | _ \<Rightarrow> []))
      \<and> (failed_log tr1 = (case it of Caught \<Rightarrow> [conv_id c] | _ \<Rightarrow> []))
      \<and> (missing_log tr1 = (case it of Continued \<Rightarrow> [conv_id c] | _ \<Rightarrow> []))
      \<and> t \<le> t1 \<and> t1 \<le> t + length (save_calls tr1)
      \<and> (case it of Completed n \<Rightarrow> t1 = t + n | Continued \<Rightarrow> t1 = t \<and> st1 = st
          | Caught \<Rightarrow> True)"
  proof (cases "find_target_chat chats c")
    case None
    from assms [unfolded sync_one_of_page_no_chat [OF None]] show ?thesis by auto
  next
    case (Some targetChat)
    show ?thesis
    proof (cases "fetchMessages targetChat 100")
      case Throws
      from assms [unfolded sync_one_of_page_fetch_throws [OF Some Throws]] show ?thesis by auto
    next
      case (Returns msgs)
      show ?thesis
      proof (cases "select_message_ids f st (conv_id c)")
        case Throws
        from assms [unfolded sync_one_of_page_lookup_throws [OF Some Returns Throws]]
        show ?thesis by auto
      next
        case q: (Returns q)
        obtain stL trL new skipped where loop:
          "save_new_messages sv (conv_id c) (user_id c) (existing_message_ids q) msgs st 0 0
             = (stL, trL, new, skipped)"
          by (metis prod_cases4)
        define new_msgs where
          "new_msgs = filter (\<lambda>m. id_serialized m \<notin> existing_message_ids q \<and> valid_date m) msgs"
        have trL: "trL = map (\<lambda>m. SaveMessage (row_of (conv_id c) (user_id c) m)) new_msgs"
          using save_new_messages_trace [of sv "conv_id c" "user_id c"
              "existing_message_ids q" msgs st 0 0]
          by (simp add: loop new_msgs_def)
        have new: "new \<le> length (save_calls trL)"
          using save_new_messages_new_bounds [of 0 sv "conv_id c" "user_id c"
              "existing_message_ids q" msgs st 0]
          by (simp add: loop trL save_calls_map new_msgs_def)
        have logs: "synced_log trL = []" "failed_log trL = []" "missing_log trL = []"
          unfolding trL by (rule logs_of_saves)+
        note found = sync_one_of_page_found [OF Some Returns q loop, of t]
        show ?thesis
        proof (cases msgs)
          case Nil
          from assms [unfolded found Nil list.case] new logs show ?thesis
            by (auto simp: synced_log_append failed_log_append missing_log_append
                  save_calls_append)
        next
          case (Cons first rest)
          show ?thesis
          proof (cases "valid_time_value (timestamp (latest_message first rest) * 1000)")
            case v: True
            obtain res st2 where upd: "update_last_message_at f stL (conv_id c)
                (ISO (timestamp (latest_message first rest) * 1000)) = (res, st2)"
              by (metis prod.exhaust)
            from assms [unfolded found Cons list.case if_P [OF v] upd] new logs show ?thesis
              by (cases res)
                 (auto simp: synced_log_append failed_log_append missing_log_append
                    save_calls_append)
          next
            case inv: False
            from assms [unfolded found Cons list.case if_not_P [OF inv]] new logs show ?thesis
              by (auto simp: synced_log_append failed_log_append missing_log_append
                    save_calls_append)
          qed
        qed
      qed
    qed
  qed
  then show "synced_log tr1 = (case it of Completed n \<Rightarrow> [(conv_id c, n)] | _ \<Rightarrow> [])"
    and "failed_log tr1 = (case it of Caught \<Rightarrow> [conv_id c] | _ \<Rightarrow> [])"
    and "missing_log tr1 = (case it of Continued \<Rightarrow> [conv_id c] | _ \<Rightarrow> [])"
    and "t \<le> t1" and "t1 \<le> t + length (save_calls tr1)"
    and "case it of Completed n \<Rightarrow> t1 = t + n | Continued \<Rightarrow> t1 = t \<and> st1 = st
         | Caught \<Rightarrow> True"
    by simp_all
qed

lemma sync_page_summary:
  assumes "sync_page sv f chats convs st t sy rs = (st', tr, t', sy', rs')"
  shows "map entry_pair rs' = map entry_pair rs @ filter (\<lambda>(c, n). n > 0) (synced_log tr)
       \<and> sy' + length rs = sy + length rs'
       \<and> t + sum_list (map snd (synced_log tr)) \<le> t'
       \<and> (failed_log tr = [] \<longrightarrow> t' = t + sum_list (map snd (synced_log tr)))
       \<and> t' \<le> t + length (save_calls tr)
       \<and> length (synced_log tr) + length (failed_log tr) + length (missing_log tr)
           = length convs
       \<and> (\<exists>new. rs' = rs @ new
             \<and> (\<forall>e\<in>set new. \<exists>c\<in>set convs.
                    entry_conversationId e = conv_id c \<and> phoneNumber e = phone_number c
                    \<and> newMessages e > 0))"
  using assms
proof (induction convs arbitrary: st t sy rs st' tr t' sy' rs')
  case Nil
  then show ?case by auto
next
  case (Cons c convs)
  obtain it st1 tr1 t1 where body: "sync_one_of_page sv f chats c st t = (it, st1, tr1, t1)"
    by (metis prod_cases4)
  define sy1 where "sy1 = (case it of Completed n \<Rightarrow> if n > 0 then sy + 1 else sy | _ \<Rightarrow> sy)"
  define rs1 where "rs1 = (case it of
                Completed n \<Rightarrow>
                  if n > 0
                  then rs @ [\<lparr>entry_conversationId = conv_id c, phoneNumber = phone_number c,
                              newMessages = n\<rparr>]
                  else rs
              | _ \<Rightarrow> rs)"
  obtain st2 tr2 t2 sy2 rs2 where rec:
    "sync_page sv f chats convs st1 t1 sy1 rs1 = (st2, tr2, t2, sy2, rs2)"
    by (metis prod_cases5)
  have "sync_page sv f chats (c # convs) st t sy rs = (st2, tr1 @ tr2, t2, sy2, rs2)"
    unfolding sync_page_Cons [OF body] sy1_def [symmetric] rs1_def [symmetric] rec by simp
  with Cons.prems have eq: "st' = st2" "tr = tr1 @ tr2" "t' = t2" "sy' = sy2" "rs' = rs2"
    by simp_all
  note ih = Cons.IH [OF rec]
  note b = sync_one_of_page_summary [OF body]
  from ih obtain new where new: "rs2 = rs1 @ new"
    and new_from: "\<forall>e\<in>set new. \<exists>c\<in>set convs.
                    entry_conversationId e = conv_id c \<and> phoneNumber e = phone_number c
                    \<and> newMessages e > 0"
    by blast
  show ?case
  proof (cases it)
    case Continued
    then have "sy1 = sy" "rs1 = rs" by (simp_all add: sy1_def rs1_def)
    with ih b new new_from Continued show ?thesis
      unfolding eq
      by (auto simp: synced_log_append failed_log_append missing_log_append save_calls_append)
  next
    case Caught
    then have "sy1 = sy" "rs1 = rs" by (simp_all add: sy1_def rs1_def)
    with ih b new new_from Caught show ?thesis
      unfolding eq
      by (auto simp: synced_log_append failed_log_append missing_log_append save_calls_append)
  next
    case (Completed n)
    show ?thesis
    proof (cases "n > 0")
      case True
      then have s: "sy1 = sy + 1"
        "rs1 = rs @ [\<lparr>entry_conversationId = conv_id c, phoneNumber = phone_number c,
                              newMessages = n\<rparr>]"
        by (simp_all add: sy1_def rs1_def Completed)
      have ex: "\<exists>new'. rs2 = rs @ new'
             \<and> (\<forall>e\<in>set new'. \<exists>c'\<in>set (c # convs).
                    entry_conversationId e = conv_id c' \<and> phoneNumber e = phone_number c'
                    \<and> newMessages e > 0)"
        using new new_from True unfolding s
        by (intro exI [of _ "\<lparr>entry_conversationId = conv_id c, phoneNumber = phone_number c,
                              newMessages = n\<rparr> # new"]) auto
      from ih b Completed True ex show ?thesis
        unfolding eq s
        by (simp add: synced_log_append failed_log_append missing_log_append save_calls_append
              entry_pair_def)
    next
      case False
      then have s: "sy1 = sy" "rs1 = rs" by (simp_all add: sy1_def rs1_def Completed)
      have ex: "\<exists>new'. rs2 = rs @ new'
             \<and> (\<forall>e\<in>set new'. \<exists>c'\<in>set (c # convs).
                    entry_conversationId e = conv_id c' \<and> phoneNumber e = phone_number c'
                    \<and> newMessages e > 0)"
        using new new_from unfolding s by auto
      from ih b Completed False ex show ?thesis
        unfolding eq s
        by (simp add: synced_log_append failed_log_append missing_log_append save_calls_append)
    qed
  qed
qed

lemma bulk_handler_ok:
  assumes "whatsappClient = Some cl" and "info cl"
    and "select_conversations_page f st = Returns \<lparr>data = Some convs, error = False\<rparr>"
    and "getChats cl = Returns chats"
    and "sync_page sv f chats convs st 0 0 [] = (st', tr, t', sy', rs')"
  shows "syncAllConversationsHistory sv f whatsappClient st =
     (BulkOk \<lparr>totalNewMessages = t', conversationsSynced = sy',
              totalConversationsChecked = length convs, syncResults = rs'\<rparr>,
      st', SelectConversationsPage # GetChats # tr)"
  using assms by (simp add: syncAllConversationsHistory_def)

lemma bulk_handler_ok_run:
  assumes "syncAllConversationsHistory sv f whatsappClient st = (BulkOk r, st', tr)"
  obtains cl chats convs tr' where
    "whatsappClient = Some cl" and "info cl"
    and "select_conversations_page f st = Returns \<lparr>data = Some convs, error = False\<rparr>"
    and "getChats cl = Returns chats"
    and "sync_page sv f chats convs st 0 0 []
           = (st', tr', totalNewMessages r, conversationsSynced r, syncResults r)"
    and "tr = SelectConversationsPage # GetChats # tr'"
    and "totalConversationsChecked r = length convs"
proof -
  obtain cl where cl: "whatsappClient = Some cl"
    using assms by (cases whatsappClient) (simp_all add: syncAllConversationsHistory_def)
  have info: "info cl"
    using assms cl by (cases "info cl") (simp_all add: syncAllConversationsHistory_def)
  obtain q where q: "select_conversations_page f st = Returns q"
    using assms cl info
    by (cases "select_conversations_page f st") (simp_all add: syncAllConversationsHistory_def)
  have noerr: "\<not> error q"
    using assms cl info q by (cases "error q") (simp_all add: syncAllConversationsHistory_def)
  obtain convs where convs: "data q = Some convs"
    using assms cl info q noerr
    by (cases "data q") (simp_all add: syncAllConversationsHistory_def)
  have q': "q = \<lparr>data = Some convs, error = False\<rparr>"
    using noerr convs by (cases q) simp
  obtain chats where chats: "getChats cl = Returns chats"
    using assms cl info q noerr convs
    by (cases "getChats cl") (simp_all add: syncAllConversationsHistory_def)
  obtain st2 tr2 t2 sy2 rs2 where loop:
    "sync_page sv f chats convs st 0 0 [] = (st2, tr2, t2, sy2, rs2)"
    by (metis prod_cases5)
  from bulk_handler_ok [OF cl info q [unfolded q'] chats loop] assms
  have "r = \<lparr>totalNewMessages = t2, conversationsSynced = sy2,
              totalConversationsChecked = length convs, syncResults = rs2\<rparr>"
    and "st' = st2" and "tr = SelectConversationsPage # GetChats # tr2"
    by simp_all
  then show ?thesis
    using that [OF cl info q [unfolded q'] chats, of tr2] loop by simp
qed

lemma sum_positive_pairs:
  "sum_list (map snd (filter (\<lambda>(c, n). n > 0) xs)) = sum_list (map snd xs)"
  for xs :: "(string \<times> nat) list"
  by (induction xs) auto

lemma sum_entry_pairs: "sum_list (map newMessages rs) = sum_list (map snd (map entry_pair rs))"
  by (simp add: entry_pair_def comp_def)

lemma sync_page_entries:
  assumes "sync_page sv f chats convs st t sy rs = (st', tr, t', sy', rs')"
  shows "\<exists>new. rs' = rs @ new \<and> sy' = sy + length new
       \<and> (\<forall>e\<in>set new. \<exists>c\<in>set convs.
              entry_conversationId e = conv_id c \<and> phoneNumber e = phone_number c)"
proof -
  from sync_page_summary [OF assms] obtain new where new: "rs' = rs @ new"
    and from_convs: "\<forall>e\<in>set new. \<exists>c\<in>set convs.
                    entry_conversationId e = conv_id c \<and> phoneNumber e = phone_number c
                    \<and> newMessages e > 0"
    and count: "sy' + length rs = sy + length rs'"
    by blast
  from count new have "sy' = sy + length new" by simp
  with new from_convs show ?thesis by blast
qed

text \<open>
  Over one iteration \<^verbatim>\<open>totalNewMessages\<close> grows by the number of \<^verbatim>\<open>saveMessage\<close> calls
  of the iteration that answered truthy, however the iteration ends.
\<close>

lemma sync_one_of_page_saved_count:
  assumes "sync_one_of_page sv f chats c st t = (it, st1, tr1, t1)"
  shows "t1 = t + saved_count sv st (save_calls tr1)"
proof (cases "find_target_chat chats c")
  case None
  from assms [unfolded sync_one_of_page_no_chat [OF None]] show ?thesis by auto
next
  case (Some targetChat)
  show ?thesis
  proof (cases "fetchMessages targetChat 100")
    case Throws
    from assms [unfolded sync_one_of_page_fetch_throws [OF Some Throws]] show ?thesis by auto
  next
    case (Returns msgs)
    show ?thesis
    proof (cases "select_message_ids f st (conv_id c)")
      case Throws
      from assms [unfolded sync_one_of_page_lookup_throws [OF Some Returns Throws]]
      show ?thesis by auto
    next
      case q: (Returns q)
      obtain stL trL new skipped where loop:
        "save_new_messages sv (conv_id c) (user_id c) (existing_message_ids q) msgs st 0 0
           = (stL, trL, new, skipped)"
        by (metis prod_cases4)
      have new: "new = saved_count sv st (save_calls trL)"
        using save_new_messages_saved_count [of sv "conv_id c" "user_id c"
            "existing_message_ids q" msgs st 0 0]
        by (simp only: loop fst_conv snd_conv add_0)
      note found = sync_one_of_page_found [OF Some Returns q loop, of t]
      have "t1 = t + new \<and> save_calls tr1 = save_calls trL"
      proof (cases msgs)
        case Nil
        from assms [unfolded found Nil list.case] show ?thesis
          by (auto simp: save_calls_append)
      next
        case (Cons first rest)
        show ?thesis
        proof (cases "valid_time_value (timestamp (latest_message first rest) * 1000)")
          case v: True
          obtain res st2 where upd: "update_last_message_at f stL (conv_id c)
              (ISO (timestamp (latest_message first rest) * 1000)) = (res, st2)"
            by (metis prod.exhaust)
          from assms [unfolded found Cons list.case if_P [OF v] upd] show ?thesis
            by (cases res) (auto simp: save_calls_append)
        next
          case inv: False
          from assms [unfolded found Cons list.case if_not_P [OF inv]] show ?thesis
            by (auto simp: save_calls_append)
        qed
      qed
      with new show ?thesis by simp
    qed
  qed
qed

subsection \<open>Bulk sync on the example stores\<close>

lemmas example_defs =
  example_client_def example_chats_def a_client_def a_chat_def a_conversation_def
  a_message_def a_row_def row_of_def save_args_def valid_time_value_def example_saveMessage_def store_saveMessage_def
  upsert_message_def row_key_def
  select_conversations_page_def select_message_ids_def stored_message_ids_def
  existing_message_ids_def update_last_message_at_def set_last_message_at_def
  find_target_chat_def chat_matches_def sync_one_of_page_def
  syncAllConversationsHistory_def recency_key_def latest_message_def toISOString_def
  Let_def

lemma example_bulk_run:
  "fst (syncAllConversationsHistory example_saveMessage no_faults (Some example_client)
          example_store)
   = BulkOk \<lparr>totalNewMessages = 2, conversationsSynced = 1, totalConversationsChecked = 3,
              syncResults = [\<lparr>entry_conversationId = ''c1'', phoneNumber = ''32470'',
                              newMessages = 2\<rparr>]\<rparr>"
  by (simp add: example_defs example_store_def no_faults_def)

subsection \<open>The per-conversation results and the total\<close>

text \<open>
  C6, as the code has it. When bulk sync answers with its success body: the entries of
  \<^verbatim>\<open>syncResults\<close> are, in page order, the conversations whose iteration reached its end
  with at least one new message, each with its count (a conversation that reached the end
  with no new message has no entry); \<^verbatim>\<open>conversationsSynced\<close> is the number of entries;
  \<^verbatim>\<open>totalNewMessages\<close> is at least the sum of the entries' counts and equals it when no
  conversation ended in the \<^verbatim>\<open>catch\<close>; and every conversation of the page ends in one of
  the three ways: at its end, in the \<^verbatim>\<open>catch\<close>, or skipped for want of a chat.
\<close>

theorem bulk_results_and_total:
  assumes "syncAllConversationsHistory saveMessage f whatsappClient st = (BulkOk r, st', tr)"
  shows "map entry_pair (syncResults r) = filter (\<lambda>(c, n). n > 0) (synced_log tr)
       \<and> conversationsSynced r = length (syncResults r)
       \<and> sum_list (map newMessages (syncResults r)) \<le> totalNewMessages r
       \<and> (failed_log tr = []
            \<longrightarrow> totalNewMessages r = sum_list (map newMessages (syncResults r)))
       \<and> length (synced_log tr) + length (failed_log tr) + length (missing_log tr)
           = totalConversationsChecked r"
proof -
  from assms obtain cl chats convs tr' where
    loop: "sync_page saveMessage f chats convs st 0 0 []
           = (st', tr', totalNewMessages r, conversationsSynced r, syncResults r)"
    and tr: "tr = SelectConversationsPage # GetChats # tr'"
    and checked: "totalConversationsChecked r = length convs"
    by (rule bulk_handler_ok_run)
  note s = sync_page_summary [OF loop]
  have logs: "synced_log tr = synced_log tr'" "failed_log tr = failed_log tr'"
    "missing_log tr = missing_log tr'"
    by (simp_all add: tr)
  have pairs: "map entry_pair (syncResults r) = filter (\<lambda>(c, n). n > 0) (synced_log tr')"
    using s by simp
  have sum: "sum_list (map newMessages (syncResults r)) = sum_list (map snd (synced_log tr'))"
    unfolding sum_entry_pairs pairs by (rule sum_positive_pairs)
  show ?thesis
    unfolding logs using s pairs sum checked by simp
qed

theorem bulk_results_and_total_witness:
  "fst (syncAllConversationsHistory example_saveMessage no_faults (Some example_client)
          example_store)
   = BulkOk \<lparr>totalNewMessages = 2, conversationsSynced = 1, totalConversationsChecked = 3,
              syncResults = [\<lparr>entry_conversationId = ''c1'', phoneNumber = ''32470'',
                              newMessages = 2\<rparr>]\<rparr>
   \<and> filter (\<lambda>(c, n). n > 0)
        (synced_log (snd (snd (syncAllConversationsHistory example_saveMessage no_faults
                                 (Some example_client) example_store))))
     = [(''c1'', 2)]"
proof -
  obtain resp st' tr where run:
    "syncAllConversationsHistory example_saveMessage no_faults (Some example_client)
       example_store = (resp, st', tr)"
    by (metis prod_cases3)
  have resp: "resp = BulkOk \<lparr>totalNewMessages = 2, conversationsSynced = 1,
      totalConversationsChecked = 3,
      syncResults = [\<lparr>entry_conversationId = ''c1'', phoneNumber = ''32470'',
                      newMessages = 2\<rparr>]\<rparr>"
    using example_bulk_run unfolding run by simp
  from bulk_results_and_total [OF run [unfolded resp]]
  show ?thesis
    unfolding run resp by (simp add: entry_pair_def)
qed

text \<open>
  A conversation that bulk sync processes to its end without a new message has no entry:
  on the store where the three messages of conversation \<^verbatim>\<open>c1\<close> are stored, the iteration
  of \<^verbatim>\<open>c1\<close> reaches its end with count 0 and \<^verbatim>\<open>syncResults\<close> is empty.
\<close>

theorem bulk_results_and_total_counterexample:
  "fst (syncAllConversationsHistory example_saveMessage no_faults (Some example_client)
          synced_store)
   = BulkOk \<lparr>totalNewMessages = 0, conversationsSynced = 0, totalConversationsChecked = 1,
              syncResults = []\<rparr>
   \<and> synced_log (snd (snd (syncAllConversationsHistory example_saveMessage no_faults
                              (Some example_client) synced_store)))
     = [(''c1'', 0)]"
  by (simp add: example_defs synced_store_def no_faults_def)

subsection \<open>A conversation without a live chat\<close>

text \<open>
  C10. In bulk sync, let the page hold a conversation for which no live chat matches.
  The handler still answers with its success body, and the conversation is counted in
  \<^verbatim>\<open>totalConversationsChecked\<close>; its iteration only logs the warning: the loop goes on
  over the following conversations from the store, the total, the count and the results
  that the preceding ones left, so no timestamp is updated for it and every entry of
  \<^verbatim>\<open>syncResults\<close> comes from another conversation of the page. Single-conversation sync of
  the same conversation answers with the 404 for a chat that is not found.
\<close>

theorem bulk_skips_conversation_without_chat:
  assumes "whatsappClient = Some cl" and "info cl"
    and "select_conversations_page f st
           = Returns \<lparr>data = Some (pre @ pageConversation # post), error = False\<rparr>"
    and "getChats cl = Returns chats"
    and "find_target_chat chats pageConversation = None"
    and "sync_page saveMessage f chats pre st 0 0 [] = (st1, tr1, t1, sy1, rs1)"
    and "sync_page saveMessage f chats post st1 t1 sy1 rs1 = (st2, tr2, t2, sy2, rs2)"
  shows "syncAllConversationsHistory saveMessage f whatsappClient st =
           (BulkOk \<lparr>totalNewMessages = t2, conversationsSynced = sy2,
                    totalConversationsChecked = length pre + 1 + length post,
                    syncResults = rs2\<rparr>,
            st2,
            SelectConversationsPage # GetChats
              # tr1 @ LogChatNotFound (conv_id pageConversation) # tr2)
         \<and> (\<forall>e\<in>set rs2. \<exists>c\<in>set (pre @ post).
                entry_conversationId e = conv_id c \<and> phoneNumber e = phone_number c)
         \<and> (select_conversation f st (conv_id pageConversation)
               = Returns \<lparr>data = Some pageConversation, error = False\<rparr>
             \<longrightarrow> fst (syncConversationHistory saveMessage f whatsappClient st
                        (conv_id pageConversation)) = ChatNotFound)"
proof (intro conjI impI)
  have body: "sync_one_of_page saveMessage f chats pageConversation st1 t1
      = (Continued, st1, [LogChatNotFound (conv_id pageConversation)], t1)"
    using assms(5) by (rule sync_one_of_page_no_chat)
  have tail: "sync_page saveMessage f chats (pageConversation # post) st1 t1 sy1 rs1
      = (st2, LogChatNotFound (conv_id pageConversation) # tr2, t2, sy2, rs2)"
    unfolding sync_page_Cons [OF body] by (simp add: assms(7))
  have loop: "sync_page saveMessage f chats (pre @ pageConversation # post) st 0 0 []
      = (st2, tr1 @ LogChatNotFound (conv_id pageConversation) # tr2, t2, sy2, rs2)"
    unfolding sync_page_append assms(6) prod.case tail by simp
  from bulk_handler_ok [OF assms(1,2,3,4) loop]
  show "syncAllConversationsHistory saveMessage f whatsappClient st =
           (BulkOk \<lparr>totalNewMessages = t2, conversationsSynced = sy2,
                    totalConversationsChecked = length pre + 1 + length post,
                    syncResults = rs2\<rparr>,
            st2,
            SelectConversationsPage # GetChats
              # tr1 @ LogChatNotFound (conv_id pageConversation) # tr2)"
    by simp
next
  from sync_page_entries [OF assms(6)] obtain new1 where
    rs1: "rs1 = new1" and n1: "\<forall>e\<in>set new1. \<exists>c\<in>set pre.
              entry_conversationId e = conv_id c \<and> phoneNumber e = phone_number c"
    by auto
  from sync_page_entries [OF assms(7)] obtain new2 where
    rs2: "rs2 = rs1 @ new2" and n2: "\<forall>e\<in>set new2. \<exists>c\<in>set post.
              entry_conversationId e = conv_id c \<and> phoneNumber e = phone_number c"
    by auto
  show "\<forall>e\<in>set rs2. \<exists>c\<in>set (pre @ post).
                entry_conversationId e = conv_id c \<and> phoneNumber e = phone_number c"
    unfolding rs2 rs1 using n1 n2 by auto
next
  assume sel: "select_conversation f st (conv_id pageConversation)
               = Returns \<lparr>data = Some pageConversation, error = False\<rparr>"
  have "fetch_for_conversation f whatsappClient st (conv_id pageConversation)
      = Inl (ChatNotFound, [SelectConversation (conv_id pageConversation), GetChats])"
    using assms(1,2,4,5) sel by (simp add: fetch_for_conversation_def)
  then show "fst (syncConversationHistory saveMessage f whatsappClient st
                        (conv_id pageConversation)) = ChatNotFound"
    by (simp add: syncConversationHistory_def)
qed

theorem bulk_skips_conversation_without_chat_witness:
  "syncAllConversationsHistory example_saveMessage no_faults (Some example_client) small_store
   = (BulkOk \<lparr>totalNewMessages = 0, conversationsSynced = 0, totalConversationsChecked = 2,
               syncResults = []\<rparr>,
      small_store,
      [SelectConversationsPage, GetChats, LogChatNotFound ''c3'',
       FetchMessages ''32999@c.us'' 100, SelectMessageIds ''c2'', LogSynced ''c2'' 0])
   \<and> fst (syncConversationHistory example_saveMessage no_faults (Some example_client)
            small_store ''c3'') = ChatNotFound"
proof -
  have cl: "Some example_client = Some example_client" "info example_client"
    "getChats example_client = Returns example_chats"
    by (simp_all add: example_client_def a_client_def)
  have page: "select_conversations_page no_faults small_store
      = Returns \<lparr>data = Some ([] @ a_conversation ''c3'' ''32111''
                                  # [a_conversation ''c2'' ''32999'']), error = False\<rparr>"
    by (simp add: select_conversations_page_def no_faults_def small_store_def recency_key_def
          a_conversation_def)
  have none: "find_target_chat example_chats (a_conversation ''c3'' ''32111'') = None"
    by (simp add: example_chats_def find_target_chat_def chat_matches_def a_chat_def
          a_conversation_def)
  have pre: "sync_page example_saveMessage no_faults example_chats [] small_store 0 0 []
      = (small_store, [], 0, 0, [])"
    by simp
  have post: "sync_page example_saveMessage no_faults example_chats
       [a_conversation ''c2'' ''32999''] small_store 0 0 []
      = (small_store,
         [FetchMessages ''32999@c.us'' 100, SelectMessageIds ''c2'', LogSynced ''c2'' 0],
         0, 0, [])"
    by (simp add: example_defs small_store_def no_faults_def)
  have sel: "select_conversation no_faults small_store (conv_id (a_conversation ''c3'' ''32111''))
      = Returns \<lparr>data = Some (a_conversation ''c3'' ''32111''), error = False\<rparr>"
    by (simp add: select_conversation_def no_faults_def small_store_def a_conversation_def)
  from bulk_skips_conversation_without_chat [OF cl(1,2) page cl(3) none pre post] sel
  show ?thesis
    by (simp add: a_conversation_def)
qed

subsection \<open>A conversation whose processing throws\<close>

text \<open>
  C7, as the code has it. In bulk sync, let the processing of one conversation of the page
  throw. The handler still answers with its success body; the conversations before it
  and after it are processed, the latter from the store and the total the failed
  iteration left and from the count and the results the former left. The failed
  conversation is logged as failed, has no entry in \<^verbatim>\<open>syncResults\<close> and is not counted in
  \<^verbatim>\<open>conversationsSynced\<close>. Over the failed iteration \<^verbatim>\<open>totalNewMessages\<close> grows by
  exactly the number of \<^verbatim>\<open>saveMessage\<close> calls of the iteration that answered truthy: the
  messages saved before the failure stay counted, and the total excludes the conversation
  when the failure comes before its first save.
\<close>

theorem bulk_continues_after_failure:
  assumes "whatsappClient = Some cl" and "info cl"
    and "select_conversations_page f st
           = Returns \<lparr>data = Some (pre @ pageConversation # post), error = False\<rparr>"
    and "getChats cl = Returns chats"
    and "sync_page saveMessage f chats pre st 0 0 [] = (st1, tr1, t1, sy1, rs1)"
    and "sync_one_of_page saveMessage f chats pageConversation st1 t1 = (Caught, st2, tr2, t2)"
    and "sync_page saveMessage f chats post st2 t2 sy1 rs1 = (st3, tr3, t3, sy3, rs3)"
  shows "syncAllConversationsHistory saveMessage f whatsappClient st =
           (BulkOk \<lparr>totalNewMessages = t3, conversationsSynced = sy3,
                    totalConversationsChecked = length pre + 1 + length post,
                    syncResults = rs3\<rparr>,
            st3, SelectConversationsPage # GetChats # tr1 @ tr2 @ tr3)
         \<and> failed_log tr2 = [conv_id pageConversation] \<and> synced_log tr2 = []
         \<and> (\<forall>e\<in>set rs3. \<exists>c\<in>set (pre @ post).
                entry_conversationId e = conv_id c \<and> phoneNumber e = phone_number c)
         \<and> sy3 = length rs3
         \<and> t2 = t1 + saved_count saveMessage st1 (save_calls tr2)
         \<and> t1 \<le> t2 \<and> t2 \<le> t1 + length (save_calls tr2)
         \<and> (save_calls tr2 = [] \<longrightarrow> t2 = t1)"
proof -
  have tail: "sync_page saveMessage f chats (pageConversation # post) st1 t1 sy1 rs1
      = (st3, tr2 @ tr3, t3, sy3, rs3)"
    unfolding sync_page_Cons [OF assms(6)] by (simp add: assms(7))
  have loop: "sync_page saveMessage f chats (pre @ pageConversation # post) st 0 0 []
      = (st3, tr1 @ tr2 @ tr3, t3, sy3, rs3)"
    unfolding sync_page_append assms(5) prod.case tail by simp
  from bulk_handler_ok [OF assms(1,2,3,4) loop]
  have resp: "syncAllConversationsHistory saveMessage f whatsappClient st =
           (BulkOk \<lparr>totalNewMessages = t3, conversationsSynced = sy3,
                    totalConversationsChecked = length pre + 1 + length post,
                    syncResults = rs3\<rparr>,
            st3, SelectConversationsPage # GetChats # tr1 @ tr2 @ tr3)"
    by simp
  note b = sync_one_of_page_summary [OF assms(6)]
  have logs: "failed_log tr2 = [conv_id pageConversation]" "synced_log tr2 = []"
    using b(1,2) by simp_all
  from sync_page_entries [OF assms(5)] obtain new1 where
    rs1: "rs1 = new1" and sy1: "sy1 = length new1"
    and n1: "\<forall>e\<in>set new1. \<exists>c\<in>set pre.
              entry_conversationId e = conv_id c \<and> phoneNumber e = phone_number c"
    by auto
  from sync_page_entries [OF assms(7)] obtain new3 where
    rs3: "rs3 = rs1 @ new3" and sy3: "sy3 = sy1 + length new3"
    and n3: "\<forall>e\<in>set new3. \<exists>c\<in>set post.
              entry_conversationId e = conv_id c \<and> phoneNumber e = phone_number c"
    by auto
  have entries: "\<forall>e\<in>set rs3. \<exists>c\<in>set (pre @ post).
                entry_conversationId e = conv_id c \<and> phoneNumber e = phone_number c"
    unfolding rs3 rs1 using n1 n3 by auto
  have count: "sy3 = length rs3"
    unfolding sy3 sy1 rs3 rs1 by simp
  have totals: "t1 \<le> t2" "t2 \<le> t1 + length (save_calls tr2)"
    using b(4,5) by simp_all
  have none: "save_calls tr2 = [] \<longrightarrow> t2 = t1" using totals by auto
  have saved: "t2 = t1 + saved_count saveMessage st1 (save_calls tr2)"
    using assms(6) by (rule sync_one_of_page_saved_count)
  from resp logs entries count saved totals none show ?thesis by (intro conjI)
qed

theorem bulk_continues_after_failure_witness:
  "fst (syncAllConversationsHistory example_saveMessage update_rejects_faults
          (Some example_client) example_store)
   = BulkOk \<lparr>totalNewMessages = 2, conversationsSynced = 0, totalConversationsChecked = 3,
              syncResults = []\<rparr>
   \<and> synced_log (snd (snd (syncAllConversationsHistory example_saveMessage
                              update_rejects_faults (Some example_client) example_store)))
     = [(''c2'', 0)]"
proof -
  let ?f = update_rejects_faults
  let ?c1 = "a_conversation ''c1'' ''32470''"
  let ?post = "[a_conversation ''c2'' ''32999'', a_conversation ''c3'' ''32111'']"
  have cl: "Some example_client = Some example_client" "info example_client"
    "getChats example_client = Returns example_chats"
    by (simp_all add: example_client_def a_client_def)
  have page: "select_conversations_page ?f example_store
      = Returns \<lparr>data = Some ([] @ ?c1 # ?post), error = False\<rparr>"
    by (simp add: select_conversations_page_def update_rejects_faults_def no_faults_def
          example_store_def recency_key_def a_conversation_def)
  have pre: "sync_page example_saveMessage ?f example_chats [] example_store 0 0 []
      = (example_store, [], 0, 0, [])"
    by simp
  obtain it st2 tr2 t2 where body:
    "sync_one_of_page example_saveMessage ?f example_chats ?c1 example_store 0
       = (it, st2, tr2, t2)"
    by (metis prod_cases4)
  have it: "it = Caught"
    using body
    by (simp add: example_defs example_store_def update_rejects_faults_def no_faults_def)
  obtain st3 tr3 t3 sy3 rs3 where post:
    "sync_page example_saveMessage ?f example_chats ?post st2 t2 0 [] = (st3, tr3, t3, sy3, rs3)"
    by (metis prod_cases5)
  have logs2: "synced_log tr2 = []"
    using sync_one_of_page_summary(1) [OF body] it by simp
  have logs3: "synced_log tr3 = [(''c2'', 0)]"
    using post [symmetric] body [symmetric]
    by (simp add: example_defs example_store_def update_rejects_faults_def no_faults_def)
  from bulk_continues_after_failure [OF cl(1,2) page cl(3) pre body [unfolded it] post]
  have run: "syncAllConversationsHistory example_saveMessage ?f (Some example_client)
               example_store
      = (BulkOk \<lparr>totalNewMessages = t3, conversationsSynced = sy3,
                  totalConversationsChecked = length ([] :: conversation list) + 1 + length ?post,
                  syncResults = rs3\<rparr>,
         st3, SelectConversationsPage # GetChats # [] @ tr2 @ tr3)"
    by simp
  have "fst (syncAllConversationsHistory example_saveMessage ?f (Some example_client)
               example_store)
      = BulkOk \<lparr>totalNewMessages = 2, conversationsSynced = 0, totalConversationsChecked = 3,
              syncResults = []\<rparr>"
    by (simp add: example_defs example_store_def update_rejects_faults_def no_faults_def)
  moreover have "synced_log (snd (snd (syncAllConversationsHistory example_saveMessage ?f
      (Some example_client) example_store))) = [(''c2'', 0)]"
    unfolding run by (simp add: synced_log_append logs2 logs3)
  ultimately show ?thesis by simp
qed

text \<open>
  The total can count messages of the failed conversation. With an update of conversation
  \<^verbatim>\<open>c1\<close> that throws, the two new messages of \<^verbatim>\<open>c1\<close> are saved and counted in
  \<^verbatim>\<open>totalNewMessages\<close> before the iteration ends in the \<^verbatim>\<open>catch\<close>.
\<close>

theorem bulk_continues_after_failure_counterexample:
  "fst (syncAllConversationsHistory example_saveMessage update_rejects_faults
          (Some example_client) example_store)
   = BulkOk \<lparr>totalNewMessages = 2, conversationsSynced = 0, totalConversationsChecked = 3,
              syncResults = []\<rparr>
   \<and> failed_log (snd (snd (syncAllConversationsHistory example_saveMessage
                              update_rejects_faults (Some example_client) example_store)))
     = [''c1'']"
  by (simp add: example_defs example_store_def update_rejects_faults_def no_faults_def)

end
